(* ===== verification/Prelude.thy ===== *)
theory Prelude
  imports Main "HOL-Library.Word" "HOL-Library.Product_Lexorder" "HOL-Library.List_Lexorder"
begin

text \<open>
  Shared vocabulary of the development: the machine integers of the runtime, the
  arithmetic of \<^verbatim>\<open>Weight\<close> (its \<^verbatim>\<open>ref_time\<close>, a \<^verbatim>\<open>u64\<close>), the slice and vector operations of
  the Rust standard library that the pallets call, results as sums, and the collections
  the component theories add to.  The runtime is compiled in the release profile of
  \<^verbatim>\<open>src/Cargo.toml\<close>: plain integer operators wrap and \<^verbatim>\<open>debug_assert!\<close> is a no-op.
\<close>

type_synonym u8 = "8 word"
type_synonym u16 = "16 word"
type_synonym u32 = "32 word"
type_synonym u64 = "64 word"
type_synonym bytes = "u8 list"
type_synonym weight = u64
type_synonym para_id = u32
type_synonym relay_block_number = u32

named_theorems weight_bounds
named_theorems weight_mono

section \<open>Words\<close>

definition sat_sub :: "'a::len word \<Rightarrow> 'a word \<Rightarrow> 'a word" where
  "sat_sub a b = (if b \<le> a then a - b else 0)"

definition sat_add :: "'a::len word \<Rightarrow> 'a word \<Rightarrow> 'a word" where
  "sat_add a b = (if uint a + uint b < 2 ^ LENGTH('a) then a + b else - 1)"

lemma sat_add_unat: "sat_add a b = (if unat a + unat b < 2 ^ LENGTH('a) then a + b else - 1)"
  for a b :: "'a::len word"
proof -
  have "uint a + uint b < 2 ^ LENGTH('a) \<longleftrightarrow> int (unat a + unat b) < int (2 ^ LENGTH('a))"
    by simp
  also have "\<dots> \<longleftrightarrow> unat a + unat b < 2 ^ LENGTH('a)" by (rule of_nat_less_iff)
  finally show ?thesis by (simp add: sat_add_def)
qed

lemma unat_sat_sub: "unat (sat_sub a b) = unat a - unat b"
  by (simp add: sat_sub_def unat_sub word_le_nat_alt)

lemma sat_sub_le [weight_bounds]: "sat_sub a b \<le> a"
  by (simp add: word_le_nat_alt unat_sat_sub)

lemma sat_sub_self [simp]: "sat_sub a a = 0"
  by (simp add: sat_sub_def)

lemma sat_sub_0 [simp]: "sat_sub a 0 = a"
  by (simp add: sat_sub_def)

lemma unat_plus_within:
  fixes used w lim :: "'a::len word"
  assumes "used \<le> lim" "w \<le> sat_sub lim used"
  shows "unat (used + w) = unat used + unat w"
proof -
  have "unat used + unat w \<le> unat lim"
    using assms by (simp add: word_le_nat_alt unat_sat_sub)
  also have "unat lim < 2 ^ LENGTH('a)" by simp
  finally show ?thesis by (rule unat_add_lem [THEN iffD1])
qed

lemma plus_within [weight_bounds]:
  fixes used w lim :: "'a::len word"
  assumes "used \<le> lim" "w \<le> sat_sub lim used"
  shows "used + w \<le> lim" and "used \<le> used + w"
  using assms unat_plus_within [OF assms] by (simp_all add: word_le_nat_alt unat_sat_sub)

lemma unat_sat_add:
  fixes a b :: "'a::len word"
  shows "unat (sat_add a b) = min (unat a + unat b) (2 ^ LENGTH('a) - 1)"
proof (cases "unat a + unat b < 2 ^ LENGTH('a)")
  case True
  then have "unat a + unat b \<le> 2 ^ LENGTH('a) - 1" by linarith
  with True show ?thesis
    by (simp only: sat_add_unat unat_add_lem [THEN iffD1] min_def if_True)
next
  case False
  then show ?thesis
    by (auto simp: sat_add_unat min_def unsigned_minus_1_eq_mask mask_eq_exp_minus_1)
qed

lemma sat_add_within [weight_bounds]:
  fixes used w lim :: "'a::len word"
  assumes "used \<le> lim" "w \<le> sat_sub lim used"
  shows "sat_add used w \<le> lim" and "used \<le> sat_add used w"
proof -
  have le: "unat used + unat w \<le> unat lim"
    using assms by (simp add: word_le_nat_alt unat_sat_sub)
  show "sat_add used w \<le> lim"
    using le by (simp add: word_le_nat_alt unat_sat_add min_def)
  have "unat used + unat w < 2 ^ LENGTH('a)"
    using le unsigned_less [of lim] by (simp add: less_le_trans le_less_trans)
  then have "unat (sat_add used w) = unat used + unat w"
    by (simp only: sat_add_unat if_True unat_add_lem [THEN iffD1])
  then show "used \<le> sat_add used w"
    by (simp add: word_le_nat_alt)
qed

lemma unat_ucast_u64: "unat (ucast c :: u64) = unat c" for c :: u32
  by (simp add: unsigned_ucast_eq take_bit_nat_eq_self order_less_le_trans [OF unsigned_less])

definition sat_mul :: "'a::len word \<Rightarrow> 'a word \<Rightarrow> 'a word" where
  "sat_mul a b = (if uint a * uint b < 2 ^ LENGTH('a) then a * b else - 1)"

lemma unat_sat_mul: "unat (sat_mul a b) = min (unat a * unat b) (2 ^ LENGTH('a) - 1)"
  for a b :: "'a::len word"
proof -
  have eq: "uint a * uint b < 2 ^ LENGTH('a) \<longleftrightarrow> unat a * unat b < 2 ^ LENGTH('a)"
  proof -
    have "uint a * uint b < 2 ^ LENGTH('a) \<longleftrightarrow> int (unat a * unat b) < int (2 ^ LENGTH('a))" by simp
    also have "\<dots> \<longleftrightarrow> unat a * unat b < 2 ^ LENGTH('a)" by (rule of_nat_less_iff)
    finally show ?thesis .
  qed
  show ?thesis
  proof (cases "unat a * unat b < 2 ^ LENGTH('a)")
    case True
    then have "unat a * unat b \<le> 2 ^ LENGTH('a) - 1" by linarith
    with True eq show ?thesis by (simp only: sat_mul_def unat_mult_lem [THEN iffD1] min_def if_True)
  next
    case False
    then have "2 ^ LENGTH('a) - 1 \<le> unat a * unat b" by linarith
    then have "min (unat a * unat b) (2 ^ LENGTH('a) - 1) = 2 ^ LENGTH('a) - 1" by (rule min_absorb2)
    with False eq show ?thesis by (simp add: sat_mul_def unsigned_minus_1_eq_mask mask_eq_exp_minus_1)
  qed
qed

lemma sat_mul_1 [simp]: "sat_mul 1 a = a"
  by (simp add: sat_mul_def uint_lt2p)

lemma sat_add_mono [weight_mono]: "a \<le> a' \<Longrightarrow> b \<le> b' \<Longrightarrow> sat_add a b \<le> sat_add a' b'"
  unfolding word_le_nat_alt unat_sat_add by (intro min.mono add_mono order_refl)

lemma sat_mul_mono [weight_mono]: "a \<le> a' \<Longrightarrow> b \<le> b' \<Longrightarrow> sat_mul a b \<le> sat_mul a' b'"
  unfolding word_le_nat_alt unat_sat_mul by (intro min.mono mult_le_mono order_refl)

lemma ucast_mono_u64 [weight_mono]: "c \<le> c' \<Longrightarrow> (ucast c :: u64) \<le> ucast c'" for c c' :: u32
  by (simp add: word_le_nat_alt unat_ucast_u64)

lemma unat_of_nat_below:
  fixes w :: "'a::len word"
  assumes "j < unat w"
  shows "unat (of_nat j :: 'a word) = j"
proof -
  have "j < 2 ^ LENGTH('a)" using assms unsigned_less [of w, where 'a = nat] by linarith
  then show ?thesis by (simp add: unat_of_nat take_bit_nat_eq_self)
qed

lemma unat_of_nat_u32: "k < 2 ^ 32 \<Longrightarrow> unat (of_nat k :: u32) = k"
  by (simp add: unat_of_nat take_bit_nat_eq_self)

lemma word_Suc_le:
  fixes a b :: "'a::len word"
  assumes "a < b"
  shows "unat (a + 1) = Suc (unat a)" and "a + 1 \<le> b"
proof -
  have "unat a < unat b" using assms by (simp add: word_less_nat_alt)
  moreover have "unat b < 2 ^ LENGTH('a)" by (rule unsigned_less)
  ultimately have "unat a + unat (1 :: 'a word) < 2 ^ LENGTH('a)"
    by (metis Suc_eq_plus1 Suc_lessI less_trans unat_1 not_less_eq)
  then show *: "unat (a + 1) = Suc (unat a)"
    using unat_add_lem [of a 1] by simp
  show "a + 1 \<le> b"
    using * \<open>unat a < unat b\<close> by (simp add: word_le_nat_alt)
qed

lemma of_nat_length_0: "length xs < 2 ^ 32 \<Longrightarrow> of_nat (length xs) = (0 :: u32) \<longleftrightarrow> xs = []"
  by (auto simp: of_nat_eq_0_iff word_of_nat_eq_0_iff dest!: nat_dvd_not_less [rotated])

text \<open>Integers as bytes, the most significant first.\<close>

definition to_be_bytes :: "nat \<Rightarrow> 'a::len word \<Rightarrow> bytes" where
  "to_be_bytes n w = map (\<lambda>i. ucast (drop_bit (8 * i) w)) (rev [0..<n])"

definition from_be_bytes :: "bytes \<Rightarrow> 'a::len word" where
  "from_be_bytes bs = foldl (\<lambda>w b. push_bit 8 w + ucast b) 0 bs"

lemma length_to_be_bytes [simp]: "length (to_be_bytes n w) = n"
  by (simp add: to_be_bytes_def)

lemma to_be_bytes_Suc: "to_be_bytes (Suc n) w = to_be_bytes n (drop_bit 8 w) @ [ucast w]"
  by (simp add: to_be_bytes_def upt_rec [of 0 "Suc n"] map_Suc_upt [symmetric] rev_map add.commute del: upt_Suc)

lemma from_be_bytes_snoc: "from_be_bytes (bs @ [b]) = push_bit 8 (from_be_bytes bs) + ucast b"
  by (simp add: from_be_bytes_def)

lemma from_to_be_bytes:
  "unat (w :: 'a::len word) < 2 ^ (8 * n) \<Longrightarrow> from_be_bytes (to_be_bytes n w) = w"
proof (induction n arbitrary: w)
  case 0
  then show ?case by (simp add: from_be_bytes_def to_be_bytes_def unsigned_eq_0_iff)
next
  case (Suc n)
  have "unat (drop_bit 8 w) < 2 ^ (8 * n)"
    using Suc.prems unsigned_drop_bit_eq [of 8 w, where 'a = nat]
    by (simp add: take_bit_nat_def drop_bit_eq_div unat_div less_mult_imp_div_less power_add mult.commute)
  moreover have "(ucast (ucast w :: u8) :: 'a word) = take_bit 8 w"
    by (rule bit_eqI) (auto simp: bit_simps)
  ultimately show ?case
    using Suc.IH by (simp add: to_be_bytes_Suc from_be_bytes_snoc bits_ident)
qed

section \<open>Results\<close>

type_synonym ('e, 'a) result = "'e + 'a"

definition ensure :: "bool \<Rightarrow> 'e \<Rightarrow> ('e, unit) result" where
  "ensure b e = (if b then Inr () else Inl e)"

definition rbind :: "('e, 'a) result \<Rightarrow> ('a \<Rightarrow> ('e, 'b) result) \<Rightarrow> ('e, 'b) result" where
  "rbind r f = (case r of Inl e \<Rightarrow> Inl e | Inr a \<Rightarrow> f a)"

definition ok_or :: "'a option \<Rightarrow> 'e \<Rightarrow> ('e, 'a) result" where
  "ok_or x e = (case x of None \<Rightarrow> Inl e | Some a \<Rightarrow> Inr a)"

definition map_err :: "('e \<Rightarrow> 'f) \<Rightarrow> ('e, 'a) result \<Rightarrow> ('f, 'a) result" where
  "map_err f r = map_sum f (\<lambda>x. x) r"

lemma rbind_simps [simp]:
  "rbind (Inl e) f = Inl e"
  "rbind (Inr a) f = f a"
  by (simp_all add: rbind_def)

lemma rbind_eq_Inr: "rbind r f = Inr b \<longleftrightarrow> (\<exists>a. r = Inr a \<and> f a = Inr b)"
  by (cases r) auto

lemma rbind_eq_Inl: "rbind r f = Inl e \<longleftrightarrow> r = Inl e \<or> (\<exists>a. r = Inr a \<and> f a = Inl e)"
  by (cases r) auto

lemma rbind_cong: "r = r' \<Longrightarrow> (\<And>a. r' = Inr a \<Longrightarrow> f a = g a) \<Longrightarrow> rbind r f = rbind r' g"
  by (cases r') auto

lemma ensure_eq_Inr [simp]: "ensure b e = Inr u \<longleftrightarrow> b"
  by (simp add: ensure_def)

lemma ensure_eq_Inl [simp]: "ensure b e = Inl e' \<longleftrightarrow> \<not> b \<and> e' = e"
  by (auto simp: ensure_def)

lemma ensure_True [simp]: "ensure True e = Inr ()"
  by (simp add: ensure_def)

lemma ensure_False [simp]: "ensure False e = Inl e"
  by (simp add: ensure_def)

lemma ok_or_simps [simp]:
  "ok_or None e = Inl e"
  "ok_or (Some a) e = Inr a"
  by (simp_all add: ok_or_def)

lemma ok_or_eq_Inr [simp]: "ok_or x e = Inr a \<longleftrightarrow> x = Some a"
  by (cases x) auto

lemma ok_or_eq_Inl [simp]: "ok_or x e = Inl e' \<longleftrightarrow> x = None \<and> e' = e"
  by (cases x) auto

lemma map_err_simps [simp]: "map_err f (Inl e) = Inl (f e)" "map_err f (Inr a) = Inr a"
  by (simp_all add: map_err_def)

lemma map_err_eq_Inr [simp]: "map_err f r = Inr a \<longleftrightarrow> r = Inr a"
  by (cases r) auto

lemmas result_simps = rbind_eq_Inr rbind_eq_Inl ensure_eq_Inr ensure_eq_Inl ok_or_eq_Inr ok_or_eq_Inl

section \<open>Panics\<close>

text \<open>\<^verbatim>\<open>assert!\<close> and \<^verbatim>\<open>expect\<close>: \<open>None\<close> is a panic.\<close>

definition assert_that :: "bool \<Rightarrow> unit option" where
  "assert_that b = (if b then Some () else None)"

definition expect :: "('e, 'a) result \<Rightarrow> 'a option" where
  "expect r = (case r of Inl _ \<Rightarrow> None | Inr a \<Rightarrow> Some a)"

lemma assert_that_eq_Some [simp]: "assert_that b = Some u \<longleftrightarrow> b"
  by (simp add: assert_that_def)

lemma assert_that_simps [simp]: "assert_that True = Some ()" "assert_that False = None"
  by (simp_all add: assert_that_def)

lemma expect_eq_Some [simp]: "expect r = Some a \<longleftrightarrow> r = Inr a"
  by (cases r) (auto simp: expect_def)

lemma expect_simps [simp]: "expect (Inr a) = Some a" "expect (Inl e) = None"
  by (simp_all add: expect_def)

lemmas panic_simps = Option.bind_eq_Some_conv assert_that_eq_Some expect_eq_Some

section \<open>Lists related pointwise\<close>

lemma list_all2_set1: "list_all2 P xs ys \<Longrightarrow> x \<in> set xs \<Longrightarrow> \<exists>y \<in> set ys. P x y"
  by (induction rule: list_all2_induct) auto

lemma list_all2_set2: "list_all2 P xs ys \<Longrightarrow> y \<in> set ys \<Longrightarrow> \<exists>x \<in> set xs. P x y"
  by (induction rule: list_all2_induct) auto

lemma list_all2_map_eq:
  "list_all2 P xs ys \<Longrightarrow> (\<And>x y. P x y \<Longrightarrow> g y = f x) \<Longrightarrow> map g ys = map f xs"
  by (induction rule: list_all2_induct) auto

end
