(* ===== verification/Rust_Std.thy ===== *)
theory Rust_Std
  imports Prelude "HOL-Library.Multiset"
begin

text \<open>
  The slice and vector operations of the Rust standard library the pallets use:
  \<^verbatim>\<open>binary_search_by_key\<close> (as written in the library, so that its result on a slice that is not
  sorted is the code's), \<^verbatim>\<open>Iterator::position\<close>, \<^verbatim>\<open>Vec::remove\<close>, \<^verbatim>\<open>iter_mut().find\<close>
  followed by an update, \<^verbatim>\<open>rotate_left\<close>, which panics when the split point is out of range,
  and \<^verbatim>\<open>swap\<close>.
\<close>

section \<open>Searching\<close>

function bsearch_loop :: "('a \<Rightarrow> 'k::linorder) \<Rightarrow> 'a list \<Rightarrow> 'k \<Rightarrow> nat \<Rightarrow> nat \<Rightarrow> (nat, nat) result" where
  "bsearch_loop key xs t left right =
     (if left < right then
        let mid = left + (right - left) div 2; k = key (xs ! mid) in
        if k < t then bsearch_loop key xs t (mid + 1) right
        else if t < k then bsearch_loop key xs t left mid
        else Inr mid
      else Inl left)"
  by pat_completeness auto
termination
  by (relation "measure (\<lambda>(key, xs, t, left, right). right - left)") auto

declare bsearch_loop.simps [simp del]

definition binary_search_by_key :: "('a \<Rightarrow> 'k::linorder) \<Rightarrow> 'a list \<Rightarrow> 'k \<Rightarrow> (nat, nat) result" where
  "binary_search_by_key key xs t = bsearch_loop key xs t 0 (length xs)"

lemma bsearch_loop_Ok:
  "bsearch_loop key xs t l r = Inr i \<Longrightarrow> r \<le> length xs \<Longrightarrow> i < length xs \<and> key (xs ! i) = t"
proof (induction key xs t l r rule: bsearch_loop.induct)
  case (1 key xs t l r)
  define m where "m = l + (r - l) div 2"
  show ?case
  proof (cases "l < r")
    case True
    then have m: "m < r" unfolding m_def by linarith
    show ?thesis
      using 1 True m
      by (subst (asm) (3) bsearch_loop.simps)
        (auto simp: Let_def m_def [symmetric] split: if_splits)
  next
    case False
    with 1 show ?thesis by (subst (asm) (3) bsearch_loop.simps) simp
  qed
qed

lemma bsearch_loop_Inl:
  assumes "sorted (map key xs)" "r \<le> length xs" "l \<le> r" "bsearch_loop key xs t l r = Inl j"
    and "\<And>i. i < l \<Longrightarrow> key (xs ! i) < t" "\<And>i. r \<le> i \<Longrightarrow> i < length xs \<Longrightarrow> t < key (xs ! i)"
  shows "j \<le> length xs \<and> (\<forall>i < j. key (xs ! i) < t) \<and> (\<forall>i. j \<le> i \<longrightarrow> i < length xs \<longrightarrow> t < key (xs ! i))"
  using assms
proof (induction key xs t l r rule: bsearch_loop.induct)
  case (1 key xs t l r)
  define m where "m = l + (r - l) div 2"
  have mono: "key (xs ! a) \<le> key (xs ! b)" if "a \<le> b" "b < length xs" for a b
    using sorted_nth_mono [OF \<open>sorted (map key xs)\<close>, of a b] that by simp
  have loop: "bsearch_loop key xs t l r = (if l < r then if key (xs ! m) < t then bsearch_loop key xs t (m + 1) r
      else if t < key (xs ! m) then bsearch_loop key xs t l m else Inr m else Inl l)"
    by (subst bsearch_loop.simps) (simp add: Let_def m_def)
  consider "\<not> l < r" | "l < r" "key (xs ! m) < t" | "l < r" "t < key (xs ! m)"
    using loop "1.prems"(4) by (metis linorder_neqE sum.distinct(1))
  then show ?case
  proof cases
    case 1
    then have "j = l" "l = r" using loop "1.prems"(3,4) by simp_all
    then show ?thesis using "1.prems" by auto
  next
    case 2
    then have "m < r" unfolding m_def by linarith
    have low: "key (xs ! i) < t" if "i < m + 1" for i
      using mono [of i m] that \<open>m < r\<close> "1.prems"(2) 2 by force
    show ?thesis
      using "1.IH"(1) [OF 2(1) m_def refl 2(2) "1.prems"(1,2) _ _ low "1.prems"(6)] loop 2 \<open>m < r\<close> "1.prems"(4) by simp
  next
    case 3
    then have m: "m < r" "l \<le> m" unfolding m_def by linarith+
    have high: "t < key (xs ! i)" if "m \<le> i" "i < length xs" for i
      using mono [OF that] 3(2) by simp
    have ge: "\<not> key (xs ! m) < t" using 3(2) by simp
    show ?thesis
      using "1.IH"(2) [OF 3(1) m_def refl ge 3(2) "1.prems"(1) _ m(2) _ "1.prems"(5) high] loop ge 3 m "1.prems"(2,4)
      by simp
  qed
qed

lemma binary_search_Ok:
  assumes "binary_search_by_key key xs t = Inr i"
  shows "i < length xs" and "key (xs ! i) = t"
  using bsearch_loop_Ok [of key xs t 0 "length xs" i] assms
  by (auto simp: binary_search_by_key_def)

lemma binary_search_insert:
  assumes "sorted (map key xs)" "binary_search_by_key key xs t = Inl j"
  shows "j \<le> length xs" and "x \<in> set (take j xs) \<Longrightarrow> key x < t" and "x \<in> set (drop j xs) \<Longrightarrow> t < key x"
  using bsearch_loop_Inl [OF assms(1) order_refl le0] assms(2)
  by (auto simp: binary_search_by_key_def in_set_conv_nth)

lemma binary_search_Err:
  assumes "sorted (map key xs)" "binary_search_by_key key xs t = Inl j"
  shows "t \<notin> key ` set xs"
proof
  assume "t \<in> key ` set xs"
  then obtain x where "x \<in> set (take j xs) \<union> set (drop j xs)" "key x = t"
    by (metis append_take_drop_id imageE set_append)
  then show False using binary_search_insert(2,3) [OF assms] by fastforce
qed

lemma binary_search_sorted:
  assumes "sorted (map key xs)"
  shows "(\<exists>i. binary_search_by_key key xs t = Inr i) \<longleftrightarrow> t \<in> key ` set xs"
proof (cases "binary_search_by_key key xs t")
  case (Inl j)
  with binary_search_Err [OF assms Inl] show ?thesis by simp
next
  case (Inr i)
  from binary_search_Ok [OF Inr] have "t \<in> key ` set xs" by force
  with Inr show ?thesis by simp
qed

lemma binary_search_unique:
  assumes "sorted (map key xs)" "distinct (map key xs)" "i < length xs"
  shows "binary_search_by_key key xs (key (xs ! i)) = Inr i"
proof -
  have "key (xs ! i) \<in> key ` set xs" using assms(3) by simp
  then obtain j where j: "binary_search_by_key key xs (key (xs ! i)) = Inr j"
    using binary_search_sorted [OF assms(1)] by blast
  from binary_search_Ok [OF j] have "j = i"
    using assms(2,3) by (auto simp: distinct_conv_nth)
  with j show ?thesis by simp
qed

lemma binary_search_map_of:
  assumes "sorted (map fst xs)" "distinct (map fst xs)"
  shows "(case binary_search_by_key fst xs t of Inl _ \<Rightarrow> None | Inr i \<Rightarrow> Some (snd (xs ! i))) = map_of xs t"
proof (cases "binary_search_by_key fst xs t")
  case (Inl j)
  from binary_search_Err [OF assms(1) Inl] have "map_of xs t = None"
    by (simp add: map_of_eq_None_iff)
  with Inl show ?thesis by simp
next
  case (Inr i)
  note i = binary_search_Ok [OF Inr]
  then have "(t, snd (xs ! i)) \<in> set xs" by (metis nth_mem prod.collapse)
  then have "map_of xs t = Some (snd (xs ! i))" using assms(2) by simp
  with Inr show ?thesis by simp
qed

fun position :: "('a \<Rightarrow> bool) \<Rightarrow> 'a list \<Rightarrow> nat option" where
  "position P [] = None"
| "position P (x # xs) = (if P x then Some 0 else map_option Suc (position P xs))"

lemma position_None [simp]: "position P xs = None \<longleftrightarrow> (\<forall>x \<in> set xs. \<not> P x)"
  by (induction xs) auto

lemma position_Some:
  "position P xs = Some i \<Longrightarrow> i < length xs \<and> P (xs ! i) \<and> (\<forall>j < i. \<not> P (xs ! j))"
proof (induction xs arbitrary: i)
  case (Cons x xs)
  then show ?case
    by (auto split: if_splits simp: nth_Cons' less_Suc_eq_0_disj)
qed simp

lemma position_split:
  "P x \<Longrightarrow> \<forall>y \<in> set xs. \<not> P y \<Longrightarrow> position P (xs @ x # ys) = Some (length xs)"
  by (induction xs) auto

section \<open>Updating vectors in place\<close>

definition remove_at :: "nat \<Rightarrow> 'a list \<Rightarrow> 'a list" where
  "remove_at i xs = take i xs @ drop (Suc i) xs"

lemma remove_at_split [simp]: "remove_at (length xs) (xs @ x # ys) = xs @ ys"
  by (simp add: remove_at_def)

lemma length_remove_at: "i < length xs \<Longrightarrow> length (remove_at i xs) = length xs - 1"
  by (simp add: remove_at_def)

lemma set_remove_at: "set (remove_at i xs) \<subseteq> set xs"
  by (auto simp: remove_at_def dest: in_set_takeD in_set_dropD)

lemma map_remove_at: "map f (remove_at i xs) = remove_at i (map f xs)"
  by (simp add: remove_at_def take_map drop_map)

lemma distinct_remove_at: "distinct xs \<Longrightarrow> distinct (remove_at i xs)"
  using set_take_disj_set_drop_if_distinct [of xs i "Suc i"]
  by (simp add: remove_at_def)

fun modify_first :: "('a \<Rightarrow> bool) \<Rightarrow> ('a \<Rightarrow> 'a) \<Rightarrow> 'a list \<Rightarrow> 'a list" where
  "modify_first P f [] = []"
| "modify_first P f (x # xs) = (if P x then f x # xs else x # modify_first P f xs)"

lemma length_modify_first [simp]: "length (modify_first P f xs) = length xs"
  by (induction xs) auto

lemma map_modify_first:
  "(\<And>x. P x \<Longrightarrow> g (f x) = g x) \<Longrightarrow> map g (modify_first P f xs) = map g xs"
  by (induction xs) auto

lemma modify_first_id: "\<forall>x \<in> set xs. \<not> P x \<Longrightarrow> modify_first P f xs = xs"
  by (induction xs) auto

lemma find_append: "find P (xs @ ys) = (case find P xs of None \<Rightarrow> find P ys | Some x \<Rightarrow> Some x)"
  by (induction xs) auto

lemma find_SomeD: "find P xs = Some x \<Longrightarrow> x \<in> set xs \<and> P x"
  by (induction xs) (auto split: if_splits)

lemma modify_first_split:
  "P x \<Longrightarrow> \<forall>y \<in> set xs. \<not> P y \<Longrightarrow> modify_first P f (xs @ x # ys) = xs @ f x # ys"
  by (induction xs) auto

lemma set_modify_first: "set (modify_first P f xs) \<subseteq> set xs \<union> f ` {x \<in> set xs. P x}"
  by (induction xs) auto

definition rotate_left :: "nat \<Rightarrow> 'a list \<Rightarrow> 'a list option" where
  "rotate_left mid xs = (if mid \<le> length xs then Some (drop mid xs @ take mid xs) else None)"

lemma rotate_left_mset:
  assumes "rotate_left n xs = Some ys"
  shows "mset ys = mset xs"
proof -
  have "mset (drop n xs @ take n xs) = mset (take n xs @ drop n xs)"
    by (simp only: mset_append add.commute)
  then have "mset (drop n xs @ take n xs) = mset xs" by (simp only: append_take_drop_id)
  with assms show ?thesis by (auto simp only: rotate_left_def option.inject option.distinct split: if_splits)
qed

lemma rotate_left_set: "rotate_left n xs = Some ys \<Longrightarrow> set ys = set xs"
  by (rule mset_eq_setD) (rule rotate_left_mset)

definition swap :: "nat \<Rightarrow> nat \<Rightarrow> 'a list \<Rightarrow> 'a list" where
  "swap i j xs = xs[i := xs ! j, j := xs ! i]"

lemma length_swap [simp]: "length (swap i j xs) = length xs"
  by (simp add: swap_def)

lemma mset_swap_at: "i < length xs \<Longrightarrow> j < length xs \<Longrightarrow> mset (swap i j xs) = mset xs"
  unfolding swap_def by (rule Multiset.mset_swap)

section \<open>Ordered maps\<close>

text \<open>A \<^verbatim>\<open>BTreeMap\<close> as the list of its entries in ascending order of their keys:
  \<^verbatim>\<open>entry(k).or_insert(d)\<close> followed by an update of the value.\<close>

fun btree_upsert :: "'k::linorder \<Rightarrow> 'v \<Rightarrow> ('v \<Rightarrow> 'v) \<Rightarrow> ('k \<times> 'v) list \<Rightarrow> ('k \<times> 'v) list" where
  "btree_upsert k d f [] = [(k, f d)]"
| "btree_upsert k d f ((k', v) # m) =
     (if k = k' then (k', f v) # m
      else if k < k' then (k, f d) # (k', v) # m
      else (k', v) # btree_upsert k d f m)"

lemma set_keys_btree_upsert [simp]: "fst ` set (btree_upsert k d f m) = insert k (fst ` set m)"
  by (induction k d f m rule: btree_upsert.induct) auto

lemma btree_upsert_ordered [simp]:
  "sorted_wrt (<) (map fst m) \<Longrightarrow> sorted_wrt (<) (map fst (btree_upsert k d f m))"
proof (induction k d f m rule: btree_upsert.induct)
  case (2 k d f k' v m)
  have keys: "a \<in> fst ` set (btree_upsert k d f m) \<longleftrightarrow> a = k \<or> a \<in> fst ` set m" for a by simp
  show ?case using 2 keys by (auto simp: image_iff dest: less_trans)
qed simp

lemma map_of_btree_upsert:
  "sorted_wrt (<) (map fst m) \<Longrightarrow>
     map_of (btree_upsert k d f m) a = (if a = k then Some (f (case map_of m k of None \<Rightarrow> d | Some v \<Rightarrow> v)) else map_of m a)"
proof (induction k d f m rule: btree_upsert.induct)
  case (2 k d f k' v m)
  have "map_of m k = None" if "k < k'"
    using "2.prems" that by (auto simp: map_of_eq_None_iff dest: less_trans)
  then show ?case using 2 by auto
qed simp

lemma ordered_keys_sorted: "sorted_wrt (<) (xs :: 'a::linorder list) \<Longrightarrow> sorted xs \<and> distinct xs"
  by (simp add: strict_sorted_iff)

end
