(* ===== verification/Xcm_Interface.thy ===== *)
theory Xcm_Interface
  imports Rust_Std
begin

text \<open>
  The vocabulary the pallets share with the libraries they are compiled against: the XCM
  executor's outcomes and errors (\<^verbatim>\<open>xcm::latest\<close>), the origins and dispatch errors of
  \<^verbatim>\<open>frame_system\<close>, the XCMP message formats and channel states of
  \<^verbatim>\<open>cumulus_primitives_core\<close>.  Only the constructors the sources match on are
  distinguished; the remaining XCM errors are numbered.  The executor, the codecs and the hash
  functions themselves are not defined here: they are fields of the configuration records of
  the pallets.
\<close>

datatype xcm_error =
    WeightLimitReached u64
  | UnhandledXcmVersion
  | OtherXcmError nat

abbreviation XcmOverflow :: xcm_error where
  "XcmOverflow \<equiv> OtherXcmError 0"

abbreviation AssetNotFound :: xcm_error where
  "AssetNotFound \<equiv> OtherXcmError 8"

abbreviation NotWithdrawable :: xcm_error where
  "NotWithdrawable \<equiv> OtherXcmError 10"

abbreviation TooExpensive :: xcm_error where
  "TooExpensive \<equiv> OtherXcmError 20"

datatype outcome =
    Complete u64
  | Incomplete u64 xcm_error
  | OutcomeError xcm_error

datatype 'acc origin = Root | Signed 'acc | NoneOrigin

datatype 'e dispatch_error = BadOrigin | Module 'e

definition ensure_root :: "'acc origin \<Rightarrow> ('e dispatch_error, unit) result" where
  "ensure_root o' = (case o' of Root \<Rightarrow> Inr () | _ \<Rightarrow> Inl BadOrigin)"

definition ensure_none :: "'acc origin \<Rightarrow> ('e dispatch_error, unit) result" where
  "ensure_none o' = (case o' of NoneOrigin \<Rightarrow> Inr () | _ \<Rightarrow> Inl BadOrigin)"

definition ensure_signed :: "'acc origin \<Rightarrow> ('e dispatch_error, 'acc) result" where
  "ensure_signed o' = (case o' of Signed a \<Rightarrow> Inr a | _ \<Rightarrow> Inl BadOrigin)"

lemma ensure_root_eq [simp]:
  "ensure_root o' = Inr u \<longleftrightarrow> o' = Root"
  "ensure_root Root = Inr ()"
  by (cases o') (auto simp: ensure_root_def)

lemma ensure_none_eq [simp]:
  "ensure_none o' = Inr u \<longleftrightarrow> o' = NoneOrigin"
  "ensure_none NoneOrigin = Inr ()"
  by (cases o') (auto simp: ensure_none_def)

lemma ensure_signed_eq [simp]:
  "ensure_signed o' = Inr a \<longleftrightarrow> o' = Signed a"
  "ensure_signed (Signed a) = Inr a"
  by (cases o') (auto simp: ensure_signed_def)

text \<open>Locations, as far as the senders look into them: the number of parents and the interior.\<close>

datatype junction = Parachain u32 | OtherJunction nat

datatype multi_location = MultiLocation u8 "junction list"

datatype ('l, 'm) send_error =
    CannotReachDestination 'l 'm
  | Transport string
  | DestinationUnsupported

section \<open>Errors of message sending and the state of a channel\<close>

datatype message_send_error = QueueFull | NoChannel | TooBig | OtherSendError

fun message_send_error_str :: "message_send_error \<Rightarrow> string" where
  "message_send_error_str QueueFull = ''QueueFull''"
| "message_send_error_str NoChannel = ''NoChannel''"
| "message_send_error_str TooBig = ''TooBig''"
| "message_send_error_str OtherSendError = ''Other''"

datatype channel_status = Closed | Full | Ready nat nat

section \<open>Interfaces\<close>

text \<open>
  A handler of inbound messages is given a weight limit and promises not to exceed it when it
  returns, for every configuration \<open>ok\<close> accepts.  A client that hands the limit over in
  two instalments still stays within it.
\<close>

locale weight_limited =
  fixes ok :: "'cfg \<Rightarrow> bool"
    and handle :: "'cfg \<Rightarrow> 'msgs \<Rightarrow> weight \<Rightarrow> 's \<Rightarrow> (weight \<times> 's) option"
  assumes within_limit: "ok cfg \<Longrightarrow> handle cfg ms limit s = Some (used, s') \<Longrightarrow> used \<le> limit"
begin

lemma two_rounds_within_limit:
  assumes "ok cfg"
    and first: "handle cfg ms limit s = Some (used, s')"
    and second: "handle cfg ms' (sat_sub limit used) s' = Some (used', s'')"
  shows "used + used' \<le> limit" and "unat (used + used') = unat used + unat used'"
  using within_limit [OF assms(1,2)] within_limit [OF assms(1,3)] by (blast intro: weight_bounds unat_plus_within)+

end

text \<open>A handler that moreover returns, on the states \<open>live\<close> describes.\<close>

locale weight_limited_total = weight_limited ok handle
  for ok :: "'cfg \<Rightarrow> bool" and handle :: "'cfg \<Rightarrow> 'msgs \<Rightarrow> weight \<Rightarrow> 's \<Rightarrow> (weight \<times> 's) option" +
  fixes live :: "'cfg \<Rightarrow> 's \<Rightarrow> bool"
  assumes returns: "ok cfg \<Longrightarrow> live cfg s \<Longrightarrow> handle cfg ms limit s \<noteq> None"
begin

lemma returns_within_limit:
  assumes "ok cfg" "live cfg s"
  shows "\<exists>used s'. handle cfg ms limit s = Some (used, s') \<and> used \<le> limit"
  using returns [OF assms, of ms limit] within_limit [OF assms(1), of ms limit s] by auto

end

text \<open>
  A codec is a pair of an encoder and a decoder that returns the rest of its input; decoding
  undoes encoding, and a decoder consumes at least one byte.
\<close>

locale scale_codec =
  fixes enc :: "'a \<Rightarrow> bytes"
    and dec :: "bytes \<Rightarrow> ('a \<times> bytes) option"
  assumes dec_enc: "dec (enc a @ rest) = Some (a, rest)"
    and dec_consumes: "dec bs = Some (a, rest) \<Longrightarrow> length rest < length bs"
begin

lemma enc_nonempty: "enc a \<noteq> []"
proof
  assume "enc a = []"
  then have "dec [] = Some (a, [])" using dec_enc [of a "[]"] by simp
  from dec_consumes [OF this] show False by simp
qed

lemma enc_prefix_free:
  assumes "enc a @ xs = enc b @ ys"
  shows "a = b \<and> xs = ys"
proof -
  have "dec (enc a @ xs) = dec (enc b @ ys)" by (simp only: assms)
  then show ?thesis by (simp only: dec_enc option.inject prod.inject)
qed

lemma enc_inject: "enc a = enc b \<longleftrightarrow> a = b"
  using enc_prefix_free [of a "[]" b "[]"] by auto

end

text \<open>
  A source of outbound messages, \<^verbatim>\<open>XcmpMessageSource\<close>: it gives at most as many messages as
  asked for and, as the relay chain requires of a candidate, in strictly ascending order of
  recipient.  It may panic.
\<close>

locale message_source =
  fixes inv :: "'s \<Rightarrow> bool"
    and take_messages :: "'cfg \<Rightarrow> nat \<Rightarrow> 's \<Rightarrow> ((para_id \<times> bytes) list \<times> 's) option"
  assumes take_inv: "inv s \<Longrightarrow> take_messages cfg n s = Some (ms, s') \<Longrightarrow> inv s'"
    and take_bounded: "inv s \<Longrightarrow> take_messages cfg n s = Some (ms, s') \<Longrightarrow> length ms \<le> n"
    and take_ascending: "inv s \<Longrightarrow> take_messages cfg n s = Some (ms, s') \<Longrightarrow> sorted_wrt (<) (map fst ms)"
begin

lemma one_per_recipient:
  assumes "inv s" "take_messages cfg n s = Some (ms, s')"
  shows "distinct (map fst ms)"
  using take_ascending [OF assms] by (simp add: strict_sorted_iff)

lemma recipients_bounded:
  assumes "inv s" "take_messages cfg n s = Some (ms, s')"
  shows "card (fst ` set ms) \<le> n"
  using one_per_recipient [OF assms] take_bounded [OF assms] distinct_card [of "map fst ms"] by simp

end

end
