(* ===== verification/Example_Executor.thy ===== *)
theory Example_Executor
  imports Xcm_Interface
begin

text \<open>
  A small XCM executor and codec on which the properties of the queues are instantiated: a program
  is the weight it needs, encoded in one byte.  They satisfy what the queues rely on, so that no
  property about an arbitrary executor is empty.
\<close>

definition toy_exec :: "u64 \<Rightarrow> u64 \<Rightarrow> 's \<Rightarrow> outcome \<times> 's" where
  "toy_exec x limit s =
     ((if x \<le> limit then Complete x else OutcomeError (WeightLimitReached x)), s)"

fun toy_weight_used :: "outcome \<Rightarrow> u64" where
  "toy_weight_used (Complete w) = w"
| "toy_weight_used (Incomplete w e) = w"
| "toy_weight_used (OutcomeError e) = 0"

fun toy_decode_all :: "bytes \<Rightarrow> u64 option" where
  "toy_decode_all [b] = Some (ucast b)"
| "toy_decode_all bs = None"

fun toy_decode :: "bytes \<Rightarrow> (u64 \<times> bytes) option" where
  "toy_decode [] = None"
| "toy_decode (b # bs) = Some (ucast b, bs)"

lemma toy_exec_bounded: "toy_weight_used (fst (toy_exec x limit s)) \<le> limit"
  by (simp add: toy_exec_def)

end
