(* ===== verification/Dmp_Queue.thy ===== *)
theory Dmp_Queue
  imports Example_Executor "HOL-Library.Sublist"
begin

text \<open>
  The downward message queue, \<^verbatim>\<open>src/pallets/dmp-queue/src/lib.rs\<close>: its storage as
  the record \<open>dmp_state\<close>, its hooks, its dispatchable and the message handler it
  provides to the parachain system.  The XCM executor is a field of \<open>dmp_config\<close>; it
  takes and returns the whole state, so it may re-enter the pallet.
  The paged queue is related to a flat queue of messages: \<open>dmp_queue\<close> is the
  abstraction, \<open>spec_service\<close> and \<open>spec_handle\<close> the specification.
\<close>

section \<open>Storage and configuration\<close>

record config_data =
  max_individual :: weight

definition WEIGHT_PER_MILLIS :: weight where
  "WEIGHT_PER_MILLIS = 1000000000"

definition config_data_default :: config_data where
  "config_data_default = \<lparr>max_individual = 10 * WEIGHT_PER_MILLIS\<rparr>"

type_synonym message_id = bytes
type_synonym overweight_index = u64
type_synonym page_counter = u32
type_synonym dmp_message = "relay_block_number \<times> bytes"

record page_index_data =
  begin_used :: page_counter
  end_used :: page_counter
  overweight_count :: overweight_index

definition page_index_default :: page_index_data where
  "page_index_default = \<lparr>begin_used = 0, end_used = 0, overweight_count = 0\<rparr>"

datatype dmp_error = DmpUnknown | OverLimit

datatype dmp_event =
    DmpInvalidFormat message_id
  | DmpUnsupportedVersion message_id
  | DmpExecutedDownward message_id outcome
  | WeightExhausted message_id weight weight
  | DmpOverweightEnqueued message_id overweight_index weight
  | DmpOverweightServiced overweight_index weight

record 'w dmp_state =
  Configuration :: config_data
  PageIndex :: page_index_data
  Pages :: "page_counter \<rightharpoonup> dmp_message list"
  DmpOverweight :: "overweight_index \<rightharpoonup> dmp_message"
  dmp_events :: "dmp_event list"
  dmp_world :: 'w

record ('v, 'x, 'o, 'w) dmp_config =
  dmp_execute_xcm :: "'x \<Rightarrow> u64 \<Rightarrow> 'w dmp_state \<Rightarrow> outcome \<times> 'w dmp_state"
  dmp_weight_used :: "outcome \<Rightarrow> u64"
  dmp_overweight_origin :: "'o \<Rightarrow> bool"
  dmp_blake2_256 :: "bytes \<Rightarrow> message_id"
  dmp_decode_all :: "bytes \<Rightarrow> 'v option"
  dmp_try_from :: "'v \<Rightarrow> 'x option"

definition dmp_genesis :: "'w \<Rightarrow> 'w dmp_state" where
  "dmp_genesis w = \<lparr>Configuration = config_data_default, PageIndex = page_index_default,
     Pages = Map.empty, DmpOverweight = Map.empty, dmp_events = [], dmp_world = w\<rparr>"

definition dmp_deposit_event :: "dmp_event \<Rightarrow> 'w dmp_state \<Rightarrow> 'w dmp_state" where
  "dmp_deposit_event e s = s\<lparr>dmp_events := dmp_events s @ [e]\<rparr>"

definition page_at :: "'w dmp_state \<Rightarrow> page_counter \<Rightarrow> dmp_message list" where
  "page_at s i = (case Pages s i of None \<Rightarrow> [] | Some p \<Rightarrow> p)"

section \<open>Servicing messages\<close>

definition try_service_message ::
  "('v, 'x, 'o, 'w) dmp_config \<Rightarrow> weight \<Rightarrow> relay_block_number \<Rightarrow> bytes \<Rightarrow> 'w dmp_state \<Rightarrow>
     (message_id \<times> weight, weight) result \<times> 'w dmp_state" where
  "try_service_message cfg limit sent_at data s =
     (let message_id = dmp_blake2_256 cfg data in
      case map_option (dmp_try_from cfg) (dmp_decode_all cfg data) of
        None \<Rightarrow> (Inr 0, dmp_deposit_event (DmpInvalidFormat message_id) s)
      | Some None \<Rightarrow> (Inr 0, dmp_deposit_event (DmpUnsupportedVersion message_id) s)
      | Some (Some x) \<Rightarrow>
          (case dmp_execute_xcm cfg x limit s of (out, s1) \<Rightarrow>
             (case out of
                OutcomeError (WeightLimitReached required) \<Rightarrow> (Inl (message_id, required), s1)
              | _ \<Rightarrow> (Inr (dmp_weight_used cfg out),
                     dmp_deposit_event (DmpExecutedDownward message_id out) s1))))"

text \<open>The \<^verbatim>\<open>for\<close> loop over one page: the weight used, and the messages from the first
  that needs more weight on, if there is one.\<close>

fun service_page ::
  "('v, 'x, 'o, 'w) dmp_config \<Rightarrow> weight \<Rightarrow> weight \<Rightarrow> dmp_message list \<Rightarrow> 'w dmp_state \<Rightarrow>
     weight \<times> dmp_message list option \<times> 'w dmp_state" where
  "service_page cfg limit used [] s = (used, None, s)"
| "service_page cfg limit used (m # ms) s =
     (case try_service_message cfg (sat_sub limit used) (fst m) (snd m) s of
        (Inr w, s1) \<Rightarrow> service_page cfg limit (used + w) ms s1
      | (Inl _, s1) \<Rightarrow> (used, Some (m # ms), s1))"

function service_pages ::
  "('v, 'x, 'o, 'w) dmp_config \<Rightarrow> weight \<Rightarrow> weight \<Rightarrow> page_index_data \<Rightarrow> 'w dmp_state \<Rightarrow>
     weight \<times> page_index_data \<times> 'w dmp_state" where
  "service_pages cfg limit used pi s =
     (if begin_used pi < end_used pi then
        let page = page_at s (begin_used pi);
            s1 = s\<lparr>Pages := (Pages s)(begin_used pi := None)\<rparr> in
        case service_page cfg limit used page s1 of
          (used', Some rest, s2) \<Rightarrow>
            (used', pi, s2\<lparr>Pages := (Pages s2)(begin_used pi \<mapsto> rest)\<rparr>)
        | (used', None, s2) \<Rightarrow>
            service_pages cfg limit used' (pi\<lparr>begin_used := begin_used pi + 1\<rparr>) s2
      else if begin_used pi = end_used pi then
        (used, pi\<lparr>begin_used := 0, end_used := 0\<rparr>, s)
      else (used, pi, s))"
  by pat_completeness auto
termination
  by (relation "measure (\<lambda>(cfg, limit, used, pi, s). unat (end_used pi) - unat (begin_used pi))")
    (auto simp: word_less_nat_alt word_Suc_le)

declare service_pages.simps [simp del]

definition do_service_queue ::
  "('v, 'x, 'o, 'w) dmp_config \<Rightarrow> weight \<Rightarrow> page_index_data \<Rightarrow> 'w dmp_state \<Rightarrow>
     weight \<times> page_index_data \<times> 'w dmp_state" where
  "do_service_queue cfg limit pi s = service_pages cfg limit 0 pi s"

definition service_queue ::
  "('v, 'x, 'o, 'w) dmp_config \<Rightarrow> weight \<Rightarrow> 'w dmp_state \<Rightarrow> weight \<times> 'w dmp_state" where
  "service_queue cfg limit s =
     (case do_service_queue cfg limit (PageIndex s) s of
        (used, pi, s1) \<Rightarrow> (used, s1\<lparr>PageIndex := pi\<rparr>))"

definition dmp_on_idle ::
  "('v, 'x, 'o, 'w) dmp_config \<Rightarrow> weight \<Rightarrow> 'w dmp_state \<Rightarrow> weight \<times> 'w dmp_state" where
  "dmp_on_idle cfg max_weight s = service_queue cfg max_weight s"

definition dmp_service_overweight ::
  "('v, 'x, 'o, 'w) dmp_config \<Rightarrow> 'o \<Rightarrow> overweight_index \<Rightarrow> weight \<Rightarrow> 'w dmp_state \<Rightarrow>
     (dmp_error dispatch_error, weight \<times> 'w dmp_state) result" where
  "dmp_service_overweight cfg origin index weight_limit s =
     rbind (ensure (dmp_overweight_origin cfg origin) BadOrigin) (\<lambda>_.
     rbind (ok_or (DmpOverweight s index) (Module DmpUnknown)) (\<lambda>(sent_at, data).
     case try_service_message cfg weight_limit sent_at data s of
       (Inl _, s1) \<Rightarrow> Inl (Module OverLimit)
     | (Inr weight_used, s1) \<Rightarrow>
         (let s2 = s1\<lparr>DmpOverweight := (DmpOverweight s1)(index := None)\<rparr>;
              s3 = dmp_deposit_event (DmpOverweightServiced index weight_used) s2
          in Inr (sat_add weight_used 1000000, s3))))"

section \<open>Handling the messages of a block\<close>

fun handle_loop ::
  "('v, 'x, 'o, 'w) dmp_config \<Rightarrow> weight \<Rightarrow> config_data \<Rightarrow> weight \<Rightarrow> page_index_data \<Rightarrow>
     dmp_message list option \<Rightarrow> dmp_message list \<Rightarrow> 'w dmp_state \<Rightarrow>
     weight \<times> page_index_data \<times> dmp_message list option \<times> 'w dmp_state" where
  "handle_loop cfg limit config used pi pg [] s = (used, pi, pg, s)"
| "handle_loop cfg limit config used pi (Some page) (m # ms) s =
     handle_loop cfg limit config used pi (Some (page @ [m])) ms s"
| "handle_loop cfg limit config used pi None (m # ms) s =
     (let remaining_weight = sat_sub limit used in
      case try_service_message cfg remaining_weight (fst m) (snd m) s of
        (Inr consumed, s1) \<Rightarrow> handle_loop cfg limit config (used + consumed) pi None ms s1
      | (Inl (message_id, required_weight), s1) \<Rightarrow>
          if max_individual config < required_weight then
            let index = overweight_count pi;
                s2 = s1\<lparr>DmpOverweight := (DmpOverweight s1)(index \<mapsto> m)\<rparr>;
                s3 = dmp_deposit_event (DmpOverweightEnqueued message_id index required_weight) s2
            in handle_loop cfg limit config used (pi\<lparr>overweight_count := index + 1\<rparr>) None ms s3
          else
            handle_loop cfg limit config used pi (Some [m]) ms
              (dmp_deposit_event (WeightExhausted message_id remaining_weight required_weight) s1))"

definition handle_dmp_messages ::
  "('v, 'x, 'o, 'w) dmp_config \<Rightarrow> dmp_message list \<Rightarrow> weight \<Rightarrow> 'w dmp_state \<Rightarrow>
     weight \<times> 'w dmp_state" where
  "handle_dmp_messages cfg iter limit s =
     (let config = Configuration s in
      case do_service_queue cfg limit (PageIndex s) s of (used0, pi0, s0) \<Rightarrow>
      (case handle_loop cfg limit config used0 pi0
              (if begin_used pi0 < end_used pi0 then Some [] else None) iter s0 of
         (used, pi, None, s1) \<Rightarrow> (used, s1\<lparr>PageIndex := pi\<rparr>)
       | (used, pi, Some page, s1) \<Rightarrow>
           (used, s1\<lparr>Pages := (Pages s1)(end_used pi \<mapsto> page),
                     PageIndex := pi\<lparr>end_used := end_used pi + 1\<rparr>\<rparr>)))"

section \<open>What the pallet relies on\<close>

text \<open>
  \<^verbatim>\<open>ExecuteXcm::execute_xcm\<close> is documented to use no more than the weight limit it is
  given.  Only \<^verbatim>\<open>on_idle\<close> and \<^verbatim>\<open>handle_dmp_messages\<close> touch the pages, and neither
  can be called from an XCM program: the executor neither reads nor writes them.
\<close>

definition dmp_executor_bounded :: "('v, 'x, 'o, 'w) dmp_config \<Rightarrow> bool" where
  "dmp_executor_bounded cfg \<longleftrightarrow>
     (\<forall>x limit s. dmp_weight_used cfg (fst (dmp_execute_xcm cfg x limit s)) \<le> limit)"

definition dmp_executor_frames_pages :: "('v, 'x, 'o, 'w) dmp_config \<Rightarrow> bool" where
  "dmp_executor_frames_pages cfg \<longleftrightarrow>
     (\<forall>x limit s p. dmp_execute_xcm cfg x limit (s\<lparr>Pages := p\<rparr>) =
        (fst (dmp_execute_xcm cfg x limit s), (snd (dmp_execute_xcm cfg x limit s))\<lparr>Pages := p\<rparr>))"

section \<open>Weight\<close>

lemma try_service_message_bound:
  assumes "dmp_executor_bounded cfg" "try_service_message cfg limit sent_at data s = (Inr w, s')"
  shows "w \<le> limit"
  using assms
  by (auto simp: try_service_message_def Let_def dmp_executor_bounded_def
      split: option.splits prod.splits outcome.splits xcm_error.splits) (metis fst_conv)+

lemma service_page_bound:
  assumes "dmp_executor_bounded cfg"
  shows "service_page cfg limit used ms s = (used', r, s') \<Longrightarrow> used \<le> limit \<Longrightarrow>
    used' \<le> limit \<and> used \<le> used'"
proof (induction ms arbitrary: used s)
  case (Cons m ms)
  obtain res s1 where t: "try_service_message cfg (sat_sub limit used) (fst m) (snd m) s = (res, s1)"
    by fastforce
  show ?case
  proof (cases res)
    case (Inr w)
    have w: "w \<le> sat_sub limit used"
      using try_service_message_bound [OF assms] t Inr by blast
    have "used' \<le> limit \<and> used + w \<le> used'"
      using Cons.IH [of "used + w" s1] Cons.prems t Inr plus_within(1) [OF _ w] by simp
    then show ?thesis using plus_within(2) [OF Cons.prems(2) w] by auto
  qed (use Cons t in auto)
qed simp

lemma service_pages_induct [consumes 1, case_names bail page_done finished stale]:
  assumes "service_pages cfg limit used pi s = (u, pi', s')"
    and bail: "\<And>used pi s u1 q s2. begin_used pi < end_used pi \<Longrightarrow>
      service_page cfg limit used (page_at s (begin_used pi))
        (s\<lparr>Pages := (Pages s)(begin_used pi := None)\<rparr>) = (u1, Some q, s2) \<Longrightarrow>
      P used pi s u1 pi (s2\<lparr>Pages := (Pages s2)(begin_used pi \<mapsto> q)\<rparr>)"
    and page_done: "\<And>used pi s u1 s2 u pi' s'. begin_used pi < end_used pi \<Longrightarrow>
      service_page cfg limit used (page_at s (begin_used pi))
        (s\<lparr>Pages := (Pages s)(begin_used pi := None)\<rparr>) = (u1, None, s2) \<Longrightarrow>
      P u1 (pi\<lparr>begin_used := begin_used pi + 1\<rparr>) s2 u pi' s' \<Longrightarrow> P used pi s u pi' s'"
    and finished: "\<And>used pi s. begin_used pi = end_used pi \<Longrightarrow>
      P used pi s used (pi\<lparr>begin_used := 0, end_used := 0\<rparr>) s"
    and stale: "\<And>used pi s. end_used pi < begin_used pi \<Longrightarrow> P used pi s used pi s"
  shows "P used pi s u pi' s'"
  using assms(1)
proof (induction "unat (end_used pi) - unat (begin_used pi)" arbitrary: used pi s rule: less_induct)
  case less
  show ?case
  proof (cases "begin_used pi < end_used pi")
    case True
    obtain u1 r s2 where page: "service_page cfg limit used (page_at s (begin_used pi))
        (s\<lparr>Pages := (Pages s)(begin_used pi := None)\<rparr>) = (u1, r, s2)"
      by (metis prod_cases3)
    show ?thesis
    proof (cases r)
      case None
      have "unat (end_used pi) - unat (begin_used pi + 1) < unat (end_used pi) - unat (begin_used pi)"
        using True by (simp add: word_Suc_le(1) [OF True] word_less_nat_alt)
      then show ?thesis
        using page_done [OF True, of used s u1 s2] page None less True
        by (simp add: service_pages.simps [of cfg limit used pi s])
    next
      case (Some q)
      then show ?thesis
        using bail [OF True, of used s u1 q s2] page less.prems(1) True
        by (auto simp: service_pages.simps [of cfg limit used pi s])
    qed
  next
    case False
    then show ?thesis
      using finished [of pi used s] stale [of pi used s] less.prems
      by (auto simp: service_pages.simps [of cfg limit used pi s] split: if_splits)
  qed
qed

lemma service_pages_bound:
  assumes "dmp_executor_bounded cfg" "service_pages cfg limit used pi s = (used', pi', s')"
  shows "used \<le> limit \<longrightarrow> used' \<le> limit"
  using assms(2)
proof (induction rule: service_pages_induct)
  case (bail used pi s u1 q s2)
  then show ?case using service_page_bound [OF assms(1)] by blast
next
  case (page_done used pi s u1 s2)
  then show ?case using service_page_bound [OF assms(1)] by blast
qed simp_all

lemma handle_loop_bound:
  assumes "dmp_executor_bounded cfg"
  shows "handle_loop cfg limit config used pi pg ms s = (used', pi', pg', s') \<Longrightarrow> used \<le> limit \<Longrightarrow>
    used' \<le> limit"
proof (induction ms arbitrary: used pi pg s)
  case (Cons m ms)
  show ?case
  proof (cases pg)
    case None
    obtain res s1 where t: "try_service_message cfg (sat_sub limit used) (fst m) (snd m) s = (res, s1)"
      by fastforce
    show ?thesis
    proof (cases res)
      case (Inr w)
      have "w \<le> sat_sub limit used"
        using try_service_message_bound [OF assms] t Inr by blast
      then show ?thesis
        using Cons t Inr None plus_within(1) [OF Cons.prems(2)] by (auto simp: Let_def)
    qed (use Cons t None in \<open>auto simp: Let_def split: if_splits\<close>)
  qed (use Cons in auto)
qed simp

lemma do_service_queue_bound:
  assumes "dmp_executor_bounded cfg" "do_service_queue cfg limit pi s = (used, pi', s')"
  shows "used \<le> limit"
  using service_pages_bound [OF assms(1)] assms(2) by (auto simp: do_service_queue_def)

lemma handle_dmp_messages_bound:
  assumes "dmp_executor_bounded cfg"
  shows "fst (handle_dmp_messages cfg ms limit s) \<le> limit"
  using handle_loop_bound [OF assms] do_service_queue_bound [OF assms]
  by (fastforce simp: handle_dmp_messages_def Let_def split: prod.split option.split)

interpretation dmp_handler: weight_limited_total dmp_executor_bounded
  "\<lambda>cfg ms limit s. Some (handle_dmp_messages cfg ms limit s)" "\<lambda>cfg s. True"
proof
  fix cfg ms limit s used s'
  assume "dmp_executor_bounded cfg" "Some (handle_dmp_messages cfg ms limit s) = Some (used, s')"
  then show "used \<le> limit" using handle_dmp_messages_bound [of cfg ms limit s] by simp
qed simp

section \<open>The flat queue the pages implement\<close>

definition dmp_queue :: "page_index_data \<Rightarrow> 'w dmp_state \<Rightarrow> dmp_message list" where
  "dmp_queue pi s = concat (map (\<lambda>i. page_at s (of_nat i)) [unat (begin_used pi)..<unat (end_used pi)])"

fun spec_service ::
  "('v, 'x, 'o, 'w) dmp_config \<Rightarrow> weight \<Rightarrow> weight \<Rightarrow> dmp_message list \<Rightarrow> 'w dmp_state \<Rightarrow>
     weight \<times> dmp_message list \<times> 'w dmp_state" where
  "spec_service cfg limit used [] s = (used, [], s)"
| "spec_service cfg limit used (m # ms) s =
     (case try_service_message cfg (sat_sub limit used) (fst m) (snd m) s of
        (Inr w, s1) \<Rightarrow> spec_service cfg limit (used + w) ms s1
      | (Inl _, s1) \<Rightarrow> (used, m # ms, s1))"

fun spec_inline ::
  "('v, 'x, 'o, 'w) dmp_config \<Rightarrow> weight \<Rightarrow> weight \<Rightarrow> weight \<Rightarrow> overweight_index \<Rightarrow>
     dmp_message list \<Rightarrow> 'w dmp_state \<Rightarrow> weight \<times> overweight_index \<times> dmp_message list \<times> 'w dmp_state" where
  "spec_inline cfg limit max_ind used n [] s = (used, n, [], s)"
| "spec_inline cfg limit max_ind used n (m # ms) s =
     (case try_service_message cfg (sat_sub limit used) (fst m) (snd m) s of
        (Inr w, s1) \<Rightarrow> spec_inline cfg limit max_ind (used + w) n ms s1
      | (Inl (message_id, required), s1) \<Rightarrow>
          if max_ind < required then
            spec_inline cfg limit max_ind used (n + 1) ms
              (dmp_deposit_event (DmpOverweightEnqueued message_id n required)
                 (s1\<lparr>DmpOverweight := (DmpOverweight s1)(n \<mapsto> m)\<rparr>))
          else (used, n, m # ms,
            dmp_deposit_event (WeightExhausted message_id (sat_sub limit used) required) s1))"

lemma page_at_update [simp]:
  "page_at (s\<lparr>Pages := p\<rparr>) i = (case p i of None \<Rightarrow> [] | Some q \<Rightarrow> q)"
  by (simp add: page_at_def)

lemma dmp_queue_update_other [simp]:
  "dmp_queue pi (s\<lparr>PageIndex := x\<rparr>) = dmp_queue pi s"
  "dmp_queue pi (s\<lparr>DmpOverweight := y\<rparr>) = dmp_queue pi s"
  "dmp_queue pi (s\<lparr>dmp_events := es\<rparr>) = dmp_queue pi s"
  by (simp_all add: dmp_queue_def page_at_def)

lemma dmp_queue_cong:
  assumes "\<And>i. begin_used pi \<le> i \<Longrightarrow> i < end_used pi \<Longrightarrow> Pages s i = Pages s' i"
  shows "dmp_queue pi s = dmp_queue pi s'"
proof -
  have "page_at s (of_nat n) = page_at s' (of_nat n)"
    if "unat (begin_used pi) \<le> n" "n < unat (end_used pi)" for n
  proof -
    have "unat (end_used pi) < 2 ^ 32" using unsigned_less [of "end_used pi", where 'a = nat] by simp
    then have "n < 2 ^ 32" using that by simp
    then have "unat (of_nat n :: 32 word) = n" by (simp add: unat_of_nat take_bit_nat_eq_self)
    with that have "begin_used pi \<le> of_nat n" "of_nat n < end_used pi"
      by (simp_all add: word_le_nat_alt word_less_nat_alt)
    then show ?thesis using assms by (simp add: page_at_def)
  qed
  then show ?thesis unfolding dmp_queue_def by (intro arg_cong [of _ _ concat] map_cong) auto
qed

lemma dmp_queue_empty: "\<not> begin_used pi < end_used pi \<Longrightarrow> dmp_queue pi s = []"
  by (simp add: dmp_queue_def word_less_nat_alt)

lemma dmp_queue_Cons:
  assumes "begin_used pi < end_used pi"
  shows "dmp_queue pi s =
    page_at s (begin_used pi) @ dmp_queue (pi\<lparr>begin_used := begin_used pi + 1\<rparr>) s"
  using assms by (simp add: dmp_queue_def word_Suc_le upt_conv_Cons word_less_nat_alt)

lemma dmp_queue_snoc:
  assumes "begin_used pi \<le> end_used pi" "end_used pi < - 1"
  shows "dmp_queue (pi\<lparr>end_used := end_used pi + 1\<rparr>) (s\<lparr>Pages := (Pages s)(end_used pi \<mapsto> page)\<rparr>) =
    dmp_queue pi s @ page"
proof -
  have "dmp_queue pi (s\<lparr>Pages := (Pages s)(end_used pi \<mapsto> page)\<rparr>) = dmp_queue pi s"
    by (rule dmp_queue_cong) auto
  moreover have "unat (end_used pi + 1) = Suc (unat (end_used pi))"
    by (rule word_Suc_le(1) [OF assms(2)])
  ultimately show ?thesis
    using assms(1) by (simp add: dmp_queue_def word_le_nat_alt)
qed

section \<open>Paging is transparent\<close>

lemma try_service_message_frame:
  assumes "dmp_executor_frames_pages cfg"
  shows "try_service_message cfg limit sent_at data (s\<lparr>Pages := p\<rparr>) =
    (fst (try_service_message cfg limit sent_at data s),
     (snd (try_service_message cfg limit sent_at data s))\<lparr>Pages := p\<rparr>)"
proof -
  have "dmp_deposit_event e (t\<lparr>Pages := p\<rparr>) = (dmp_deposit_event e t)\<lparr>Pages := p\<rparr>" for e and t :: "'d dmp_state"
    by (simp add: dmp_deposit_event_def)
  then show ?thesis
    using assms
    by (simp add: try_service_message_def Let_def dmp_executor_frames_pages_def
        split: option.split prod.split outcome.split xcm_error.split)
qed

lemma try_service_message_pages:
  assumes "dmp_executor_frames_pages cfg" "try_service_message cfg limit sent_at data s = (r, s')"
  shows "Pages s' = Pages s"
  using try_service_message_frame [OF assms(1), where p = "Pages s" and s = s] assms(2)
  by (metis (no_types, lifting) dmp_state.surjective dmp_state.update_convs(3) dmp_state.select_convs(3) snd_conv)

lemma spec_service_frame:
  assumes "dmp_executor_frames_pages cfg"
  shows "spec_service cfg limit used ms (s\<lparr>Pages := p\<rparr>) =
    (case spec_service cfg limit used ms s of (u, q, t) \<Rightarrow> (u, q, t\<lparr>Pages := p\<rparr>))"
proof (induction ms arbitrary: used s)
  case (Cons m ms)
  then show ?case
    by (simp add: try_service_message_frame [OF assms] split: prod.split sum.split)
qed simp

lemma spec_service_pages:
  assumes "dmp_executor_frames_pages cfg"
  shows "spec_service cfg limit used ms s = (u, q, t) \<Longrightarrow> Pages t = Pages s"
proof (induction ms arbitrary: used s)
  case (Cons m ms)
  then show ?case
    using try_service_message_pages [OF assms]
    by (fastforce split: prod.splits sum.splits)
qed simp

lemma spec_service_append:
  "spec_service cfg limit used (xs @ ys) s =
     (case spec_service cfg limit used xs s of
        (u, [], t) \<Rightarrow> spec_service cfg limit u ys t
      | (u, m # ms, t) \<Rightarrow> (u, m # ms @ ys, t))"
  by (induction xs arbitrary: used s) (auto split: prod.split sum.split)

lemma service_page_spec:
  "service_page cfg limit used ms s = (u, r, t) \<Longrightarrow>
     spec_service cfg limit used ms s = (u, case r of None \<Rightarrow> [] | Some q \<Rightarrow> q, t) \<and> r \<noteq> Some []"
  by (induction ms arbitrary: used s) (auto split: prod.splits sum.splits)

lemma dmp_queue_page_removed:
  assumes "begin_used pi < end_used pi" "Pages t = (Pages s)(begin_used pi := x)"
  shows "dmp_queue (pi\<lparr>begin_used := begin_used pi + 1\<rparr>) t =
    dmp_queue (pi\<lparr>begin_used := begin_used pi + 1\<rparr>) s"
proof -
  have "begin_used pi < begin_used pi + 1"
    using assms(1) by (simp add: word_less_nat_alt word_Suc_le)
  then show ?thesis by (intro dmp_queue_cong) (use assms(2) in auto)
qed

lemma service_page_pages:
  assumes "dmp_executor_frames_pages cfg" "service_page cfg limit used ms s = (u, r, t)"
  shows "Pages t = Pages s"
  using service_page_spec [OF assms(2)] spec_service_pages [OF assms(1)] by blast

lemma service_pages_spec:
  assumes "dmp_executor_frames_pages cfg" "service_pages cfg limit used pi s = (u, pi', s')"
  shows "begin_used pi \<le> end_used pi \<longrightarrow>
    spec_service cfg limit used (dmp_queue pi s) (s\<lparr>Pages := p\<rparr>) = (u, dmp_queue pi' s', s'\<lparr>Pages := p\<rparr>)"
  using assms(2)
proof (induction rule: service_pages_induct)
  case (bail used pi s u1 q s2)
  let ?s' = "s2\<lparr>Pages := (Pages s2)(begin_used pi \<mapsto> q)\<rparr>"
  have "Pages ?s' = (Pages s)(begin_used pi := Some q)"
    using service_page_pages [OF assms(1) bail(2)] by simp
  from dmp_queue_page_removed [OF bail(1) this] have "dmp_queue pi ?s' =
      q @ dmp_queue (pi\<lparr>begin_used := begin_used pi + 1\<rparr>) s"
    by (simp add: dmp_queue_Cons [OF bail(1)])
  moreover have "spec_service cfg limit used (page_at s (begin_used pi)) (s\<lparr>Pages := p\<rparr>) =
      (u1, q, s2\<lparr>Pages := p\<rparr>)" "q \<noteq> []"
    using spec_service_frame [OF assms(1), where s = "s\<lparr>Pages := (Pages s)(begin_used pi := None)\<rparr>" and p = p]
      service_page_spec [OF bail(2)] by auto
  ultimately show ?case
    by (auto simp: dmp_queue_Cons [OF bail(1), of s] spec_service_append neq_Nil_conv)
next
  case (page_done used pi s u1 s2 u pi' s')
  have "spec_service cfg limit used (page_at s (begin_used pi)) (s\<lparr>Pages := p\<rparr>) = (u1, [], s2\<lparr>Pages := p\<rparr>)"
    using spec_service_frame [OF assms(1), where s = "s\<lparr>Pages := (Pages s)(begin_used pi := None)\<rparr>" and p = p]
      service_page_spec [OF page_done(2)] by auto
  moreover have "Pages s2 = (Pages s)(begin_used pi := None)"
    using service_page_pages [OF assms(1) page_done(2)] by simp
  ultimately show ?case
    using page_done(3) word_Suc_le(2) [OF page_done(1)] dmp_queue_page_removed [OF page_done(1), of s2 s None]
    by (simp add: dmp_queue_Cons [OF page_done(1), of s] spec_service_append)
qed (simp_all add: dmp_queue_empty)

lemma spec_service_suffix: "spec_service cfg limit used ms s = (u, q, t) \<Longrightarrow> suffix q ms"
  by (induction ms arbitrary: used s) (auto split: prod.splits sum.splits intro: suffix_ConsI)

lemma spec_inline_suffix: "spec_inline cfg limit mx used n ms s = (u, n', q, t) \<Longrightarrow> suffix q ms"
  by (induction ms arbitrary: used n s)
    (auto split: prod.splits sum.splits if_splits intro: suffix_ConsI)

lemma spec_inline_pages:
  assumes "dmp_executor_frames_pages cfg"
  shows "spec_inline cfg limit mx used n ms s = (u, n', q, t) \<Longrightarrow> Pages t = Pages s"
proof (induction ms arbitrary: used n s)
  case (Cons m ms)
  obtain res s1 where t: "try_service_message cfg (sat_sub limit used) (fst m) (snd m) s = (res, s1)"
    by fastforce
  have "Pages s1 = Pages s" by (rule try_service_message_pages [OF assms t])
  then show ?case
    using Cons t by (auto simp: dmp_deposit_event_def split: sum.splits if_splits)
qed simp

lemma spec_inline_frame:
  assumes "dmp_executor_frames_pages cfg"
  shows "spec_inline cfg limit mx used n ms (s\<lparr>Pages := p\<rparr>) =
    (case spec_inline cfg limit mx used n ms s of (u, n', q, t) \<Rightarrow> (u, n', q, t\<lparr>Pages := p\<rparr>))"
proof (induction ms arbitrary: used n s)
  case (Cons m ms)
  obtain res s1 where t: "try_service_message cfg (sat_sub limit used) (fst m) (snd m) s = (res, s1)"
    by fastforce
  have dep: "dmp_deposit_event e (x\<lparr>Pages := p, DmpOverweight := ov\<rparr>) =
      (dmp_deposit_event e (x\<lparr>DmpOverweight := ov\<rparr>))\<lparr>Pages := p\<rparr>"
    "dmp_deposit_event e (x\<lparr>Pages := p\<rparr>) = (dmp_deposit_event e x)\<lparr>Pages := p\<rparr>"
    for e ov and x :: "'d dmp_state"
    by (simp_all add: dmp_deposit_event_def)
  show ?case
    using t by (auto simp: try_service_message_frame [OF assms] Cons.IH dep split: sum.split)
qed simp

lemma handle_loop_enqueue:
  "handle_loop cfg limit config used pi (Some page) ms s = (used, pi, Some (page @ ms), s)"
  by (induction ms arbitrary: page) auto

lemma handle_loop_inline:
  "handle_loop cfg limit config used pi None ms s =
     (case spec_inline cfg limit (max_individual config) used (overweight_count pi) ms s of
        (u, n, rest, t) \<Rightarrow>
          (u, pi\<lparr>overweight_count := n\<rparr>, if rest = [] then None else Some rest, t))"
proof (induction ms arbitrary: used pi s)
  case (Cons m ms)
  show ?case
    by (auto simp: Let_def Cons.IH handle_loop_enqueue split: prod.splits sum.splits if_splits)
qed simp

definition dmp_pages_wf :: "page_index_data \<Rightarrow> 'w dmp_state \<Rightarrow> bool" where
  "dmp_pages_wf pi s \<longleftrightarrow> begin_used pi \<le> end_used pi \<and> dom (Pages s) = {begin_used pi..<end_used pi}"

lemma atLeastLessThan_remove_first:
  fixes b e :: "'a::len word"
  assumes "b < e"
  shows "{b..<e} - {b} = {b + 1..<e}"
  using assms word_Suc_le(1) [OF assms]
  by (auto simp: word_less_nat_alt word_le_nat_alt word_unat_eq_iff)

lemma service_pages_wf:
  assumes "dmp_executor_frames_pages cfg" "service_pages cfg limit used pi s = (u, pi', s')"
  shows "dmp_pages_wf pi s \<longrightarrow>
    dmp_pages_wf pi' s' \<and> overweight_count pi' = overweight_count pi \<and> end_used pi' \<le> end_used pi \<and>
    (begin_used pi' < end_used pi' \<longleftrightarrow> dmp_queue pi' s' \<noteq> [])"
  using assms(2)
proof (induction rule: service_pages_induct)
  case (bail used pi s u1 q s2)
  have "q \<noteq> []" using service_page_spec [OF bail(2)] by auto
  then show ?case
    using bail(1) service_page_pages [OF assms(1) bail(2)]
    by (auto simp: dmp_pages_wf_def dmp_queue_Cons [OF bail(1)])
next
  case (page_done used pi s u1 s2 u pi' s')
  have "dmp_pages_wf pi s \<longrightarrow> dmp_pages_wf (pi\<lparr>begin_used := begin_used pi + 1\<rparr>) s2"
    using service_page_pages [OF assms(1) page_done(2)] word_Suc_le(2) [OF page_done(1)]
    by (simp add: dmp_pages_wf_def atLeastLessThan_remove_first [OF page_done(1)])
  with page_done(3) show ?case by simp
qed (auto simp: dmp_pages_wf_def dmp_queue_empty)

lemma dmp_pages_wf_snoc:
  assumes "dmp_pages_wf pi s" "end_used pi < - 1"
  shows "dmp_pages_wf (pi\<lparr>end_used := end_used pi + 1, overweight_count := n\<rparr>)
    (s\<lparr>Pages := (Pages s)(end_used pi \<mapsto> page)\<rparr>)"
proof -
  note Suc = word_Suc_le(1) [OF assms(2)]
  have "{begin_used pi..<end_used pi + 1} = insert (end_used pi) {begin_used pi..<end_used pi}"
    using assms Suc
    by (auto simp: dmp_pages_wf_def word_less_nat_alt word_le_nat_alt word_unat_eq_iff)
  moreover have "begin_used pi \<le> end_used pi + 1"
    using assms Suc by (simp add: dmp_pages_wf_def word_le_nat_alt)
  ultimately show ?thesis using assms(1) by (simp add: dmp_pages_wf_def)
qed

definition spec_handle ::
  "('v, 'x, 'o, 'w) dmp_config \<Rightarrow> weight \<Rightarrow> weight \<Rightarrow> overweight_index \<Rightarrow> dmp_message list \<Rightarrow>
     dmp_message list \<Rightarrow> 'w dmp_state \<Rightarrow> weight \<times> overweight_index \<times> dmp_message list \<times> 'w dmp_state" where
  "spec_handle cfg limit max_ind n q ms s =
     (case spec_service cfg limit 0 q s of
        (u, [], t) \<Rightarrow> spec_inline cfg limit max_ind u n ms t
      | (u, m # q', t) \<Rightarrow> (u, n, (m # q') @ ms, t))"


lemma service_queue_spec:
  assumes "dmp_executor_frames_pages cfg"
    and "dmp_pages_wf (PageIndex s) s"
    and "service_queue cfg limit s = (used, s')"
  shows "\<exists>t. spec_service cfg limit 0 (dmp_queue (PageIndex s) s) s =
             (used, dmp_queue (PageIndex s') s', t)
           \<and> s' = t\<lparr>Pages := Pages s', PageIndex := PageIndex s'\<rparr>"
proof -
  obtain pi s1 where sp: "service_pages cfg limit 0 (PageIndex s) s = (used, pi, s1)"
    and s': "s' = s1\<lparr>PageIndex := pi\<rparr>"
    using assms(3) by (auto simp: service_queue_def do_service_queue_def split: prod.splits)
  have "spec_service cfg limit 0 (dmp_queue (PageIndex s) s) (s\<lparr>Pages := Pages s\<rparr>) =
      (used, dmp_queue pi s1, s1\<lparr>Pages := Pages s\<rparr>)"
    using service_pages_spec [OF assms(1) sp, where p = "Pages s"] assms(2)
    by (simp add: dmp_pages_wf_def)
  then show ?thesis by (simp add: s')
qed

lemma handle_dmp_messages_nonempty:
  assumes sp: "service_pages cfg limit 0 (PageIndex s) s = (u, pi, s1)"
    and wf: "dmp_pages_wf pi s1" "end_used pi < - 1" "begin_used pi < end_used pi"
    and run: "handle_dmp_messages cfg ms limit s = (used, s')"
  shows "used = u" "overweight_count (PageIndex s') = overweight_count pi"
    "s' = s1\<lparr>Pages := Pages s', PageIndex := PageIndex s'\<rparr>"
    "dmp_queue (PageIndex s') s' = dmp_queue pi s1 @ ms" "dmp_pages_wf (PageIndex s') s'"
proof -
  have s': "used = u" "s' = s1\<lparr>Pages := (Pages s1)(end_used pi \<mapsto> ms),
      PageIndex := pi\<lparr>end_used := end_used pi + 1\<rparr>\<rparr>"
    using run sp wf(3) by (auto simp: handle_dmp_messages_def do_service_queue_def handle_loop_enqueue)
  then show "used = u" "overweight_count (PageIndex s') = overweight_count pi"
    "s' = s1\<lparr>Pages := Pages s', PageIndex := PageIndex s'\<rparr>" by simp_all
  show "dmp_queue (PageIndex s') s' = dmp_queue pi s1 @ ms"
    using dmp_queue_snoc [OF _ wf(2), where s = s1 and page = ms] wf(1) by (simp add: s' dmp_pages_wf_def)
  show "dmp_pages_wf (PageIndex s') s'"
    using dmp_pages_wf_snoc [OF wf(1,2), where n = "overweight_count pi" and page = ms]
    by (simp add: s' dmp_pages_wf_def)
qed

lemma handle_dmp_messages_empty:
  assumes frames: "dmp_executor_frames_pages cfg"
    and sp: "service_pages cfg limit 0 (PageIndex s) s = (u, pi, s1)"
    and wf: "dmp_pages_wf pi s1" "end_used pi < - 1" "\<not> begin_used pi < end_used pi"
    and inl: "spec_inline cfg limit (max_individual (Configuration s)) u (overweight_count pi) ms s1 = (u', n, rest, t)"
    and run: "handle_dmp_messages cfg ms limit s = (used, s')"
  shows "used = u'" "overweight_count (PageIndex s') = n"
    "s' = t\<lparr>Pages := Pages s', PageIndex := PageIndex s'\<rparr>"
    "dmp_queue (PageIndex s') s' = rest" "dmp_pages_wf (PageIndex s') s'"
proof -
  have wft: "dmp_pages_wf pi t"
    using wf(1) spec_inline_pages [OF frames inl] by (simp add: dmp_pages_wf_def)
  have s': "used = u'" "s' = (if rest = [] then t\<lparr>PageIndex := pi\<lparr>overweight_count := n\<rparr>\<rparr>
      else t\<lparr>Pages := (Pages t)(end_used pi \<mapsto> rest),
             PageIndex := pi\<lparr>overweight_count := n, end_used := end_used pi + 1\<rparr>\<rparr>)"
    using run sp inl wf(3)
    by (auto simp: handle_dmp_messages_def do_service_queue_def handle_loop_inline split: if_splits)
  then show "used = u'" "overweight_count (PageIndex s') = n"
    "s' = t\<lparr>Pages := Pages s', PageIndex := PageIndex s'\<rparr>" by simp_all
  show "dmp_queue (PageIndex s') s' = rest"
    using dmp_queue_snoc [of "pi\<lparr>overweight_count := n\<rparr>" t rest] wft wf(2,3)
    by (simp add: s' dmp_pages_wf_def dmp_queue_empty)
  show "dmp_pages_wf (PageIndex s') s'"
    using dmp_pages_wf_snoc [OF wft wf(2), where n = n and page = rest] wft
    by (simp add: s' dmp_pages_wf_def)
qed

lemma handle_dmp_messages_spec:
  assumes "dmp_executor_frames_pages cfg"
    and "dmp_pages_wf (PageIndex s) s"
    and "end_used (PageIndex s) < - 1"
    and "handle_dmp_messages cfg ms limit s = (used, s')"
  shows "\<exists>t. spec_handle cfg limit (max_individual (Configuration s)) (overweight_count (PageIndex s))
               (dmp_queue (PageIndex s) s) ms s =
             (used, overweight_count (PageIndex s'), dmp_queue (PageIndex s') s', t)
           \<and> s' = t\<lparr>Pages := Pages s', PageIndex := PageIndex s'\<rparr>
           \<and> dmp_pages_wf (PageIndex s') s'"
proof -
  obtain u pi s1 where sp: "service_pages cfg limit 0 (PageIndex s) s = (u, pi, s1)"
    by (metis prod_cases3)
  have spec: "spec_service cfg limit 0 (dmp_queue (PageIndex s) s) s = (u, dmp_queue pi s1, s1\<lparr>Pages := Pages s\<rparr>)"
    using service_pages_spec [OF assms(1) sp, where p = "Pages s"] assms(2)
    by (simp add: dmp_pages_wf_def)
  have wf: "dmp_pages_wf pi s1" "end_used pi < - 1" "overweight_count pi = overweight_count (PageIndex s)"
    "begin_used pi < end_used pi \<longleftrightarrow> dmp_queue pi s1 \<noteq> []"
    using service_pages_wf [OF assms(1) sp] assms(2,3) by auto
  show ?thesis
  proof (cases "dmp_queue pi s1")
    case (Cons m q)
    then show ?thesis
      using handle_dmp_messages_nonempty [OF sp wf(1,2) _ assms(4)] spec wf(3,4)
      by (auto simp: spec_handle_def)
  next
    case Nil
    obtain u' n rest t where inl: "spec_inline cfg limit (max_individual (Configuration s)) u
        (overweight_count pi) ms s1 = (u', n, rest, t)"
      by (metis prod_cases4)
    then have "spec_handle cfg limit (max_individual (Configuration s)) (overweight_count (PageIndex s))
        (dmp_queue (PageIndex s) s) ms s = (u', n, rest, t\<lparr>Pages := Pages s\<rparr>)"
      using spec Nil wf(3) spec_inline_frame [OF assms(1), where s = s1 and p = "Pages s"]
      by (simp add: spec_handle_def)
    moreover have "\<not> begin_used pi < end_used pi" using wf(4) Nil by simp
    ultimately show ?thesis
      using handle_dmp_messages_empty [OF assms(1) sp wf(1,2) _ inl assms(4)] by auto
  qed
qed

section \<open>Reachable states\<close>

text \<open>A nested \<^verbatim>\<open>service_overweight\<close> is all an XCM program can do to the index and the
  overweight map: it frees indices.\<close>

definition dmp_executor_frames :: "('v, 'x, 'o, 'w) dmp_config \<Rightarrow> bool" where
  "dmp_executor_frames cfg \<longleftrightarrow> dmp_executor_frames_pages cfg \<and>
     (\<forall>x limit s. PageIndex (snd (dmp_execute_xcm cfg x limit s)) = PageIndex s \<and>
        dom (DmpOverweight (snd (dmp_execute_xcm cfg x limit s))) \<subseteq> dom (DmpOverweight s))"

definition dmp_inv :: "'w dmp_state \<Rightarrow> bool" where
  "dmp_inv s \<longleftrightarrow> dmp_pages_wf (PageIndex s) s \<and>
     dom (DmpOverweight s) \<subseteq> {..<overweight_count (PageIndex s)}"

inductive dmp_reachable :: "('v, 'x, 'o, 'w) dmp_config \<Rightarrow> 'w dmp_state \<Rightarrow> bool" for cfg where
  dmp_start: "dmp_reachable cfg (dmp_genesis w)"
| dmp_idle: "dmp_reachable cfg s \<Longrightarrow> dmp_on_idle cfg max_weight s = (used, s') \<Longrightarrow> dmp_reachable cfg s'"
| dmp_overweight: "dmp_reachable cfg s \<Longrightarrow> dmp_service_overweight cfg origin index limit s = Inr (w, s') \<Longrightarrow>
    dmp_reachable cfg s'"
| dmp_handle: "dmp_reachable cfg s \<Longrightarrow> end_used (PageIndex s) < - 1 \<Longrightarrow>
    unat (overweight_count (PageIndex s)) + length ms < 2 ^ 64 \<Longrightarrow>
    handle_dmp_messages cfg ms limit s = (used, s') \<Longrightarrow> dmp_reachable cfg s'"
| dmp_other: "dmp_reachable cfg s \<Longrightarrow> dmp_reachable cfg (s\<lparr>dmp_events := es, dmp_world := w\<rparr>)"

lemma try_service_message_shape:
  assumes "try_service_message cfg limit sent_at data s = (r, s')"
  shows "(\<exists>e. s' = dmp_deposit_event e s) \<or>
    (\<exists>x out s1. dmp_execute_xcm cfg x limit s = (out, s1) \<and> (s' = s1 \<or> (\<exists>e. s' = dmp_deposit_event e s1)))"
  using assms
  by (simp add: try_service_message_def Let_def
      split: option.splits prod.splits outcome.splits xcm_error.splits) blast+

lemma try_service_message_keeps:
  assumes "dmp_executor_frames cfg" "try_service_message cfg limit sent_at data s = (r, s')"
  shows "PageIndex s' = PageIndex s" "dom (DmpOverweight s') \<subseteq> dom (DmpOverweight s)"
proof -
  have "PageIndex s' = PageIndex s \<and> dom (DmpOverweight s') \<subseteq> dom (DmpOverweight s)"
    using try_service_message_shape [OF assms(2)]
  proof (elim disjE exE conjE)
    fix e
    assume "s' = dmp_deposit_event e s"
    then show ?thesis by (simp add: dmp_deposit_event_def)
  next
    fix x out s1
    assume "dmp_execute_xcm cfg x limit s = (out, s1)"
    then have "PageIndex s1 = PageIndex s \<and> dom (DmpOverweight s1) \<subseteq> dom (DmpOverweight s)"
      using assms(1) unfolding dmp_executor_frames_def by (metis snd_conv)
    then show "s' = s1 \<Longrightarrow> ?thesis" "\<And>e. s' = dmp_deposit_event e s1 \<Longrightarrow> ?thesis"
      by (simp_all add: dmp_deposit_event_def)
  qed
  then show "PageIndex s' = PageIndex s" "dom (DmpOverweight s') \<subseteq> dom (DmpOverweight s)" by simp_all
qed

lemma spec_service_keeps:
  assumes "dmp_executor_frames cfg"
  shows "spec_service cfg limit used ms s = (u, q, t) \<Longrightarrow> dom (DmpOverweight t) \<subseteq> dom (DmpOverweight s)"
proof (induction ms arbitrary: used s)
  case (Cons m ms)
  obtain r s1 where t: "try_service_message cfg (sat_sub limit used) (fst m) (snd m) s = (r, s1)"
    by fastforce
  note keeps = try_service_message_keeps(2) [OF assms t]
  show ?case
  proof (cases r)
    case (Inl e)
    then show ?thesis using Cons.prems t keeps by simp
  next
    case (Inr w)
    then have "dom (DmpOverweight t) \<subseteq> dom (DmpOverweight s1)" using Cons t by simp
    then show ?thesis using keeps by (rule order_trans)
  qed
qed simp

lemma dom_insert_next:
  fixes n :: u64
  assumes "dom f \<subseteq> {..<n}" "unat n + Suc k < 2 ^ 64"
  shows "dom (f(n \<mapsto> m)) \<subseteq> {..<n + 1}" and "unat (n + 1) + k < 2 ^ 64"
proof -
  have "n < - 1"
    using assms(2) by (simp add: word_less_nat_alt unsigned_minus_1_eq_mask mask_eq_exp_minus_1)
  note Suc = word_Suc_le(1) [OF this]
  have "insert n {..<n} \<subseteq> {..<n + 1}"
    using Suc by (auto simp: word_less_nat_alt word_le_nat_alt)
  then show "dom (f(n \<mapsto> m)) \<subseteq> {..<n + 1}" using assms(1) by auto
  show "unat (n + 1) + k < 2 ^ 64" using assms(2) Suc by simp
qed

lemma spec_inline_keeps:
  assumes "dmp_executor_frames cfg"
  shows "spec_inline cfg limit mx used n ms s = (u, n', q, t) \<Longrightarrow>
    dom (DmpOverweight s) \<subseteq> {..<n} \<Longrightarrow> unat n + length ms < 2 ^ 64 \<Longrightarrow>
    dom (DmpOverweight t) \<subseteq> {..<n'}"
proof (induction ms arbitrary: used n s)
  case (Cons m ms)
  obtain r s1 where t: "try_service_message cfg (sat_sub limit used) (fst m) (snd m) s = (r, s1)"
    by fastforce
  have dom1: "dom (DmpOverweight s1) \<subseteq> {..<n}"
    using try_service_message_keeps(2) [OF assms t] Cons.prems(2) by (rule order_trans)
  show ?case
  proof (cases r)
    case (Inl e)
    obtain message_id required where e: "e = (message_id, required)" by fastforce
    show ?thesis
    proof (cases "mx < required")
      case True
      let ?s = "dmp_deposit_event (DmpOverweightEnqueued message_id n required)
        (s1\<lparr>DmpOverweight := (DmpOverweight s1)(n \<mapsto> m)\<rparr>)"
      have "spec_inline cfg limit mx used (n + 1) ms ?s = (u, n', q, t)"
        using Cons.prems(1) t Inl e True by simp
      moreover have "dom (DmpOverweight ?s) \<subseteq> {..<n + 1}" "unat (n + 1) + length ms < 2 ^ 64"
        using dom_insert_next [OF dom1] Cons.prems(3) by (simp_all add: dmp_deposit_event_def)
      ultimately show ?thesis by (rule Cons.IH)
    next
      case False
      then have "DmpOverweight t = DmpOverweight s1" "n' = n"
        using Cons.prems(1) t Inl e by (auto simp: dmp_deposit_event_def)
      then show ?thesis using dom1 by simp
    qed
  next
    case (Inr w)
    then have "spec_inline cfg limit mx (used + w) n ms s1 = (u, n', q, t)"
      using Cons.prems(1) t by simp
    moreover have "unat n + length ms < 2 ^ 64" using Cons.prems(3) by simp
    ultimately show ?thesis using dom1 by (intro Cons.IH)
  qed
qed simp

lemma dmp_service_overweight_OkE:
  assumes "dmp_service_overweight cfg origin index limit s = Inr (charged, s')"
  obtains sent_at data used s1 where "dmp_overweight_origin cfg origin"
    "try_service_message cfg limit sent_at data s = (Inr used, s1)"
    "charged = sat_add used 1000000"
    "s' = s1\<lparr>DmpOverweight := (DmpOverweight s1)(index := None),
              dmp_events := dmp_events s1 @ [DmpOverweightServiced index used]\<rparr>"
proof -
  from assms obtain sent_at data where o: "dmp_overweight_origin cfg origin"
    and "DmpOverweight s index = Some (sent_at, data)"
    by (auto simp: dmp_service_overweight_def rbind_eq_Inr)
  with assms that show ?thesis
    by (cases "try_service_message cfg limit sent_at data s")
      (auto simp: dmp_service_overweight_def dmp_deposit_event_def Let_def split: sum.splits)
qed

lemma service_queue_inv:
  assumes "dmp_executor_frames cfg" "dmp_inv s" "service_queue cfg limit s = (used, s')"
  shows "dmp_inv s'"
proof -
  have fp: "dmp_executor_frames_pages cfg" and wf: "dmp_pages_wf (PageIndex s) s"
    using assms(1,2) by (simp_all add: dmp_executor_frames_def dmp_inv_def)
  obtain pi s1 where sp: "service_pages cfg limit 0 (PageIndex s) s = (used, pi, s1)"
    and s': "s' = s1\<lparr>PageIndex := pi\<rparr>"
    using assms(3) by (auto simp: service_queue_def do_service_queue_def split: prod.splits)
  obtain t where "spec_service cfg limit 0 (dmp_queue (PageIndex s) s) s = (used, dmp_queue (PageIndex s') s', t)"
    and t: "s' = t\<lparr>Pages := Pages s', PageIndex := PageIndex s'\<rparr>"
    using service_queue_spec [OF fp wf assms(3)] by blast
  then have "dom (DmpOverweight t) \<subseteq> dom (DmpOverweight s)"
    using spec_service_keeps [OF assms(1)] by blast
  moreover have "DmpOverweight s' = DmpOverweight t" by (subst t) simp
  ultimately show ?thesis
    using service_pages_wf [OF fp sp] wf assms(2) by (auto simp: dmp_inv_def s' dmp_pages_wf_def)
qed

lemma handle_dmp_messages_inv:
  assumes "dmp_executor_frames cfg" "dmp_inv s" "end_used (PageIndex s) < - 1"
    and "unat (overweight_count (PageIndex s)) + length ms < 2 ^ 64"
    and "handle_dmp_messages cfg ms limit s = (used, s')"
  shows "dmp_inv s'"
proof -
  have fp: "dmp_executor_frames_pages cfg" and wf: "dmp_pages_wf (PageIndex s) s"
    and dom: "dom (DmpOverweight s) \<subseteq> {..<overweight_count (PageIndex s)}"
    using assms(1,2) by (simp_all add: dmp_executor_frames_def dmp_inv_def)
  obtain t where spec: "spec_handle cfg limit (max_individual (Configuration s)) (overweight_count (PageIndex s))
        (dmp_queue (PageIndex s) s) ms s =
      (used, overweight_count (PageIndex s'), dmp_queue (PageIndex s') s', t)"
    and t: "s' = t\<lparr>Pages := Pages s', PageIndex := PageIndex s'\<rparr>" and wf': "dmp_pages_wf (PageIndex s') s'"
    using handle_dmp_messages_spec [OF fp wf assms(3,5)] by blast
  obtain u q t1 where svc: "spec_service cfg limit 0 (dmp_queue (PageIndex s) s) s = (u, q, t1)"
    by (metis prod_cases3)
  have dom1: "dom (DmpOverweight t1) \<subseteq> {..<overweight_count (PageIndex s)}"
    using spec_service_keeps [OF assms(1) svc] dom by blast
  have "dom (DmpOverweight t) \<subseteq> {..<overweight_count (PageIndex s')}"
  proof (cases q)
    case Nil
    then show ?thesis
      using spec svc spec_inline_keeps [OF assms(1) _ dom1 assms(4)] by (simp add: spec_handle_def)
  next
    case (Cons m q')
    then show ?thesis using spec svc dom1 by (simp add: spec_handle_def)
  qed
  moreover have "DmpOverweight s' = DmpOverweight t" by (subst t) simp
  ultimately show ?thesis using wf' by (simp add: dmp_inv_def)
qed

lemma dmp_service_overweight_inv:
  assumes "dmp_executor_frames cfg" "dmp_inv s" "dmp_service_overweight cfg origin index limit s = Inr (w, s')"
  shows "dmp_inv s'"
  using assms(3)
proof (rule dmp_service_overweight_OkE)
  fix sent_at data used s1
  assume t: "try_service_message cfg limit sent_at data s = (Inr used, s1)"
    and s': "s' = s1\<lparr>DmpOverweight := (DmpOverweight s1)(index := None),
              dmp_events := dmp_events s1 @ [DmpOverweightServiced index used]\<rparr>"
  have "Pages s1 = Pages s"
    using try_service_message_pages [OF _ t] assms(1) by (simp add: dmp_executor_frames_def)
  then show "dmp_inv s'"
    using try_service_message_keeps [OF assms(1) t] assms(2)
    by (simp add: s' dmp_inv_def dmp_pages_wf_def) blast
qed

section \<open>Properties\<close>

text \<open>Servicing the paged queue is servicing the flat queue of its messages in order, up to
  the first message that needs more weight than is left: same weight, same remaining messages,
  same state but for the pages.\<close>

theorem service_queue_refines:
  assumes "dmp_executor_frames_pages cfg"
    and "dmp_pages_wf (PageIndex s) s"
    and "service_queue cfg limit s = (used, s')"
  shows "\<exists>t. spec_service cfg limit 0 (dmp_queue (PageIndex s) s) s =
             (used, dmp_queue (PageIndex s') s', t)
           \<and> s' = t\<lparr>Pages := Pages s', PageIndex := PageIndex s'\<rparr>"
  using assms by (rule service_queue_spec)

text \<open>C7. Handling the downward messages of a block refines the flat specification: service what
  is queued; if that empties the queue execute the new messages inline, setting aside the
  overweight ones, and queue the rest from the first that does not fit; otherwise append all
  new messages to the queue.\<close>

theorem handle_dmp_messages_refines:
  assumes "dmp_executor_frames_pages cfg"
    and "dmp_pages_wf (PageIndex s) s"
    and "end_used (PageIndex s) < - 1"
    and "handle_dmp_messages cfg ms limit s = (used, s')"
  shows "\<exists>t. spec_handle cfg limit (max_individual (Configuration s)) (overweight_count (PageIndex s))
               (dmp_queue (PageIndex s) s) ms s =
             (used, overweight_count (PageIndex s'), dmp_queue (PageIndex s') s', t)
           \<and> s' = t\<lparr>Pages := Pages s', PageIndex := PageIndex s'\<rparr>
           \<and> dmp_pages_wf (PageIndex s') s'"
  using assms by (rule handle_dmp_messages_spec)

text \<open>Downward messages are first in, first out: what is queued after handling a block's
  messages is a suffix of what was queued before followed by the new messages, in their order.\<close>

theorem handle_dmp_messages_fifo:
  assumes "dmp_executor_frames_pages cfg"
    and "dmp_pages_wf (PageIndex s) s"
    and "end_used (PageIndex s) < - 1"
    and "handle_dmp_messages cfg ms limit s = (used, s')"
  shows "suffix (dmp_queue (PageIndex s') s') (dmp_queue (PageIndex s) s @ ms)"
proof -
  from handle_dmp_messages_spec [OF assms] obtain n t where
    "spec_handle cfg limit (max_individual (Configuration s)) (overweight_count (PageIndex s))
       (dmp_queue (PageIndex s) s) ms s = (used, n, dmp_queue (PageIndex s') s', t)"
    by blast
  then show ?thesis
    using spec_service_suffix spec_inline_suffix
    by (fastforce simp: spec_handle_def suffix_def split: prod.splits list.splits)
qed

text \<open>
  The weights of the messages that are serviced, in order: those of the queued pages, then those of the new messages that run
  inline.  They follow the loops of the handler message by message and are only used to state what the handler adds up.
\<close>

fun page_weights ::
  "('v, 'x, 'o, 'w) dmp_config \<Rightarrow> weight \<Rightarrow> weight \<Rightarrow> dmp_message list \<Rightarrow> 'w dmp_state \<Rightarrow> weight list" where
  "page_weights cfg limit used [] s = []"
| "page_weights cfg limit used (m # ms) s =
     (case try_service_message cfg (sat_sub limit used) (fst m) (snd m) s of
        (Inr w, s1) \<Rightarrow> w # page_weights cfg limit (used + w) ms s1
      | (Inl _, s1) \<Rightarrow> [])"

function pages_weights ::
  "('v, 'x, 'o, 'w) dmp_config \<Rightarrow> weight \<Rightarrow> weight \<Rightarrow> page_index_data \<Rightarrow> 'w dmp_state \<Rightarrow> weight list" where
  "pages_weights cfg limit used pi s =
     (if begin_used pi < end_used pi then
        let page = page_at s (begin_used pi);
            s1 = s\<lparr>Pages := (Pages s)(begin_used pi := None)\<rparr> in
        page_weights cfg limit used page s1 @
        (case service_page cfg limit used page s1 of
           (used', Some rest, s2) \<Rightarrow> []
         | (used', None, s2) \<Rightarrow> pages_weights cfg limit used' (pi\<lparr>begin_used := begin_used pi + 1\<rparr>) s2)
      else [])"
  by pat_completeness auto
termination
  by (relation "measure (\<lambda>(cfg, limit, used, pi, s). unat (end_used pi) - unat (begin_used pi))")
    (auto simp: word_less_nat_alt word_Suc_le)

declare pages_weights.simps [simp del]

fun inline_weights ::
  "('v, 'x, 'o, 'w) dmp_config \<Rightarrow> weight \<Rightarrow> config_data \<Rightarrow> weight \<Rightarrow> overweight_index \<Rightarrow>
     dmp_message list \<Rightarrow> 'w dmp_state \<Rightarrow> weight list" where
  "inline_weights cfg limit config used index [] s = []"
| "inline_weights cfg limit config used index (m # ms) s =
     (case try_service_message cfg (sat_sub limit used) (fst m) (snd m) s of
        (Inr w, s1) \<Rightarrow> w # inline_weights cfg limit config (used + w) index ms s1
      | (Inl (message_id, required), s1) \<Rightarrow>
          if max_individual config < required then
            inline_weights cfg limit config used (index + 1) ms
              (dmp_deposit_event (DmpOverweightEnqueued message_id index required)
                 (s1\<lparr>DmpOverweight := (DmpOverweight s1)(index \<mapsto> m)\<rparr>))
          else [])"

definition serviced_weights ::
  "('v, 'x, 'o, 'w) dmp_config \<Rightarrow> dmp_message list \<Rightarrow> weight \<Rightarrow> 'w dmp_state \<Rightarrow> weight list" where
  "serviced_weights cfg iter limit s =
     pages_weights cfg limit 0 (PageIndex s) s @
     (case do_service_queue cfg limit (PageIndex s) s of (used, pi, s1) \<Rightarrow>
        if begin_used pi < end_used pi then []
        else inline_weights cfg limit (Configuration s) used (overweight_count pi) iter s1)"

lemma page_weights_sum:
  assumes "dmp_executor_bounded cfg"
  shows "service_page cfg limit used ms s = (used', r, s') \<Longrightarrow> used \<le> limit \<Longrightarrow>
    unat used' = unat used + sum_list (map unat (page_weights cfg limit used ms s))"
proof (induction ms arbitrary: used s)
  case (Cons m ms)
  obtain res s1 where t: "try_service_message cfg (sat_sub limit used) (fst m) (snd m) s = (res, s1)"
    by fastforce
  show ?case
  proof (cases res)
    case (Inr w)
    have w: "w \<le> sat_sub limit used"
      using try_service_message_bound [OF assms] t Inr by blast
    show ?thesis
      using Cons.IH [of "used + w" s1] Cons.prems t Inr plus_within(1) [OF _ w] unat_plus_within [OF Cons.prems(2) w] by simp
  qed (use Cons t in auto)
qed simp

lemma pages_weights_sum:
  assumes "dmp_executor_bounded cfg" "service_pages cfg limit used pi s = (used', pi', s')"
  shows "used \<le> limit \<longrightarrow> unat used' = unat used + sum_list (map unat (pages_weights cfg limit used pi s))"
  using assms(2)
proof (induction rule: service_pages_induct)
  case (bail used pi s u1 q s2)
  then show ?case
    using page_weights_sum [OF assms(1) bail(2)] by (simp add: pages_weights.simps [of cfg limit used pi s])
next
  case (page_done used pi s u1 s2)
  then show ?case
    using page_weights_sum [OF assms(1) page_done(2)] service_page_bound [OF assms(1) page_done(2)]
    by (simp add: pages_weights.simps [of cfg limit used pi s])
next
  case (finished used pi s)
  then show ?case by (simp add: pages_weights.simps [of cfg limit used pi s])
next
  case (stale used pi s)
  then have "\<not> begin_used pi < end_used pi" by simp
  then show ?case by (simp add: pages_weights.simps [of cfg limit used pi s])
qed

lemma inline_weights_sum:
  assumes "dmp_executor_bounded cfg"
  shows "handle_loop cfg limit config used pi None ms s = (used', pi', pg', s') \<Longrightarrow> used \<le> limit \<Longrightarrow>
    unat used' = unat used + sum_list (map unat (inline_weights cfg limit config used (overweight_count pi) ms s))"
proof (induction ms arbitrary: used pi s)
  case (Cons m ms)
  obtain res s1 where t: "try_service_message cfg (sat_sub limit used) (fst m) (snd m) s = (res, s1)"
    by fastforce
  show ?case
  proof (cases res)
    case (Inr w)
    have w: "w \<le> sat_sub limit used"
      using try_service_message_bound [OF assms] t Inr by blast
    show ?thesis
      using Cons.IH [of "used + w" pi s1] Cons.prems t Inr plus_within(1) [OF _ w] unat_plus_within [OF Cons.prems(2) w]
      by (simp add: Let_def)
  next
    case (Inl e)
    then show ?thesis
      using Cons.IH Cons.prems t by (cases e) (force simp: Let_def handle_loop_enqueue split: if_splits)
  qed
qed simp

lemma serviced_weights_sum:
  assumes "dmp_executor_bounded cfg"
  shows "unat (fst (handle_dmp_messages cfg ms limit s)) = sum_list (map unat (serviced_weights cfg ms limit s))"
proof -
  obtain used pi s1 where q: "do_service_queue cfg limit (PageIndex s) s = (used, pi, s1)" by (metis prod_cases3)
  have "unat used = sum_list (map unat (pages_weights cfg limit 0 (PageIndex s) s))"
    using pages_weights_sum [OF assms q [unfolded do_service_queue_def]] by simp
  moreover obtain used' pi' pg s2 where l: "handle_loop cfg limit (Configuration s) used pi
      (if begin_used pi < end_used pi then Some [] else None) ms s1 = (used', pi', pg, s2)" by (metis prod_cases4)
  moreover have "unat used' = unat used + (if begin_used pi < end_used pi then 0
      else sum_list (map unat (inline_weights cfg limit (Configuration s) used (overweight_count pi) ms s1)))"
    using l inline_weights_sum [OF assms _ do_service_queue_bound [OF assms q]] by (auto simp: handle_loop_enqueue split: if_splits)
  ultimately show ?thesis
    using q by (simp add: handle_dmp_messages_def serviced_weights_def Let_def split: option.split)
qed

text \<open>C22. The weight that is reported for a block's downward messages is the sum of the weights of the messages serviced,
  without wrap-around, and no more than the limit the parachain system reserved for them.\<close>

theorem handle_dmp_messages_within_limit:
  assumes "dmp_executor_bounded cfg"
  shows "unat (fst (handle_dmp_messages cfg ms limit s)) = sum_list (map unat (serviced_weights cfg ms limit s)) \<and>
    sum_list (map unat (serviced_weights cfg ms limit s)) \<le> unat limit"
  using serviced_weights_sum [OF assms, of ms limit s] dmp_handler.returns_within_limit [OF assms TrueI, of ms limit s]
  by (auto simp: word_le_nat_alt)

text \<open>An overweight message is executed at most once: after a successful call its index is
  free, so every later call for it fails; and it used no more weight than it was allowed.\<close>

theorem dmp_service_overweight_once:
  assumes "dmp_executor_bounded cfg"
    and "dmp_service_overweight cfg origin index limit s = Inr (charged, s')"
  shows "(\<exists>used. used \<le> limit \<and> charged = sat_add used 1000000 \<and>
            last (dmp_events s') = DmpOverweightServiced index used) \<and>
         dmp_service_overweight cfg origin index limit' s' = Inl (Module DmpUnknown)"
proof -
  from assms(2) obtain sent_at data used s1 where
    "dmp_overweight_origin cfg origin" and
    t: "try_service_message cfg limit sent_at data s = (Inr used, s1)" and
    "charged = sat_add used 1000000" and
    "s' = s1\<lparr>DmpOverweight := (DmpOverweight s1)(index := None),
              dmp_events := dmp_events s1 @ [DmpOverweightServiced index used]\<rparr>"
    by (rule dmp_service_overweight_OkE)
  moreover have "used \<le> limit" by (rule try_service_message_bound [OF assms(1) t])
  ultimately show ?thesis by (auto simp: dmp_service_overweight_def)
qed

text \<open>C23. In every state the pallet can reach before a counter of pages or of overweight messages is used up, the stored pages
  are exactly those between the two page indices and every overweight message has an index below the counter, so that a
  fresh index never overwrites a stored message.\<close>

theorem dmp_reachable_inv:
  assumes "dmp_executor_frames cfg" and "dmp_reachable cfg s"
  shows "dmp_inv s \<and> DmpOverweight s (overweight_count (PageIndex s)) = None"
proof -
  from assms(2) have "dmp_inv s"
  proof (induction rule: dmp_reachable.induct)
    case (dmp_start w)
    show ?case
      by (simp add: dmp_inv_def dmp_genesis_def dmp_pages_wf_def page_index_default_def)
  next
    case (dmp_idle s max_weight used s')
    then show ?case using service_queue_inv [OF assms(1)] by (simp add: dmp_on_idle_def)
  next
    case (dmp_overweight s origin index limit w s')
    then show ?case using dmp_service_overweight_inv [OF assms(1)] by blast
  next
    case (dmp_handle s ms limit used s')
    then show ?case using handle_dmp_messages_inv [OF assms(1)] by blast
  next
    case (dmp_other s es w)
    then show ?case by (simp add: dmp_inv_def dmp_pages_wf_def)
  qed
  then show ?thesis by (auto simp: dmp_inv_def)
qed

text \<open>Only a message executed inline is ever set aside as overweight.  When the message at the
  head of the queue needs more weight than the limit, handling a block leaves it where it is and
  queues every new message behind it, whatever weight it needs: no message is executed, and the
  overweight map is as the executor left it.\<close>

theorem dmp_head_of_line_blocks:
  assumes "dmp_executor_frames cfg"
    and "dmp_pages_wf (PageIndex s) s"
    and "end_used (PageIndex s) < - 1"
    and "dmp_queue (PageIndex s) s = (sent_at, data) # q"
    and "dmp_decode_all cfg data = Some v" and "dmp_try_from cfg v = Some x"
    and "dmp_execute_xcm cfg x limit s = (OutcomeError (WeightLimitReached required), s1)"
    and "max_individual (Configuration s) < required"
    and "handle_dmp_messages cfg ms limit s = (used, s')"
  shows "used = 0 \<and> dmp_queue (PageIndex s') s' = (sent_at, data) # q @ ms \<and>
    dom (DmpOverweight s') \<subseteq> dom (DmpOverweight s) \<and>
    overweight_count (PageIndex s') = overweight_count (PageIndex s)"
proof -
  have fp: "dmp_executor_frames_pages cfg" using assms(1) by (simp add: dmp_executor_frames_def)
  have svc: "spec_service cfg limit 0 (dmp_queue (PageIndex s) s) s = (0, (sent_at, data) # q, s1)"
    using assms(4-7) by (simp add: try_service_message_def)
  obtain t where "spec_handle cfg limit (max_individual (Configuration s)) (overweight_count (PageIndex s))
        (dmp_queue (PageIndex s) s) ms s =
      (used, overweight_count (PageIndex s'), dmp_queue (PageIndex s') s', t)"
    and t: "s' = t\<lparr>Pages := Pages s', PageIndex := PageIndex s'\<rparr>"
    using handle_dmp_messages_spec [OF fp assms(2,3,9)] by blast
  moreover have "DmpOverweight s' = DmpOverweight t" by (subst t) simp
  moreover have "dom (DmpOverweight s1) \<subseteq> dom (DmpOverweight s)"
    by (rule spec_service_keeps [OF assms(1) svc])
  ultimately show ?thesis using svc by (auto simp: spec_handle_def)
qed

section \<open>A concrete instance\<close>

definition toy_dmp :: "(u64, u64, bool, unit) dmp_config" where
  "toy_dmp = \<lparr>dmp_execute_xcm = toy_exec, dmp_weight_used = toy_weight_used,
     dmp_overweight_origin = (\<lambda>b. b), dmp_blake2_256 = (\<lambda>d. d),
     dmp_decode_all = toy_decode_all, dmp_try_from = Some\<rparr>"

definition toy_dmp_state :: "unit dmp_state" where
  "toy_dmp_state = (dmp_genesis ())\<lparr>
     PageIndex := \<lparr>begin_used = 3, end_used = 5, overweight_count = 1\<rparr>,
     Pages := [3 \<mapsto> [(1, [10]), (1, [20])], 4 \<mapsto> [(2, [30])]],
     DmpOverweight := [0 \<mapsto> (0, [200])],
     Configuration := \<lparr>max_individual = 100\<rparr>\<rparr>"

lemma toy_dmp_ok: "dmp_executor_bounded toy_dmp" "dmp_executor_frames toy_dmp"
  by (auto simp: dmp_executor_bounded_def dmp_executor_frames_def dmp_executor_frames_pages_def
      toy_dmp_def toy_exec_def)

lemma toy_dmp_frames_pages: "dmp_executor_frames_pages toy_dmp"
  using toy_dmp_ok(2) by (simp add: dmp_executor_frames_def)

lemma toy_dmp_wf: "dmp_pages_wf (PageIndex toy_dmp_state) toy_dmp_state"
proof -
  have "{3..<5} = {3, 4 :: u32}"
    by (auto simp: word_less_nat_alt word_le_nat_alt word_unat_eq_iff)
  then show ?thesis by (auto simp: toy_dmp_state_def dmp_pages_wf_def)
qed

definition toy_served :: "unit dmp_state" where
  "toy_served = snd (service_queue toy_dmp 35 toy_dmp_state)"

definition toy_handled :: "unit dmp_state" where
  "toy_handled = snd (handle_dmp_messages toy_dmp [(7, [40]), (7, [150]), (7, [35])] 120 toy_dmp_state)"

definition toy_blocked :: "unit dmp_state" where
  "toy_blocked = toy_dmp_state\<lparr>Pages := [3 \<mapsto> [(1, [180])], 4 \<mapsto> [(2, [30])]]\<rparr>"

lemma toy_served_eq: "service_queue toy_dmp 35 toy_dmp_state = (30, toy_served)"
proof -
  have "fst (service_queue toy_dmp 35 toy_dmp_state) = 30" by code_simp
  then show ?thesis unfolding toy_served_def by (metis prod.collapse)
qed

lemma toy_handled_eq:
  "handle_dmp_messages toy_dmp [(7, [40]), (7, [150]), (7, [35])] 120 toy_dmp_state = (100, toy_handled)"
proof -
  have "fst (handle_dmp_messages toy_dmp [(7, [40]), (7, [150]), (7, [35])] 120 toy_dmp_state) = 100"
    by code_simp
  then show ?thesis unfolding toy_handled_def by (metis prod.collapse)
qed

lemma toy_handled_queue:
  "dmp_queue (PageIndex toy_handled) toy_handled = [(7, [35])] \<and>
   DmpOverweight toy_handled 1 = Some (7, [150])"
  by code_simp

theorem service_queue_refines_witness:
  "\<exists>t. spec_service toy_dmp 35 0 [(1, [10]), (1, [20]), (2, [30])] toy_dmp_state = (30, [(2, [30])], t)
     \<and> toy_served = t\<lparr>Pages := Pages toy_served, PageIndex := PageIndex toy_served\<rparr>"
proof -
  have "dmp_queue (PageIndex toy_served) toy_served = [(2, [30])]"
    "dmp_queue (PageIndex toy_dmp_state) toy_dmp_state = [(1, [10]), (1, [20]), (2, [30])]"
    by code_simp+
  then show ?thesis
    using service_queue_refines [OF toy_dmp_frames_pages toy_dmp_wf toy_served_eq] by simp
qed

theorem handle_dmp_messages_refines_witness:
  "\<exists>t. spec_handle toy_dmp 120 100 1 [(1, [10]), (1, [20]), (2, [30])]
       [(7, [40]), (7, [150]), (7, [35])] toy_dmp_state = (100, 2, [(7, [35])], t)
     \<and> toy_handled = t\<lparr>Pages := Pages toy_handled, PageIndex := PageIndex toy_handled\<rparr>
     \<and> dmp_pages_wf (PageIndex toy_handled) toy_handled"
proof -
  have "end_used (PageIndex toy_dmp_state) < - 1" "overweight_count (PageIndex toy_handled) = 2"
    "overweight_count (PageIndex toy_dmp_state) = 1" "max_individual (Configuration toy_dmp_state) = 100"
    "dmp_queue (PageIndex toy_dmp_state) toy_dmp_state = [(1, [10]), (1, [20]), (2, [30])]"
    by code_simp+
  then show ?thesis
    using handle_dmp_messages_refines [OF toy_dmp_frames_pages toy_dmp_wf _ toy_handled_eq]
      toy_handled_queue by simp
qed

theorem handle_dmp_messages_fifo_witness:
  "suffix [(7, [35])] (dmp_queue (PageIndex toy_dmp_state) toy_dmp_state @ [(7, [40]), (7, [150]), (7, [35])])"
proof -
  have "end_used (PageIndex toy_dmp_state) < - 1" by code_simp
  then show ?thesis
    using handle_dmp_messages_fifo [OF toy_dmp_frames_pages toy_dmp_wf _ toy_handled_eq]
      toy_handled_queue by metis
qed

theorem handle_dmp_messages_within_limit_witness:
  "dmp_executor_bounded toy_dmp \<and>
   serviced_weights toy_dmp [(7, [40]), (7, [150]), (7, [35])] 120 toy_dmp_state = [10, 20, 30, 40] \<and>
   unat (fst (handle_dmp_messages toy_dmp [(7, [40]), (7, [150]), (7, [35])] 120 toy_dmp_state)) = 100"
proof -
  have "serviced_weights toy_dmp [(7, [40]), (7, [150]), (7, [35])] 120 toy_dmp_state = [10, 20, 30, 40]" by code_simp
  then show ?thesis
    using handle_dmp_messages_within_limit [OF toy_dmp_ok(1), of "[(7, [40]), (7, [150]), (7, [35])]" 120 toy_dmp_state]
      toy_dmp_ok(1) by simp
qed

theorem dmp_service_overweight_once_witness:
  "case dmp_service_overweight toy_dmp True 0 250 toy_dmp_state of
     Inr (charged, s') \<Rightarrow> charged = 1000200 \<and>
       dmp_service_overweight toy_dmp True 0 999 s' = Inl (Module DmpUnknown)
   | Inl e \<Rightarrow> False"
proof -
  have "map_sum (\<lambda>e. e) fst (dmp_service_overweight toy_dmp True 0 250 toy_dmp_state) = Inr 1000200"
    by code_simp
  then obtain s' where s': "dmp_service_overweight toy_dmp True 0 250 toy_dmp_state = Inr (1000200, s')"
    by (cases "dmp_service_overweight toy_dmp True 0 250 toy_dmp_state") auto
  then show ?thesis
    using dmp_service_overweight_once [OF toy_dmp_ok(1) s', of 999] by simp
qed

theorem dmp_reachable_inv_witness:
  "dmp_inv (snd (handle_dmp_messages toy_dmp [(7, [40]), (7, [150])] 120 (dmp_genesis ()))) \<and>
   DmpOverweight (snd (handle_dmp_messages toy_dmp [(7, [40]), (7, [150])] 120 (dmp_genesis ()))) 0 = None"
proof -
  define s where "s = snd (handle_dmp_messages toy_dmp [(7, [40]), (7, [150])] 120 (dmp_genesis ()))"
  have "end_used (PageIndex (dmp_genesis ())) < - 1"
    "unat (overweight_count (PageIndex (dmp_genesis ()))) + length [(7 :: relay_block_number, [40 :: u8]), (7, [150])] < 2 ^ 64"
    by (code_simp, simp add: dmp_genesis_def page_index_default_def)
  then have "dmp_reachable toy_dmp s"
    unfolding s_def by (intro dmp_handle [OF dmp_start _ _ prod.collapse [symmetric]])
  moreover have "overweight_count (PageIndex s) = 0" unfolding s_def by code_simp
  ultimately show ?thesis using dmp_reachable_inv [OF toy_dmp_ok(2)] s_def by metis
qed

theorem dmp_head_of_line_blocks_witness:
  "fst (handle_dmp_messages toy_dmp [(7, [40])] 120 toy_blocked) = 0 \<and>
   dmp_queue (PageIndex (snd (handle_dmp_messages toy_dmp [(7, [40])] 120 toy_blocked)))
     (snd (handle_dmp_messages toy_dmp [(7, [40])] 120 toy_blocked)) = [(1, [180]), (2, [30]), (7, [40])]"
proof -
  have wf: "dmp_pages_wf (PageIndex toy_blocked) toy_blocked"
    using toy_dmp_wf by (auto simp: toy_blocked_def toy_dmp_state_def dmp_pages_wf_def)
  have room: "end_used (PageIndex toy_blocked) < - 1" by code_simp
  have q: "dmp_queue (PageIndex toy_blocked) toy_blocked = (1, [180]) # [(2, [30])]" by code_simp
  have x: "dmp_decode_all toy_dmp [180] = Some 180" "dmp_try_from toy_dmp 180 = Some 180"
    by (simp_all add: toy_dmp_def)
  have ov: "max_individual (Configuration toy_blocked) < 180" by code_simp
  have run: "dmp_execute_xcm toy_dmp 180 120 toy_blocked =
      (OutcomeError (WeightLimitReached 180), toy_blocked)"
    by (simp add: toy_dmp_def toy_exec_def)
  show ?thesis
    using dmp_head_of_line_blocks [OF toy_dmp_ok(2) wf room q x run ov,
        OF prod.collapse [symmetric], where ms = "[(7, [40])]"] by (simp only: append.simps simp_thms)
qed

end
