(* ===== verification/Xcmp_Queue.thy ===== *)
theory Xcmp_Queue
  imports Xcm_Interface
begin

text \<open>
  The cross-chain message queue, \<^verbatim>\<open>src/pallets/xcmp-queue/src/lib.rs\<close>: its storage as the
  record \<open>xcmp_state\<close> and every operation of the pallet.  The field \<open>xcmp_world\<close> is
  the rest of the chain's state, which the channel information and the version wrapper read.  The
  XCM executor takes and returns the whole state, because a program may send messages and call
  dispatchables of this pallet.  An operation that may not return, because it panics or because
  its loop may run forever, has an option as its result.  What holds of the outbound side is
  proved in \<open>Xcmp_Outbound\<close>, of the inbound side in \<open>Xcmp_Inbound\<close>.
\<close>

section \<open>Data\<close>

datatype xcmp_message_format = ConcatenatedVersionedXcm | ConcatenatedEncodedBlob | Signals

datatype inbound_state = InOk | InSuspended

datatype outbound_state = OutOk | OutSuspended

text \<open>The orders the sources derive: the order of the declarations.\<close>

fun inbound_state_index :: "inbound_state \<Rightarrow> nat" where
  "inbound_state_index InOk = 0"
| "inbound_state_index InSuspended = 1"

instantiation inbound_state :: linorder
begin

definition less_eq_inbound_state :: "inbound_state \<Rightarrow> inbound_state \<Rightarrow> bool" where
  "less_eq_inbound_state a b \<longleftrightarrow> inbound_state_index a \<le> inbound_state_index b"

definition less_inbound_state :: "inbound_state \<Rightarrow> inbound_state \<Rightarrow> bool" where
  "less_inbound_state a b \<longleftrightarrow> inbound_state_index a < inbound_state_index b"

instance
proof
  fix x y z :: inbound_state
  show "(x < y) = (x \<le> y \<and> \<not> y \<le> x)" "x \<le> x" "x \<le> y \<or> y \<le> x"
    "x \<le> y \<Longrightarrow> y \<le> x \<Longrightarrow> x = y" "x \<le> y \<Longrightarrow> y \<le> z \<Longrightarrow> x \<le> z"
    by (cases x; cases y; cases z; simp add: less_eq_inbound_state_def less_inbound_state_def)+
qed

end

fun format_index :: "xcmp_message_format \<Rightarrow> nat" where
  "format_index ConcatenatedVersionedXcm = 0"
| "format_index ConcatenatedEncodedBlob = 1"
| "format_index Signals = 2"

lemma format_index_inject: "format_index a = format_index b \<longleftrightarrow> a = b"
  by (cases a; cases b) simp_all

instantiation xcmp_message_format :: linorder
begin

definition less_eq_xcmp_message_format :: "xcmp_message_format \<Rightarrow> xcmp_message_format \<Rightarrow> bool" where
  "less_eq_xcmp_message_format a b \<longleftrightarrow> format_index a \<le> format_index b"

definition less_xcmp_message_format :: "xcmp_message_format \<Rightarrow> xcmp_message_format \<Rightarrow> bool" where
  "less_xcmp_message_format a b \<longleftrightarrow> format_index a < format_index b"

instance
  by standard
    (auto simp: less_eq_xcmp_message_format_def less_xcmp_message_format_def format_index_inject [symmetric])

end

record inbound_channel_details =
  ic_sender :: para_id
  ic_state :: inbound_state
  message_metadata :: "(relay_block_number \<times> xcmp_message_format) list"

record outbound_channel_details =
  oc_recipient :: para_id
  oc_state :: outbound_state
  oc_signals_exist :: bool
  oc_first_index :: u16
  oc_last_index :: u16

definition outbound_channel_new :: "para_id \<Rightarrow> outbound_channel_details" where
  "outbound_channel_new r = \<lparr>oc_recipient = r, oc_state = OutOk, oc_signals_exist = False,
     oc_first_index = 0, oc_last_index = 0\<rparr>"

definition with_signals :: "outbound_channel_details \<Rightarrow> outbound_channel_details" where
  "with_signals d = d\<lparr>oc_signals_exist := True\<rparr>"

definition with_suspended_state :: "outbound_channel_details \<Rightarrow> outbound_channel_details" where
  "with_suspended_state d = d\<lparr>oc_state := OutSuspended\<rparr>"

record queue_config_data =
  suspend_threshold :: u32
  drop_threshold :: u32
  resume_threshold :: u32
  threshold_weight :: weight
  weight_restrict_decay :: weight
  xcmp_max_individual_weight :: weight

definition queue_config_default :: queue_config_data where
  "queue_config_default = \<lparr>suspend_threshold = 2, drop_threshold = 5, resume_threshold = 1,
     threshold_weight = 100000, weight_restrict_decay = 2,
     xcmp_max_individual_weight = 20 * 1000000000\<rparr>"

datatype channel_signal = Suspend | Resume

text \<open>The derived codec of a two-valued enumeration: one byte, the index of the value.\<close>

fun channel_signal_encode :: "channel_signal \<Rightarrow> bytes" where
  "channel_signal_encode Suspend = [0]"
| "channel_signal_encode Resume = [1]"

fun channel_signal_decode :: "bytes \<Rightarrow> (channel_signal \<times> bytes) option" where
  "channel_signal_decode [] = None"
| "channel_signal_decode (b # bs) =
     (if b = 0 then Some (Suspend, bs) else if b = 1 then Some (Resume, bs) else None)"

lemma channel_signal_decode_shorter:
  "channel_signal_decode bs = Some (sg, rest) \<Longrightarrow> length rest < length bs"
  by (cases bs) (auto split: if_splits)

interpretation signal_codec: scale_codec channel_signal_encode channel_signal_decode
proof
  fix a :: channel_signal and rest :: bytes
  show "channel_signal_decode (channel_signal_encode a @ rest) = Some (a, rest)" by (cases a) simp_all
qed (rule channel_signal_decode_shorter)

datatype xcmp_event =
    XcmpSuccess "bytes option" weight
  | XcmpFail "bytes option" xcm_error weight
  | XcmpBadVersion "bytes option"
  | XcmpBadFormat "bytes option"
  | UpwardMessageSent "bytes option"
  | XcmpMessageSent "bytes option"
  | XcmpOverweightEnqueued para_id relay_block_number u64 weight
  | XcmpOverweightServiced u64 weight

datatype xcmp_error = FailedToSend | BadXcmOrigin | BadXcm | BadOverweightIndex | WeightOverLimit

record 'w xcmp_state =
  InboundXcmpStatus :: "inbound_channel_details list"
  InboundXcmpMessages :: "para_id \<times> relay_block_number \<rightharpoonup> bytes"
  OutboundXcmpStatus :: "outbound_channel_details list"
  OutboundXcmpMessages :: "para_id \<times> u16 \<rightharpoonup> bytes"
  SignalMessages :: "para_id \<rightharpoonup> bytes"
  QueueConfig :: queue_config_data
  XcmpOverweight :: "u64 \<rightharpoonup> para_id \<times> relay_block_number \<times> bytes"
  OverweightCount :: u64
  QueueSuspended :: bool
  xcmp_events :: "xcmp_event list"
  xcmp_world :: 'w

definition xcmp_genesis :: "'w \<Rightarrow> 'w xcmp_state" where
  "xcmp_genesis w = \<lparr>InboundXcmpStatus = [], InboundXcmpMessages = Map.empty, OutboundXcmpStatus = [],
     OutboundXcmpMessages = Map.empty, SignalMessages = Map.empty, QueueConfig = queue_config_default,
     XcmpOverweight = Map.empty, OverweightCount = 0, QueueSuspended = False, xcmp_events = [],
     xcmp_world = w\<rparr>"

text \<open>
  The configuration of the pallet.  \<open>'m\<close> is a message to send and \<open>'u\<close> its versioned
  form; \<open>'v\<close> is a versioned message received and \<open>'x\<close> the program in it.
\<close>

record ('m, 'u, 'v, 'x, 'acc, 'w) xcmp_config =
  xcmp_execute_xcm :: "para_id \<Rightarrow> 'x \<Rightarrow> u64 \<Rightarrow> 'w xcmp_state \<Rightarrow> outcome \<times> 'w xcmp_state"
  xcmp_channel_status :: "'w \<Rightarrow> para_id \<Rightarrow> channel_status"
  xcmp_channel_max :: "'w \<Rightarrow> para_id \<Rightarrow> nat option"
  xcmp_wrap_version :: "multi_location \<Rightarrow> 'm \<Rightarrow> 'w \<Rightarrow> 'u option \<times> 'w"
  xcmp_overweight_origin :: "'acc origin \<Rightarrow> bool"
  xcmp_controller_origin :: "'acc origin \<Rightarrow> bool"
  xcmp_convert_superuser :: "para_id \<Rightarrow> 'acc origin option"
  xcmp_hash_sent :: "'u \<Rightarrow> bytes"
  xcmp_hash_received :: "'v \<Rightarrow> bytes"
  xcmp_encode_xcm :: "'u \<Rightarrow> bytes"
  xcmp_encode_blob :: "bytes \<Rightarrow> bytes"
  xcmp_decode_xcm :: "bytes \<Rightarrow> ('v \<times> bytes) option"
  xcmp_decode_all_xcm :: "bytes \<Rightarrow> 'v option"
  xcmp_decode_blob :: "bytes \<Rightarrow> (bytes \<times> bytes) option"
  xcmp_try_from :: "'v \<Rightarrow> 'x option"
  xcmp_format_encode :: "xcmp_message_format \<Rightarrow> bytes"
  xcmp_format_decode :: "bytes \<Rightarrow> (xcmp_message_format \<times> bytes) option"
  xcmp_parent_hash :: "'w \<Rightarrow> bytes"
  xcmp_next_u32 :: "bytes \<Rightarrow> nat \<Rightarrow> u32"

definition xcmp_deposit_event :: "xcmp_event \<Rightarrow> 'w xcmp_state \<Rightarrow> 'w xcmp_state" where
  "xcmp_deposit_event e s = s\<lparr>xcmp_events := xcmp_events s @ [e]\<rparr>"

text \<open>A storage map whose values default to the empty vector.\<close>

definition value_query :: "('k \<rightharpoonup> 'a list) \<Rightarrow> 'k \<Rightarrow> 'a list" where
  "value_query m k = (case m k of None \<Rightarrow> [] | Some v \<Rightarrow> v)"

section \<open>Sending\<close>

text \<open>The entry of a recipient in the outbound status, pushed if there is none.\<close>

definition find_or_push ::
  "para_id \<Rightarrow> outbound_channel_details list \<Rightarrow> outbound_channel_details \<times> outbound_channel_details list" where
  "find_or_push r ss = (case find (\<lambda>d. oc_recipient d = r) ss of
       Some d \<Rightarrow> (d, ss)
     | None \<Rightarrow> (outbound_channel_new r, ss @ [outbound_channel_new r]))"

definition send_fragment ::
  "('m, 'u, 'v, 'x, 'acc, 'w) xcmp_config \<Rightarrow> ('f \<Rightarrow> bytes) \<Rightarrow> para_id \<Rightarrow> xcmp_message_format \<Rightarrow> 'f \<Rightarrow>
     'w xcmp_state \<Rightarrow> (message_send_error, u32) result \<times> 'w xcmp_state" where
  "send_fragment cfg encode recipient fmt fragment s =
     (let data = encode fragment in
      case xcmp_channel_max cfg (xcmp_world s) recipient of
        None \<Rightarrow> (Inl NoChannel, s)
      | Some max_message_size \<Rightarrow>
          if length data > max_message_size then (Inl TooBig, s)
          else
            let (details, ss) = find_or_push recipient (OutboundXcmpStatus s);
                have_active = oc_last_index details > oc_first_index details;
                active = (recipient, oc_last_index details - 1);
                page = value_query (OutboundXcmpMessages s) active;
                appended = have_active \<and>
                  map_option fst (xcmp_format_decode cfg page) = Some fmt \<and>
                  \<not> length page + length data > max_message_size;
                s1 = (if have_active
                      then s\<lparr>OutboundXcmpMessages :=
                        (OutboundXcmpMessages s)(active \<mapsto> (if appended then page @ data else page))\<rparr>
                      else s)
            in if appended
               then (Inr (ucast (oc_last_index details - oc_first_index details - 1)), s1)
               else
                 let page_index = oc_last_index details;
                     new_page = xcmp_format_encode cfg fmt @ data;
                     ss' = modify_first (\<lambda>d. oc_recipient d = recipient)
                             (\<lambda>d. d\<lparr>oc_last_index := page_index + 1\<rparr>) ss
                 in (Inr (ucast (page_index + 1 - oc_first_index details - 1)),
                     s1\<lparr>OutboundXcmpStatus := ss',
                        OutboundXcmpMessages := (OutboundXcmpMessages s1)((recipient, page_index) \<mapsto> new_page)\<rparr>))"

definition send_signal ::
  "('m, 'u, 'v, 'x, 'acc, 'w) xcmp_config \<Rightarrow> para_id \<Rightarrow> channel_signal \<Rightarrow> 'w xcmp_state \<Rightarrow> 'w xcmp_state" where
  "send_signal cfg dest sg s =
     (let ss = OutboundXcmpStatus s;
          ss' = (if \<exists>d \<in> set ss. oc_recipient d = dest
                 then modify_first (\<lambda>d. oc_recipient d = dest) (\<lambda>d. d\<lparr>oc_signals_exist := True\<rparr>) ss
                 else ss @ [with_signals (outbound_channel_new dest)]);
          page = value_query (SignalMessages s) dest;
          page' = (if page = [] then xcmp_format_encode cfg Signals @ channel_signal_encode sg
                   else page @ channel_signal_encode sg)
      in s\<lparr>OutboundXcmpStatus := ss', SignalMessages := (SignalMessages s)(dest \<mapsto> page')\<rparr>)"

definition send_blob_message where
  "send_blob_message cfg recipient blob s =
     send_fragment cfg (xcmp_encode_blob cfg) recipient ConcatenatedEncodedBlob blob s"

definition send_xcm_message where
  "send_xcm_message cfg recipient xcm s =
     send_fragment cfg (xcmp_encode_xcm cfg) recipient ConcatenatedVersionedXcm xcm s"

definition send_xcm ::
  "('m, 'u, 'v, 'x, 'acc, 'w) xcmp_config \<Rightarrow> multi_location \<Rightarrow> 'm \<Rightarrow> 'w xcmp_state \<Rightarrow>
     ((multi_location, 'm) send_error, unit) result \<times> 'w xcmp_state" where
  "send_xcm cfg dest msg s =
     (case dest of
        MultiLocation parents interior \<Rightarrow>
          (case interior of
             [Parachain para] \<Rightarrow>
               if parents = 1 then
                 (case xcmp_wrap_version cfg dest msg (xcmp_world s) of
                    (None, w) \<Rightarrow> (Inl DestinationUnsupported, s\<lparr>xcmp_world := w\<rparr>)
                  | (Some versioned_xcm, w) \<Rightarrow>
                      let hash = xcmp_hash_sent cfg versioned_xcm in
                      (case send_fragment cfg (xcmp_encode_xcm cfg) para ConcatenatedVersionedXcm
                              versioned_xcm (s\<lparr>xcmp_world := w\<rparr>) of
                         (Inl e, s1) \<Rightarrow> (Inl (Transport (message_send_error_str e)), s1)
                       | (Inr _, s1) \<Rightarrow> (Inr (), xcmp_deposit_event (XcmpMessageSent (Some hash)) s1)))
               else (Inl (CannotReachDestination dest msg), s)
           | _ \<Rightarrow> (Inl (CannotReachDestination dest msg), s)))"

section \<open>Taking the outbound messages of a block\<close>

text \<open>Discarding what is queued for a channel that is no longer there.\<close>

definition remove_pages :: "para_id \<Rightarrow> u16 \<Rightarrow> u16 \<Rightarrow> (para_id \<times> u16 \<rightharpoonup> bytes) \<Rightarrow> (para_id \<times> u16 \<rightharpoonup> bytes)" where
  "remove_pages r lo hi m =
     fold (\<lambda>i m. m((r, of_nat i) := None)) [unat lo..<unat hi] m"

text \<open>One iteration of the loop over the channels: the entry, the message and the storage after it.\<close>

definition take_from_channel ::
  "('m, 'u, 'v, 'x, 'acc, 'w) xcmp_config \<Rightarrow> outbound_channel_details \<Rightarrow> 'w xcmp_state \<Rightarrow>
     outbound_channel_details \<times> (para_id \<times> bytes) option \<times> 'w xcmp_state" where
  "take_from_channel cfg status s =
     (let r = oc_recipient status in
      if oc_state status = OutSuspended then (status, None, s)
      else
        case xcmp_channel_status cfg (xcmp_world s) r of
          Closed \<Rightarrow>
            (outbound_channel_new r, None,
             s\<lparr>OutboundXcmpMessages :=
                  remove_pages r (oc_first_index status) (oc_last_index status) (OutboundXcmpMessages s),
               SignalMessages := (if oc_signals_exist status then (SignalMessages s)(r := None)
                                  else SignalMessages s)\<rparr>)
        | Full \<Rightarrow> (status, None, s)
        | Ready max_size_now max_size_ever \<Rightarrow>
            let taken =
              (if oc_signals_exist status then
                 let page = value_query (SignalMessages s) r in
                 if length page < max_size_now
                 then Some (page, False, oc_first_index status, s\<lparr>SignalMessages := (SignalMessages s)(r := None)\<rparr>)
                 else None
               else if oc_last_index status > oc_first_index status then
                 let page = value_query (OutboundXcmpMessages s) (r, oc_first_index status) in
                 if length page < max_size_now
                 then Some (page, False, oc_first_index status + 1,
                   s\<lparr>OutboundXcmpMessages := (OutboundXcmpMessages s)((r, oc_first_index status) := None)\<rparr>)
                 else None
               else None)
            in case taken of
                 None \<Rightarrow> (status, None, s)
               | Some (page, signals_exist, first_index, s1) \<Rightarrow>
                   let emptied = (first_index = oc_last_index status) in
                   (status\<lparr>oc_signals_exist := signals_exist,
                      oc_first_index := (if emptied then 0 else first_index),
                      oc_last_index := (if emptied then 0 else oc_last_index status)\<rparr>,
                    if length page > max_size_ever then None else Some (r, page), s1))"

fun take_loop ::
  "('m, 'u, 'v, 'x, 'acc, 'w) xcmp_config \<Rightarrow> nat \<Rightarrow> outbound_channel_details list \<Rightarrow>
     (para_id \<times> bytes) list \<Rightarrow> 'w xcmp_state \<Rightarrow>
     outbound_channel_details list \<times> (para_id \<times> bytes) list \<times> 'w xcmp_state" where
  "take_loop cfg max_message_count [] result s = ([], result, s)"
| "take_loop cfg max_message_count (status # rest) result s =
     (if length result = max_message_count then (status # rest, result, s)
      else case take_from_channel cfg status s of (status', m, s1) \<Rightarrow>
        (case take_loop cfg max_message_count rest (case m of None \<Rightarrow> result | Some x \<Rightarrow> result @ [x]) s1 of
           (rest', result', s2) \<Rightarrow> (status' # rest', result', s2)))"

definition outbound_retained :: "outbound_channel_details \<Rightarrow> bool" where
  "outbound_retained x \<longleftrightarrow> oc_state x = OutSuspended \<or> oc_signals_exist x \<or> oc_first_index x < oc_last_index x"

text \<open>
  The number of pruned channels is subtracted from the number of messages on \<^verbatim>\<open>usize\<close>:
  where it is larger the difference wraps to more than any length, and \<^verbatim>\<open>rotate_left\<close>
  panics.
\<close>

definition take_outbound_messages ::
  "('m, 'u, 'v, 'x, 'acc, 'w) xcmp_config \<Rightarrow> nat \<Rightarrow> 'w xcmp_state \<Rightarrow>
     ((para_id \<times> bytes) list \<times> 'w xcmp_state) option" where
  "take_outbound_messages cfg maximum_channels s =
     (let statuses = OutboundXcmpStatus s;
          old_statuses_len = length statuses;
          max_message_count = min (length statuses) maximum_channels in
      case take_loop cfg max_message_count statuses [] s of (statuses1, result, s1) \<Rightarrow>
        let result' = sort_key fst result;
            statuses2 = filter outbound_retained statuses1;
            pruned = old_statuses_len - length statuses2 in
        if length result' < pruned then None
        else (case rotate_left (length result' - pruned) statuses2 of
                None \<Rightarrow> None
              | Some statuses3 \<Rightarrow> Some (result', s1\<lparr>OutboundXcmpStatus := statuses3\<rparr>)))"

section \<open>Signals received\<close>

definition suspend_channel :: "para_id \<Rightarrow> 'w xcmp_state \<Rightarrow> 'w xcmp_state" where
  "suspend_channel target s =
     (let ss = OutboundXcmpStatus s in
      s\<lparr>OutboundXcmpStatus :=
        (if \<exists>d \<in> set ss. oc_recipient d = target
         then modify_first (\<lambda>d. oc_recipient d = target) (\<lambda>d. d\<lparr>oc_state := OutSuspended\<rparr>) ss
         else ss @ [with_suspended_state (outbound_channel_new target)])\<rparr>)"

definition resume_channel :: "para_id \<Rightarrow> 'w xcmp_state \<Rightarrow> 'w xcmp_state" where
  "resume_channel target s =
     (let ss = OutboundXcmpStatus s in
      case position (\<lambda>d. oc_recipient d = target) ss of
        Some index \<Rightarrow>
          s\<lparr>OutboundXcmpStatus :=
            (if oc_first_index (ss ! index) = oc_last_index (ss ! index) then remove_at index ss
             else ss[index := (ss ! index)\<lparr>oc_state := OutOk\<rparr>])\<rparr>
      | None \<Rightarrow> s)"

function handle_signals :: "para_id \<Rightarrow> bytes \<Rightarrow> 'w xcmp_state \<Rightarrow> 'w xcmp_state" where
  "handle_signals from data_ref s =
     (if data_ref = [] then s
      else case channel_signal_decode data_ref of
        Some (Suspend, rest) \<Rightarrow> handle_signals from rest (suspend_channel from s)
      | Some (Resume, rest) \<Rightarrow> handle_signals from rest (resume_channel from s)
      | None \<Rightarrow> s)"
  by pat_completeness auto
termination
  by (relation "measure (\<lambda>(from, data_ref, s). length data_ref)") (auto dest: channel_signal_decode_shorter)

declare handle_signals.simps [simp del]

section \<open>Executing inbound messages\<close>

definition create_shuffle :: "('m, 'u, 'v, 'x, 'acc, 'w) xcmp_config \<Rightarrow> nat \<Rightarrow> 'w xcmp_state \<Rightarrow> nat list" where
  "create_shuffle cfg len s =
     (let seed = take 32 (xcmp_parent_hash cfg (xcmp_world s) @ replicate 32 0) in
      fold (\<lambda>i shuffled. swap i (unat (xcmp_next_u32 cfg seed i) mod len) shuffled) [0..<len] [0..<len])"

definition handle_blob_message ::
  "para_id \<Rightarrow> relay_block_number \<Rightarrow> bytes \<Rightarrow> weight \<Rightarrow> (bool, weight) result" where
  "handle_blob_message from sent_at blob weight_limit = Inl False"

definition handle_xcm_message ::
  "('m, 'u, 'v, 'x, 'acc, 'w) xcmp_config \<Rightarrow> para_id \<Rightarrow> relay_block_number \<Rightarrow> 'v \<Rightarrow> weight \<Rightarrow> 'w xcmp_state \<Rightarrow>
     (xcm_error, weight) result \<times> 'w xcmp_state" where
  "handle_xcm_message cfg from sent_at xcm max_weight s =
     (let hash = xcmp_hash_received cfg xcm;
          ((res, event), s1) =
            (case xcmp_try_from cfg xcm of
               Some x \<Rightarrow>
                 (case xcmp_execute_xcm cfg from x max_weight s of
                    (OutcomeError e, s1) \<Rightarrow> ((Inl e, XcmpFail (Some hash) e 0), s1)
                  | (Complete w, s1) \<Rightarrow> ((Inr w, XcmpSuccess (Some hash) w), s1)
                  | (Incomplete w e, s1) \<Rightarrow> ((Inr w, XcmpFail (Some hash) e w), s1))
             | None \<Rightarrow> ((Inl UnhandledXcmVersion, XcmpBadVersion (Some hash)), s))
      in (res, xcmp_deposit_event event s1))"

definition stash_overweight ::
  "para_id \<Rightarrow> relay_block_number \<Rightarrow> bytes \<Rightarrow> 'w xcmp_state \<Rightarrow> u64 \<times> 'w xcmp_state" where
  "stash_overweight from sent_at xcm s =
     (let index = OverweightCount s in
      (index, s\<lparr>XcmpOverweight := (XcmpOverweight s)(index \<mapsto> (from, sent_at, xcm)),
                OverweightCount := index + 1\<rparr>))"

text \<open>The loops over the fragments of a page: what remains of it, the weight used, the storage.\<close>

partial_function (option) xcm_fragments ::
  "('m, 'u, 'v, 'x, 'acc, 'w) xcmp_config \<Rightarrow> para_id \<Rightarrow> relay_block_number \<Rightarrow> weight \<Rightarrow> weight \<Rightarrow>
     bytes \<Rightarrow> weight \<Rightarrow> 'w xcmp_state \<Rightarrow> (bytes \<times> weight \<times> 'w xcmp_state) option" where
  "xcm_fragments cfg from sent_at max_weight max_individual_weight remaining weight_used s =
     (if remaining = [] then Some ([], weight_used, s)
      else case xcmp_decode_xcm cfg remaining of
        None \<Rightarrow> Some ([], weight_used, s)
      | Some (xcm, rest) \<Rightarrow>
          (case handle_xcm_message cfg from sent_at xcm (max_weight - weight_used) s of
             (Inr used, s1) \<Rightarrow>
               xcm_fragments cfg from sent_at max_weight max_individual_weight rest (sat_add weight_used used) s1
           | (Inl (WeightLimitReached required), s1) \<Rightarrow>
               if required > max_individual_weight then
                 let msg_len = length remaining - length rest;
                     overweight_xcm = take msg_len remaining;
                     (index, s2) = stash_overweight from sent_at overweight_xcm s1
                 in xcm_fragments cfg from sent_at max_weight max_individual_weight rest weight_used
                      (xcmp_deposit_event (XcmpOverweightEnqueued from sent_at index required) s2)
               else if required \<le> max_weight then Some (remaining, weight_used, s1)
               else xcm_fragments cfg from sent_at max_weight max_individual_weight rest weight_used s1
           | (Inl _, s1) \<Rightarrow>
               xcm_fragments cfg from sent_at max_weight max_individual_weight rest weight_used s1))"

partial_function (option) blob_fragments ::
  "('m, 'u, 'v, 'x, 'acc, 'w) xcmp_config \<Rightarrow> para_id \<Rightarrow> relay_block_number \<Rightarrow> weight \<Rightarrow>
     bytes \<Rightarrow> weight \<Rightarrow> (bytes \<times> weight) option" where
  "blob_fragments cfg from sent_at max_weight remaining weight_used =
     (if remaining = [] then Some ([], weight_used)
      else case xcmp_decode_blob cfg remaining of
        None \<Rightarrow> Some ([], weight_used)
      | Some (blob, rest) \<Rightarrow>
          (case handle_blob_message from sent_at blob (max_weight - weight_used) of
             Inr used \<Rightarrow> blob_fragments cfg from sent_at max_weight rest (sat_add weight_used used)
           | Inl overweight \<Rightarrow>
               if overweight then Some (remaining, weight_used)
               else blob_fragments cfg from sent_at max_weight rest weight_used))"

definition process_xcmp_message ::
  "('m, 'u, 'v, 'x, 'acc, 'w) xcmp_config \<Rightarrow> para_id \<Rightarrow> relay_block_number \<times> xcmp_message_format \<Rightarrow>
     weight \<Rightarrow> weight \<Rightarrow> 'w xcmp_state \<Rightarrow> (weight \<times> bool \<times> 'w xcmp_state) option" where
  "process_xcmp_message cfg from meta max_weight max_individual_weight s =
     (let sent_at = fst meta;
          data = value_query (InboundXcmpMessages s) (from, sent_at) in
      case (case snd meta of
              ConcatenatedVersionedXcm \<Rightarrow>
                xcm_fragments cfg from sent_at max_weight max_individual_weight data 0 s
            | ConcatenatedEncodedBlob \<Rightarrow>
                map_option (\<lambda>(remaining, used). (remaining, used, s))
                  (blob_fragments cfg from sent_at max_weight data 0)
            | Signals \<Rightarrow> Some ([], 0, s)) of
        None \<Rightarrow> None
      | Some (remaining, weight_used, s1) \<Rightarrow>
          let is_empty = (remaining = []) in
          Some (weight_used, is_empty,
            s1\<lparr>InboundXcmpMessages :=
              (InboundXcmpMessages s1)((from, sent_at) := (if is_empty then None else Some remaining))\<rparr>))"

section \<open>Servicing the inbound queue\<close>

text \<open>The weight a channel may use on its next turn.\<close>

definition next_weight_available :: "weight \<Rightarrow> weight \<Rightarrow> weight \<Rightarrow> bool \<Rightarrow> weight \<Rightarrow> weight option" where
  "next_weight_available max_weight threshold decay first_round weight_available =
     (if weight_available = max_weight then Some weight_available
      else if first_round then
        if decay + 1 = 0 then None
        else let avail = weight_available + (max_weight - weight_available) div (decay + 1) in
          Some (if avail + threshold > max_weight then max_weight else avail)
      else Some max_weight)"

text \<open>The body of the loop for a channel that is not held back: process one page and resume the
  channel if its queue is short enough.\<close>

definition service_channel ::
  "('m, 'u, 'v, 'x, 'acc, 'w) xcmp_config \<Rightarrow> queue_config_data \<Rightarrow> weight \<Rightarrow> inbound_channel_details \<Rightarrow>
     'w xcmp_state \<Rightarrow> (weight \<times> inbound_channel_details \<times> 'w xcmp_state) option" where
  "service_channel cfg config weight_remaining chan s =
     (let from = ic_sender chan in
      case (case message_metadata chan of
              [] \<Rightarrow> Some (0, chan, s)
            | meta # metas \<Rightarrow>
                map_option (\<lambda>(processed, is_empty, s1).
                    (processed, if is_empty then chan\<lparr>message_metadata := metas\<rparr> else chan, s1))
                  (process_xcmp_message cfg from meta weight_remaining (xcmp_max_individual_weight config) s)) of
        None \<Rightarrow> None
      | Some (processed, chan1, s1) \<Rightarrow>
          if of_nat (length (message_metadata chan1)) \<le> resume_threshold config \<and> ic_state chan1 = InSuspended
          then Some (processed, chan1\<lparr>ic_state := InOk\<rparr>, send_signal cfg from Resume s1)
          else Some (processed, chan1, s1))"

definition sender_is_controller :: "('m, 'u, 'v, 'x, 'acc, 'w) xcmp_config \<Rightarrow> para_id \<Rightarrow> bool" where
  "sender_is_controller cfg from =
     (case xcmp_convert_superuser cfg from of None \<Rightarrow> False | Some o' \<Rightarrow> xcmp_controller_origin cfg o')"

partial_function (option) service_loop ::
  "('m, 'u, 'v, 'x, 'acc, 'w) xcmp_config \<Rightarrow> queue_config_data \<Rightarrow> bool \<Rightarrow> weight \<Rightarrow>
     inbound_channel_details list \<Rightarrow> nat list \<Rightarrow> nat \<Rightarrow> weight \<Rightarrow> weight \<Rightarrow> 'w xcmp_state \<Rightarrow>
     (weight \<times> inbound_channel_details list \<times> 'w xcmp_state) option" where
  "service_loop cfg config suspended max_weight status shuffled shuffle_index weight_used weight_available s =
     (if shuffle_index < length shuffled \<and> sat_sub max_weight weight_used \<ge> threshold_weight config then
        let index = shuffled ! shuffle_index in
        if index < length status then
          if suspended \<and> \<not> sender_is_controller cfg (ic_sender (status ! index)) then
            service_loop cfg config suspended max_weight status shuffled (shuffle_index + 1)
              weight_used weight_available s
          else
            case next_weight_available max_weight (threshold_weight config) (weight_restrict_decay config)
                   (shuffle_index < length status) weight_available of
              None \<Rightarrow> None
            | Some avail \<Rightarrow>
                (case service_channel cfg config (sat_sub avail weight_used) (status ! index) s of
                   None \<Rightarrow> None
                 | Some (processed, chan, s1) \<Rightarrow>
                     let status1 = status[index := chan] in
                     if message_metadata chan \<noteq> [] \<and> (processed > 0 \<or> avail \<noteq> max_weight) then
                       if shuffle_index + 1 = length shuffled then
                         service_loop cfg config suspended max_weight status1 shuffled shuffle_index
                           (weight_used + processed) avail s1
                       else
                         service_loop cfg config suspended max_weight status1 (shuffled @ [index])
                           (shuffle_index + 1) (weight_used + processed) avail s1
                     else
                       service_loop cfg config suspended max_weight status1 shuffled (shuffle_index + 1)
                         (weight_used + processed) avail s1)
        else None
      else Some (weight_used, status, s))"

definition service_xcmp_queue ::
  "('m, 'u, 'v, 'x, 'acc, 'w) xcmp_config \<Rightarrow> weight \<Rightarrow> 'w xcmp_state \<Rightarrow> (weight \<times> 'w xcmp_state) option" where
  "service_xcmp_queue cfg max_weight s =
     (let suspended = QueueSuspended s; status = InboundXcmpStatus s in
      if status = [] then Some (0, s)
      else
        case service_loop cfg (QueueConfig s) suspended max_weight status
               (create_shuffle cfg (length status) s) 0 0 0 s of
          None \<Rightarrow> None
        | Some (weight_used, status1, s1) \<Rightarrow>
            Some (weight_used,
              s1\<lparr>InboundXcmpStatus := filter (\<lambda>item. message_metadata item \<noteq> []) status1\<rparr>))"

definition xcmp_on_idle where
  "xcmp_on_idle cfg max_weight s = service_xcmp_queue cfg max_weight s"

section \<open>Receiving the messages of a block\<close>

definition inbound_key ::
  "inbound_channel_details \<Rightarrow> para_id \<times> inbound_state \<times> (relay_block_number \<times> xcmp_message_format) list" where
  "inbound_key d = (ic_sender d, ic_state d, message_metadata d)"

text \<open>Recording that a page was received: the status, and whether the sender is told to suspend.\<close>

definition record_received ::
  "queue_config_data \<Rightarrow> para_id \<Rightarrow> relay_block_number \<Rightarrow> xcmp_message_format \<Rightarrow> inbound_channel_details list \<Rightarrow>
     inbound_channel_details list \<times> bool" where
  "record_received config from sent_at fmt status =
     (case binary_search_by_key ic_sender status from of
        Inr i \<Rightarrow>
          let chan = status ! i;
              count = length (message_metadata chan);
              tell = (of_nat count \<ge> suspend_threshold config \<and> ic_state chan = InOk);
              chan1 = (if tell then chan\<lparr>ic_state := InSuspended\<rparr> else chan);
              chan2 = (if of_nat count < drop_threshold config
                       then chan1\<lparr>message_metadata := message_metadata chan1 @ [(sent_at, fmt)]\<rparr>
                       else chan1)
          in (status[i := chan2], tell)
      | Inl _ \<Rightarrow>
          (status @ [\<lparr>ic_sender = from, ic_state = InOk, message_metadata = [(sent_at, fmt)]\<rparr>], False))"

fun receive_messages ::
  "('m, 'u, 'v, 'x, 'acc, 'w) xcmp_config \<Rightarrow> queue_config_data \<Rightarrow> (para_id \<times> relay_block_number \<times> bytes) list \<Rightarrow>
     inbound_channel_details list \<Rightarrow> 'w xcmp_state \<Rightarrow> inbound_channel_details list \<times> 'w xcmp_state" where
  "receive_messages cfg config [] status s = (status, s)"
| "receive_messages cfg config ((from, sent_at, data) # ms) status s =
     (case xcmp_format_decode cfg data of
        None \<Rightarrow> receive_messages cfg config ms status s
      | Some (fmt, data_ref) \<Rightarrow>
          if fmt = Signals then receive_messages cfg config ms status (handle_signals from data_ref s)
          else
            case record_received config from sent_at fmt status of (status1, tell) \<Rightarrow>
              let s1 = (if tell then send_signal cfg from Suspend s else s) in
              receive_messages cfg config ms status1
                (s1\<lparr>InboundXcmpMessages := (InboundXcmpMessages s1)((from, sent_at) \<mapsto> data_ref)\<rparr>))"

definition handle_xcmp_messages ::
  "('m, 'u, 'v, 'x, 'acc, 'w) xcmp_config \<Rightarrow> (para_id \<times> relay_block_number \<times> bytes) list \<Rightarrow> weight \<Rightarrow>
     'w xcmp_state \<Rightarrow> (weight \<times> 'w xcmp_state) option" where
  "handle_xcmp_messages cfg iter max_weight s =
     (case receive_messages cfg (QueueConfig s) iter (InboundXcmpStatus s) s of
        (status, s1) \<Rightarrow>
          service_xcmp_queue cfg max_weight (s1\<lparr>InboundXcmpStatus := sort_key inbound_key status\<rparr>))"

section \<open>Dispatchables\<close>

definition xcmp_service_overweight ::
  "('m, 'u, 'v, 'x, 'acc, 'w) xcmp_config \<Rightarrow> 'acc origin \<Rightarrow> u64 \<Rightarrow> weight \<Rightarrow> 'w xcmp_state \<Rightarrow>
     (xcmp_error dispatch_error, weight \<times> 'w xcmp_state) result" where
  "xcmp_service_overweight cfg origin index weight_limit s =
     rbind (ensure (xcmp_overweight_origin cfg origin) BadOrigin) (\<lambda>_.
     rbind (ok_or (XcmpOverweight s index) (Module BadOverweightIndex)) (\<lambda>(from, sent_at, data).
     rbind (ok_or (xcmp_decode_all_xcm cfg data) (Module BadXcm)) (\<lambda>xcm.
     case handle_xcm_message cfg from sent_at xcm weight_limit s of
       (Inl _, s1) \<Rightarrow> Inl (Module WeightOverLimit)
     | (Inr used, s1) \<Rightarrow>
         (let s2 = s1\<lparr>XcmpOverweight := (XcmpOverweight s1)(index := None)\<rparr>;
              s3 = xcmp_deposit_event (XcmpOverweightServiced index used) s2
          in Inr (sat_add used 1000000, s3)))))"

definition suspend_xcm_execution where
  "suspend_xcm_execution cfg origin s =
     rbind (ensure (xcmp_controller_origin cfg origin) BadOrigin) (\<lambda>_. Inr (s\<lparr>QueueSuspended := True\<rparr>))"

definition resume_xcm_execution where
  "resume_xcm_execution cfg origin s =
     rbind (ensure (xcmp_controller_origin cfg origin) BadOrigin) (\<lambda>_. Inr (s\<lparr>QueueSuspended := False\<rparr>))"

definition update_queue_config ::
  "'acc origin \<Rightarrow> (queue_config_data \<Rightarrow> queue_config_data) \<Rightarrow> 'w xcmp_state \<Rightarrow>
     (xcmp_error dispatch_error, 'w xcmp_state) result" where
  "update_queue_config origin f s =
     rbind (ensure_root origin) (\<lambda>_. Inr (s\<lparr>QueueConfig := f (QueueConfig s)\<rparr>))"

definition update_suspend_threshold where
  "update_suspend_threshold origin new = update_queue_config origin (\<lambda>data. data\<lparr>suspend_threshold := new\<rparr>)"

definition update_drop_threshold where
  "update_drop_threshold origin new = update_queue_config origin (\<lambda>data. data\<lparr>drop_threshold := new\<rparr>)"

definition update_resume_threshold where
  "update_resume_threshold origin new = update_queue_config origin (\<lambda>data. data\<lparr>resume_threshold := new\<rparr>)"

definition update_threshold_weight where
  "update_threshold_weight origin new = update_queue_config origin (\<lambda>data. data\<lparr>threshold_weight := new\<rparr>)"

definition update_weight_restrict_decay where
  "update_weight_restrict_decay origin new =
     update_queue_config origin (\<lambda>data. data\<lparr>weight_restrict_decay := new\<rparr>)"

definition update_xcmp_max_individual_weight where
  "update_xcmp_max_individual_weight origin new =
     update_queue_config origin (\<lambda>data. data\<lparr>xcmp_max_individual_weight := new\<rparr>)"

end
