(* ===== verification/Xcmp_Outbound.thy ===== *)
theory Xcmp_Outbound
  imports Xcmp_Queue Example_Executor "HOL-Library.Sublist"
begin

text \<open>
  The outbound side of the cross-chain message queue.  Storage keeps, for each recipient, a window
  of page indices and the pages under them; \<open>out_pages\<close> reads a recipient's queue of
  pages off it.  \<open>outbound_inv\<close> is the invariant of the storage, \<open>channel_turn\<close>
  specifies what taking the messages of a block may do to one channel.
\<close>

section \<open>The queue of pages of a channel\<close>

definition chan_pages :: "outbound_channel_details \<Rightarrow> (para_id \<times> u16 \<rightharpoonup> bytes) \<Rightarrow> bytes list" where
  "chan_pages d m = map (\<lambda>i. value_query m (oc_recipient d, of_nat i))
     [unat (oc_first_index d)..<unat (oc_last_index d)]"

definition out_pages :: "para_id \<Rightarrow> 'w xcmp_state \<Rightarrow> bytes list" where
  "out_pages r s = (case find (\<lambda>d. oc_recipient d = r) (OutboundXcmpStatus s) of
       None \<Rightarrow> [] | Some d \<Rightarrow> chan_pages d (OutboundXcmpMessages s))"

definition chan_ok :: "outbound_channel_details \<Rightarrow> (para_id \<times> u16 \<rightharpoonup> bytes) \<Rightarrow> (para_id \<rightharpoonup> bytes) \<Rightarrow> bool" where
  "chan_ok d m sg \<longleftrightarrow> oc_first_index d \<le> oc_last_index d \<and>
     (\<forall>i. m (oc_recipient d, i) \<noteq> None \<longleftrightarrow> oc_first_index d \<le> i \<and> i < oc_last_index d) \<and>
     (oc_signals_exist d \<longrightarrow> sg (oc_recipient d) \<noteq> None)"

definition outbound_inv :: "'w xcmp_state \<Rightarrow> bool" where
  "outbound_inv s \<longleftrightarrow> distinct (map oc_recipient (OutboundXcmpStatus s)) \<and>
     (\<forall>d \<in> set (OutboundXcmpStatus s). outbound_retained d \<and>
        chan_ok d (OutboundXcmpMessages s) (SignalMessages s)) \<and>
     (\<forall>r i. OutboundXcmpMessages s (r, i) \<noteq> None \<longrightarrow> r \<in> oc_recipient ` set (OutboundXcmpStatus s))"

lemma outbound_invI:
  assumes "distinct (map oc_recipient (OutboundXcmpStatus s))"
    and "\<And>d. d \<in> set (OutboundXcmpStatus s) \<Longrightarrow> outbound_retained d"
    and "\<And>d. d \<in> set (OutboundXcmpStatus s) \<Longrightarrow> chan_ok d (OutboundXcmpMessages s) (SignalMessages s)"
    and "\<And>r i. OutboundXcmpMessages s (r, i) \<noteq> None \<Longrightarrow> r \<in> oc_recipient ` set (OutboundXcmpStatus s)"
  shows "outbound_inv s"
  using assms unfolding outbound_inv_def by (intro conjI ballI allI impI)

lemma outbound_invD:
  assumes "outbound_inv s"
  shows "distinct (map oc_recipient (OutboundXcmpStatus s))"
    and "d \<in> set (OutboundXcmpStatus s) \<Longrightarrow> outbound_retained d"
    and "d \<in> set (OutboundXcmpStatus s) \<Longrightarrow> chan_ok d (OutboundXcmpMessages s) (SignalMessages s)"
    and "r \<notin> oc_recipient ` set (OutboundXcmpStatus s) \<Longrightarrow> OutboundXcmpMessages s (r, i) = None"
  using assms unfolding outbound_inv_def by metis+

lemma value_query_upd [simp]:
  "value_query (m(k := v)) k' = (if k' = k then (case v of None \<Rightarrow> [] | Some x \<Rightarrow> x) else value_query m k')"
  by (simp add: value_query_def)

lemma chan_pages_cong:
  "(\<And>i. m (oc_recipient d, i) = m' (oc_recipient d, i)) \<Longrightarrow> chan_pages d m = chan_pages d m'"
  by (simp add: chan_pages_def value_query_def)

lemma chan_pages_upd_other [simp]:
  "oc_recipient d \<noteq> r \<Longrightarrow> chan_pages d (m((r, i) := v)) = chan_pages d m"
  by (rule chan_pages_cong) auto

lemma length_chan_pages [simp]:
  "length (chan_pages d m) = unat (oc_last_index d) - unat (oc_first_index d)"
  by (simp add: chan_pages_def)

lemma chan_pages_empty: "oc_last_index d \<le> oc_first_index d \<Longrightarrow> chan_pages d m = []"
  by (simp add: chan_pages_def word_le_nat_alt)

lemma chan_pages_Cons:
  assumes "oc_first_index d < oc_last_index d"
  shows "chan_pages d m = value_query m (oc_recipient d, oc_first_index d) #
           chan_pages (d\<lparr>oc_first_index := oc_first_index d + 1\<rparr>) m"
  using assms word_Suc_le(1) [OF assms]
  by (simp add: chan_pages_def upt_conv_Cons word_less_nat_alt)

lemma chan_pages_upd_outside:
  assumes "\<not> (oc_first_index d \<le> i \<and> i < oc_last_index d)"
  shows "chan_pages d (m((r, i) := v)) = chan_pages d m"
proof -
  have "(of_nat j :: u16) \<noteq> i" if "unat (oc_first_index d) \<le> j" "j < unat (oc_last_index d)" for j
  proof
    assume "of_nat j = i"
    with unat_of_nat_below [OF that(2)] have "unat i = j" by simp
    with that assms show False by (simp add: word_le_nat_alt word_less_nat_alt)
  qed
  then show ?thesis by (auto simp: chan_pages_def)
qed

section \<open>One channel's turn\<close>

text \<open>
  What taking the messages of a block may do to a channel, given its entry \<open>d\<close>, its queue
  of pages and its page of signals: nothing; discard everything because the channel is closed;
  take the signals; or take the first page.  What is taken is sent unless it is larger than the
  channel will ever accept.
\<close>

definition sendable :: "para_id \<Rightarrow> nat \<Rightarrow> bytes \<Rightarrow> (para_id \<times> bytes) option" where
  "sendable r max_size_ever page = (if length page > max_size_ever then None else Some (r, page))"

inductive channel_turn ::
  "(para_id \<Rightarrow> channel_status) \<Rightarrow> outbound_channel_details \<Rightarrow> bytes list \<Rightarrow> bytes option \<Rightarrow>
     (para_id \<times> bytes) option \<Rightarrow> outbound_channel_details \<Rightarrow> bytes list \<Rightarrow> bytes option \<Rightarrow> bool"
  for chan d where
  turn_skip: "channel_turn chan d pages sg None d pages sg"
| turn_closed: "oc_state d = OutOk \<Longrightarrow> chan (oc_recipient d) = Closed \<Longrightarrow>
    sg' = (if oc_signals_exist d then None else sg) \<Longrightarrow>
    channel_turn chan d pages sg None (outbound_channel_new (oc_recipient d)) [] sg'"
| turn_signals: "oc_state d = OutOk \<Longrightarrow> chan (oc_recipient d) = Ready n e \<Longrightarrow> oc_signals_exist d \<Longrightarrow>
    length page < n \<Longrightarrow> sg = Some page \<Longrightarrow> oc_recipient d' = oc_recipient d \<Longrightarrow> oc_state d' = OutOk \<Longrightarrow>
    \<not> oc_signals_exist d' \<Longrightarrow>
    channel_turn chan d pages sg (sendable (oc_recipient d) e page) d' pages None"
| turn_page: "oc_state d = OutOk \<Longrightarrow> chan (oc_recipient d) = Ready n e \<Longrightarrow> \<not> oc_signals_exist d \<Longrightarrow>
    length page < n \<Longrightarrow> oc_recipient d' = oc_recipient d \<Longrightarrow> oc_state d' = OutOk \<Longrightarrow>
    \<not> oc_signals_exist d' \<Longrightarrow>
    channel_turn chan d (page # pages) sg (sendable (oc_recipient d) e page) d' pages sg"

lemma remove_pages_apply:
  "remove_pages r lo hi m (r', i) = (if r' = r \<and> lo \<le> i \<and> i < hi then None else m (r', i))"
proof -
  have 1: "fold (\<lambda>i m. m((r, of_nat i) := None)) is m (r', i) =
      (if r' = r \<and> i \<in> of_nat ` set is then None else m (r', i))" for "is" and m :: "para_id \<times> u16 \<rightharpoonup> bytes"
    by (induction "is" arbitrary: m) auto
  have "i \<in> of_nat ` {unat lo..<unat hi} \<longleftrightarrow> lo \<le> i \<and> i < hi"
  proof
    assume "i \<in> of_nat ` {unat lo..<unat hi}"
    then obtain j where "i = of_nat j" "unat lo \<le> j" "j < unat hi" by auto
    with unat_of_nat_below [of j hi] show "lo \<le> i \<and> i < hi"
      by (simp add: word_le_nat_alt word_less_nat_alt)
  next
    assume "lo \<le> i \<and> i < hi"
    then show "i \<in> of_nat ` {unat lo..<unat hi}"
      by (intro image_eqI [of _ _ "unat i"]) (auto simp: word_le_nat_alt word_less_nat_alt)
  qed
  with 1 show ?thesis by (simp add: remove_pages_def)
qed

lemma chan_ok_pop:
  assumes ok: "chan_ok d m sg" and lt: "oc_first_index d < oc_last_index d"
    and d': "oc_recipient d' = oc_recipient d" "\<not> oc_signals_exist d'"
      "oc_first_index d' = (if oc_first_index d + 1 = oc_last_index d then 0 else oc_first_index d + 1)"
      "oc_last_index d' = (if oc_first_index d + 1 = oc_last_index d then 0 else oc_last_index d)"
    and m': "m' = m((oc_recipient d, oc_first_index d) := None)"
  shows "chan_ok d' m' sg"
    and "chan_pages d m = value_query m (oc_recipient d, oc_first_index d) # chan_pages d' m'"
proof -
  have step: "unat (oc_first_index d + 1) = Suc (unat (oc_first_index d))" "oc_first_index d + 1 \<le> oc_last_index d"
    using word_Suc_le [OF lt] by auto
  have gt: "oc_first_index d + 1 \<le> i \<longleftrightarrow> oc_first_index d \<le> i \<and> i \<noteq> oc_first_index d" for i
    using step by (auto simp: word_le_nat_alt word_unat_eq_iff)
  have dom': "m' (oc_recipient d, i) \<noteq> None \<longleftrightarrow> oc_first_index d + 1 \<le> i \<and> i < oc_last_index d" for i
    using ok unfolding m' gt by (auto simp: chan_ok_def)
  show "chan_ok d' m' sg"
  proof (cases "oc_first_index d + 1 = oc_last_index d")
    case True
    then have "m' (oc_recipient d, i) = None" for i using dom' [of i] by auto
    with True d' show ?thesis by (simp add: chan_ok_def)
  next
    case False
    with dom' d' step(2) show ?thesis by (simp add: chan_ok_def)
  qed
  have "chan_pages d' m' = chan_pages (d\<lparr>oc_first_index := oc_first_index d + 1\<rparr>) m'"
    using d' by (auto simp: chan_pages_def)
  also have "\<dots> = chan_pages (d\<lparr>oc_first_index := oc_first_index d + 1\<rparr>) m"
    unfolding m' by (rule chan_pages_upd_outside) (simp add: gt)
  finally show "chan_pages d m = value_query m (oc_recipient d, oc_first_index d) # chan_pages d' m'"
    using chan_pages_Cons [OF lt] by simp
qed

text \<open>A turn between two states of the pallet that leaves the channel in order.\<close>

definition good_turn where
  "good_turn cfg d s d' msg s' \<longleftrightarrow>
     channel_turn (xcmp_channel_status cfg (xcmp_world s)) d
       (chan_pages d (OutboundXcmpMessages s)) (SignalMessages s (oc_recipient d)) msg
       d' (chan_pages d' (OutboundXcmpMessages s')) (SignalMessages s' (oc_recipient d)) \<and>
     chan_ok d' (OutboundXcmpMessages s') (SignalMessages s')"

lemma good_turn_closed:
  assumes "take_from_channel cfg d s = (d', msg, s')" "chan_ok d (OutboundXcmpMessages s) (SignalMessages s)"
    and closed: "oc_state d = OutOk" "xcmp_channel_status cfg (xcmp_world s) (oc_recipient d) = Closed"
  shows "good_turn cfg d s d' msg s'"
proof -
  let ?d = "outbound_channel_new (oc_recipient d)"
  have eqs: "d' = ?d" "msg = None"
      "OutboundXcmpMessages s' = remove_pages (oc_recipient d) (oc_first_index d) (oc_last_index d) (OutboundXcmpMessages s)"
      "SignalMessages s' (oc_recipient d) = (if oc_signals_exist d then None else SignalMessages s (oc_recipient d))"
    using assms(1) closed by (auto simp: take_from_channel_def Let_def)
  have "OutboundXcmpMessages s' (oc_recipient d, i) = None" for i
    using assms(2) unfolding eqs remove_pages_apply by (auto simp: chan_ok_def)
  then have "chan_ok d' (OutboundXcmpMessages s') (SignalMessages s')" by (simp add: eqs(1) chan_ok_def outbound_channel_new_def)
  moreover have "chan_pages ?d (OutboundXcmpMessages s') = []"
    by (rule chan_pages_empty) (simp add: outbound_channel_new_def)
  ultimately show ?thesis
    using turn_closed [where chan = "xcmp_channel_status cfg (xcmp_world s)" and d = d, OF closed eqs(4)] eqs(1,2)
    by (simp add: good_turn_def)
qed

lemma good_turn_signals:
  assumes "take_from_channel cfg d s = (d', msg, s')" "chan_ok d (OutboundXcmpMessages s) (SignalMessages s)"
    and ready: "oc_state d = OutOk" "xcmp_channel_status cfg (xcmp_world s) (oc_recipient d) = Ready n e"
    and signals: "oc_signals_exist d" "SignalMessages s (oc_recipient d) = Some page" "length page < n"
  shows "good_turn cfg d s d' msg s'"
proof -
  have m: "msg = sendable (oc_recipient d) e page" "OutboundXcmpMessages s' = OutboundXcmpMessages s"
    and d': "oc_recipient d' = oc_recipient d" "oc_state d' = OutOk" "\<not> oc_signals_exist d'"
    and sg: "SignalMessages s' = (SignalMessages s)(oc_recipient d := None)"
    and idx: "oc_first_index d' = (if oc_first_index d = oc_last_index d then 0 else oc_first_index d)"
      "oc_last_index d' = (if oc_first_index d = oc_last_index d then 0 else oc_last_index d)"
    using assms(1) ready signals
    by (auto simp: take_from_channel_def value_query_def Let_def sendable_def split: if_splits)
  have "chan_pages d' (OutboundXcmpMessages s') = chan_pages d (OutboundXcmpMessages s)"
    using idx d' m(2) by (auto simp: chan_pages_def)
  moreover have "chan_ok d' (OutboundXcmpMessages s') (SignalMessages s')" using assms(2) d' m(2) idx by (auto simp: chan_ok_def)
  ultimately show ?thesis
    using turn_signals [where chan = "xcmp_channel_status cfg (xcmp_world s)" and d = d, OF ready signals(1,3,2) d'] m(1) sg
    by (simp add: good_turn_def)
qed

lemma good_turn_page:
  assumes "take_from_channel cfg d s = (d', msg, s')" "chan_ok d (OutboundXcmpMessages s) (SignalMessages s)"
    and ready: "oc_state d = OutOk" "xcmp_channel_status cfg (xcmp_world s) (oc_recipient d) = Ready n e"
    and page: "\<not> oc_signals_exist d" "oc_first_index d < oc_last_index d"
      "length (value_query (OutboundXcmpMessages s) (oc_recipient d, oc_first_index d)) < n"
  shows "good_turn cfg d s d' msg s'"
proof -
  define p where "p = value_query (OutboundXcmpMessages s) (oc_recipient d, oc_first_index d)"
  have m: "msg = sendable (oc_recipient d) e p"
      "OutboundXcmpMessages s' = (OutboundXcmpMessages s)((oc_recipient d, oc_first_index d) := None)"
    and d': "oc_recipient d' = oc_recipient d" "oc_state d' = OutOk" "\<not> oc_signals_exist d'"
    and sg: "SignalMessages s' = SignalMessages s"
    and idx: "oc_first_index d' = (if oc_first_index d + 1 = oc_last_index d then 0 else oc_first_index d + 1)"
      "oc_last_index d' = (if oc_first_index d + 1 = oc_last_index d then 0 else oc_last_index d)"
    using assms(1) ready page
    by (auto simp: take_from_channel_def Let_def sendable_def p_def split: if_splits)
  note pop = chan_ok_pop [OF assms(2) page(2) d'(1,3) idx m(2)]
  show ?thesis
    using pop turn_page [where chan = "xcmp_channel_status cfg (xcmp_world s)" and d = d, OF ready page(1) page(3) d'] m(1) sg p_def
    by (simp add: good_turn_def)
qed

lemma good_turn_skip: "chan_ok d (OutboundXcmpMessages s) (SignalMessages s) \<Longrightarrow> good_turn cfg d s d None s"
  by (simp add: good_turn_def turn_skip)

lemma take_from_channel_turn:
  assumes "take_from_channel cfg d s = (d', msg, s')" "chan_ok d (OutboundXcmpMessages s) (SignalMessages s)"
  shows "good_turn cfg d s d' msg s'"
proof -
  note turn = assms
  consider (closed) "oc_state d = OutOk" "xcmp_channel_status cfg (xcmp_world s) (oc_recipient d) = Closed"
    | (signals) n e page where "oc_state d = OutOk" "xcmp_channel_status cfg (xcmp_world s) (oc_recipient d) = Ready n e"
        "oc_signals_exist d" "SignalMessages s (oc_recipient d) = Some page" "length page < n"
    | (page) n e where "oc_state d = OutOk" "xcmp_channel_status cfg (xcmp_world s) (oc_recipient d) = Ready n e"
        "\<not> oc_signals_exist d" "oc_first_index d < oc_last_index d"
        "length (value_query (OutboundXcmpMessages s) (oc_recipient d, oc_first_index d)) < n"
    | (skip) "(d', msg, s') = (d, None, s)"
    using turn
    by (cases "oc_state d"; cases "xcmp_channel_status cfg (xcmp_world s) (oc_recipient d)")
      (auto simp: take_from_channel_def chan_ok_def value_query_def Let_def split: if_splits option.splits)
  then show ?thesis
    by cases (use good_turn_closed [OF turn] good_turn_signals [OF turn] good_turn_page [OF turn] good_turn_skip [OF turn(2)] in auto)
qed

lemma take_from_channel_frame:
  assumes "take_from_channel cfg d s = (d', msg, s')"
  shows "s' = s\<lparr>OutboundXcmpMessages := OutboundXcmpMessages s', SignalMessages := SignalMessages s'\<rparr>"
    and "r \<noteq> oc_recipient d \<Longrightarrow> OutboundXcmpMessages s' (r, i) = OutboundXcmpMessages s (r, i)"
    and "r \<noteq> oc_recipient d \<Longrightarrow> SignalMessages s' r = SignalMessages s r"
    and "oc_recipient d' = oc_recipient d"
    and "xcmp_world s' = xcmp_world s"
  using assms
  by (auto simp: take_from_channel_def Let_def remove_pages_apply outbound_channel_new_def
      split: if_splits channel_status.splits)

section \<open>All channels' turns\<close>

definition turn_between where
  "turn_between chan s s' d x \<longleftrightarrow>
     channel_turn chan d (chan_pages d (OutboundXcmpMessages s)) (SignalMessages s (oc_recipient d)) (snd x)
       (fst x) (chan_pages (fst x) (OutboundXcmpMessages s')) (SignalMessages s' (oc_recipient d)) \<and>
     chan_ok (fst x) (OutboundXcmpMessages s') (SignalMessages s') \<and> oc_recipient (fst x) = oc_recipient d"

definition sent :: "(outbound_channel_details \<times> (para_id \<times> bytes) option) list \<Rightarrow> (para_id \<times> bytes) list" where
  "sent xs = List.map_filter snd xs"

lemma sent_simps [simp]:
  "sent [] = []" "sent ((d, None) # xs) = sent xs" "sent ((d, Some m) # xs) = m # sent xs"
  by (simp_all add: sent_def map_filter_simps)

lemma chan_ok_cong:
  assumes "\<And>i. m (oc_recipient d, i) = m' (oc_recipient d, i)" "sg (oc_recipient d) = sg' (oc_recipient d)"
  shows "chan_ok d m sg \<longleftrightarrow> chan_ok d m' sg'"
  using assms by (simp add: chan_ok_def)

lemma turn_between_skip:
  "chan_ok d (OutboundXcmpMessages s) (SignalMessages s) \<Longrightarrow> turn_between chan s s d (d, None)"
  by (simp add: turn_between_def turn_skip)

lemma turn_between_frame:
  assumes "\<And>i. OutboundXcmpMessages s (oc_recipient d, i) = OutboundXcmpMessages s0 (oc_recipient d, i)"
    and "\<And>i. OutboundXcmpMessages s' (oc_recipient d, i) = OutboundXcmpMessages s1 (oc_recipient d, i)"
    and "SignalMessages s (oc_recipient d) = SignalMessages s0 (oc_recipient d)"
    and "SignalMessages s' (oc_recipient d) = SignalMessages s1 (oc_recipient d)"
    and "turn_between chan s0 s1 d x"
  shows "turn_between chan s s' d x"
proof -
  have r: "oc_recipient (fst x) = oc_recipient d" using assms(5) by (simp add: turn_between_def)
  have "chan_pages d (OutboundXcmpMessages s) = chan_pages d (OutboundXcmpMessages s0)"
    "chan_pages (fst x) (OutboundXcmpMessages s') = chan_pages (fst x) (OutboundXcmpMessages s1)"
    using assms(1,2) r by (auto intro: chan_pages_cong)
  moreover have "chan_ok (fst x) (OutboundXcmpMessages s') (SignalMessages s')
      \<longleftrightarrow> chan_ok (fst x) (OutboundXcmpMessages s1) (SignalMessages s1)"
    using assms(2,4) r by (intro chan_ok_cong) auto
  ultimately show ?thesis using assms(3-5) by (simp add: turn_between_def)
qed

lemma all_skipped:
  assumes "\<And>d. d \<in> set ss \<Longrightarrow> chan_ok d (OutboundXcmpMessages s) (SignalMessages s)"
  shows "\<exists>xs. map fst xs = ss \<and> sent xs = [] \<and> list_all2 (turn_between chan s s) ss xs"
proof (intro exI conjI)
  let ?xs = "map (\<lambda>d. (d, None)) ss"
  show "map fst ?xs = ss" "sent ?xs = []" by (simp_all add: sent_def map_filter_def comp_def)
  show "list_all2 (turn_between chan s s) ss ?xs"
    using assms by (simp add: list_all2_conv_all_nth turn_between_skip)
qed

lemma turn_between_Cons:
  assumes one: "take_from_channel cfg d s = (d', m, s1)" and ok: "chan_ok d (OutboundXcmpMessages s) (SignalMessages s)"
    and fresh: "oc_recipient d \<notin> oc_recipient ` set ds"
    and rest: "list_all2 (turn_between (xcmp_channel_status cfg (xcmp_world s)) s1 s') ds xs"
    and same: "\<And>r i. r \<notin> oc_recipient ` set ds \<Longrightarrow> OutboundXcmpMessages s' (r, i) = OutboundXcmpMessages s1 (r, i)"
      "\<And>r. r \<notin> oc_recipient ` set ds \<Longrightarrow> SignalMessages s' r = SignalMessages s1 r"
  shows "list_all2 (turn_between (xcmp_channel_status cfg (xcmp_world s)) s s') (d # ds) ((d', m) # xs)"
proof -
  note frame = take_from_channel_frame [OF one]
  have "turn_between (xcmp_channel_status cfg (xcmp_world s)) s s1 d (d', m)"
    using take_from_channel_turn [OF one ok] frame(4) by (simp add: turn_between_def good_turn_def)
  then have "turn_between (xcmp_channel_status cfg (xcmp_world s)) s s' d (d', m)"
    using same fresh by (intro turn_between_frame [of s d s s' s1]) simp_all
  moreover have "list_all2 (turn_between (xcmp_channel_status cfg (xcmp_world s)) s s') ds xs"
    using rest
  proof (rule list.rel_mono_strong)
    fix e x assume "e \<in> set ds" "turn_between (xcmp_channel_status cfg (xcmp_world s)) s1 s' e x"
    moreover from this(1) have "oc_recipient e \<noteq> oc_recipient d" using fresh by (metis image_eqI)
    ultimately show "turn_between (xcmp_channel_status cfg (xcmp_world s)) s s' e x"
      using frame(2,3) by (intro turn_between_frame [of s e s1 s' s']) simp_all
  qed
  ultimately show ?thesis by simp
qed

lemma take_loop_turns:
  assumes "take_loop cfg k ss res s = (ss', res', s')"
    and "distinct (map oc_recipient ss)"
    and "\<And>d. d \<in> set ss \<Longrightarrow> chan_ok d (OutboundXcmpMessages s) (SignalMessages s)"
  shows "\<exists>xs. ss' = map fst xs \<and> res' = res @ sent xs \<and>
      list_all2 (turn_between (xcmp_channel_status cfg (xcmp_world s)) s s') ss xs \<and>
      s' = s\<lparr>OutboundXcmpMessages := OutboundXcmpMessages s', SignalMessages := SignalMessages s'\<rparr> \<and>
      (\<forall>r. r \<notin> oc_recipient ` set ss \<longrightarrow> (\<forall>i. OutboundXcmpMessages s' (r, i) = OutboundXcmpMessages s (r, i)) \<and>
         SignalMessages s' r = SignalMessages s r) \<and>
      (length res \<le> k \<longrightarrow> length res' \<le> k)"
  using assms
proof (induction ss arbitrary: res s ss')
  case Nil
  then show ?case by (auto intro!: exI [of _ "[]"])
next
  case (Cons d ds)
  show ?case
  proof (cases "length res = k")
    case True
    then have eqs: "ss' = d # ds" "res' = res" "s' = s" using Cons.prems(1) by auto
    obtain xs where "map fst xs = d # ds" "sent xs = []"
        "list_all2 (turn_between (xcmp_channel_status cfg (xcmp_world s)) s s) (d # ds) xs"
      using all_skipped [of "d # ds" s "xcmp_channel_status cfg (xcmp_world s)"] Cons.prems(3) by metis
    then show ?thesis unfolding eqs using True by (intro exI [of _ xs]) simp
  next
    case False
    obtain d' m s1 where one: "take_from_channel cfg d s = (d', m, s1)" by (metis prod_cases3)
    define res1 where "res1 = (case m of None \<Rightarrow> res | Some x \<Rightarrow> res @ [x])"
    obtain ds' where rest: "take_loop cfg k ds res1 s1 = (ds', res', s')" and ss': "ss' = d' # ds'"
      using Cons.prems(1) one False by (auto simp: res1_def split: prod.splits)
    note frame = take_from_channel_frame [OF one]
    have w: "xcmp_world s1 = xcmp_world s" by (subst frame(1)) simp
    have d_notin: "oc_recipient d \<notin> oc_recipient ` set ds" using Cons.prems(2) by auto
    have ne: "oc_recipient e \<noteq> oc_recipient d" if "e \<in> set ds" for e
      using that d_notin by (metis image_eqI)
    have ok1: "chan_ok e (OutboundXcmpMessages s1) (SignalMessages s1)" if "e \<in> set ds" for e
      using ne [OF that] frame(2,3) Cons.prems(3) that
        chan_ok_cong [of "OutboundXcmpMessages s1" e "OutboundXcmpMessages s"] by auto
    obtain xs where xs: "ds' = map fst xs" "res' = res1 @ sent xs"
        "list_all2 (turn_between (xcmp_channel_status cfg (xcmp_world s)) s1 s') ds xs"
        "s' = s1\<lparr>OutboundXcmpMessages := OutboundXcmpMessages s', SignalMessages := SignalMessages s'\<rparr>"
        "\<And>r i. r \<notin> oc_recipient ` set ds \<Longrightarrow> OutboundXcmpMessages s' (r, i) = OutboundXcmpMessages s1 (r, i)"
        "\<And>r. r \<notin> oc_recipient ` set ds \<Longrightarrow> SignalMessages s' r = SignalMessages s1 r"
        "length res1 \<le> k \<longrightarrow> length res' \<le> k"
      using Cons.IH [OF rest _ ok1] Cons.prems(2) unfolding w by auto
    have "list_all2 (turn_between (xcmp_channel_status cfg (xcmp_world s)) s s') (d # ds) ((d', m) # xs)"
      using Cons.prems(3) by (intro turn_between_Cons [OF one _ d_notin xs(3,5,6)]) simp_all
    moreover have "s' = s\<lparr>OutboundXcmpMessages := OutboundXcmpMessages s', SignalMessages := SignalMessages s'\<rparr>"
      by (subst xs(4), subst frame(1)) simp
    moreover have "res1 @ sent xs = res @ sent ((d', m) # xs)" by (cases m) (simp_all add: res1_def)
    moreover have "length res \<le> k \<Longrightarrow> length res1 \<le> k" using False by (auto simp: res1_def split: option.split)
    ultimately show ?thesis
      using xs frame(2,3) ss' by (intro exI [of _ "(d', m) # xs"]) auto
  qed
qed

lemma sent_recipients:
  "list_all2 (turn_between chan s s') ss xs \<Longrightarrow> subseq (map fst (sent xs)) (map oc_recipient ss)"
proof (induction rule: list_all2_induct)
  case (Cons d ds x xs)
  have "snd x = Some m \<Longrightarrow> fst m = oc_recipient d" for m
    using Cons(1) unfolding turn_between_def
    by (auto elim!: channel_turn.cases simp: sendable_def split: if_splits)
  with Cons show ?case by (cases x; cases "snd x") auto
qed simp

definition all_turns where
  "all_turns cfg n s ms s' xs \<longleftrightarrow>
     list_all2 (turn_between (xcmp_channel_status cfg (xcmp_world s)) s s') (OutboundXcmpStatus s) xs \<and>
     distinct (map oc_recipient (map fst xs)) \<and>
     ms = sort_key fst (sent xs) \<and> length (sent xs) \<le> n \<and>
     mset (OutboundXcmpStatus s') = mset (filter outbound_retained (map fst xs)) \<and>
     (\<forall>r. r \<notin> oc_recipient ` set (OutboundXcmpStatus s) \<longrightarrow>
        (\<forall>i. OutboundXcmpMessages s' (r, i) = OutboundXcmpMessages s (r, i)) \<and> SignalMessages s' r = SignalMessages s r) \<and>
     s' = s\<lparr>OutboundXcmpStatus := OutboundXcmpStatus s', OutboundXcmpMessages := OutboundXcmpMessages s',
       SignalMessages := SignalMessages s'\<rparr>"

lemma all_turnsD:
  assumes "all_turns cfg n s ms s' xs"
  shows "list_all2 (turn_between (xcmp_channel_status cfg (xcmp_world s)) s s') (OutboundXcmpStatus s) xs"
    and "distinct (map oc_recipient (map fst xs))"
    and "ms = sort_key fst (sent xs)" and "length (sent xs) \<le> n"
    and "mset (OutboundXcmpStatus s') = mset (filter outbound_retained (map fst xs))"
    and "r \<notin> oc_recipient ` set (OutboundXcmpStatus s) \<Longrightarrow>
      OutboundXcmpMessages s' (r, i) = OutboundXcmpMessages s (r, i)"
    and "set (OutboundXcmpStatus s') = {d \<in> fst ` set xs. outbound_retained d}"
    and "r \<notin> oc_recipient ` set (OutboundXcmpStatus s) \<Longrightarrow> SignalMessages s' r = SignalMessages s r"
  using assms mset_eq_setD [of "OutboundXcmpStatus s'" "filter outbound_retained (map fst xs)"]
  by (auto simp: all_turns_def)

lemma take_outbound_messages_turns:
  assumes "outbound_inv s" "take_outbound_messages cfg n s = Some (ms, s')"
  shows "\<exists>xs. all_turns cfg n s ms s' xs"
proof -
  let ?k = "min (length (OutboundXcmpStatus s)) n"
  obtain ss1 res s1 where loop: "take_loop cfg ?k (OutboundXcmpStatus s) [] s = (ss1, res, s1)"
    by (metis prod_cases3)
  define rot where "rot = length res - (length (OutboundXcmpStatus s) - length (filter outbound_retained ss1))"
  obtain ss3 where ss3: "rotate_left rot (filter outbound_retained ss1) = Some ss3"
      and ms: "ms = sort_key fst res" and s': "s' = s1\<lparr>OutboundXcmpStatus := ss3\<rparr>"
    using assms(2) loop
    by (auto simp: take_outbound_messages_def Let_def rot_def split: if_splits option.splits)
  obtain xs where xs: "ss1 = map fst xs" "res = sent xs"
      "list_all2 (turn_between (xcmp_channel_status cfg (xcmp_world s)) s s1) (OutboundXcmpStatus s) xs"
      "s1 = s\<lparr>OutboundXcmpMessages := OutboundXcmpMessages s1, SignalMessages := SignalMessages s1\<rparr>"
      "\<forall>r. r \<notin> oc_recipient ` set (OutboundXcmpStatus s) \<longrightarrow>
         (\<forall>i. OutboundXcmpMessages s1 (r, i) = OutboundXcmpMessages s (r, i)) \<and> SignalMessages s1 r = SignalMessages s r"
      "length res \<le> ?k"
    using take_loop_turns [OF loop] assms(1) by (auto simp: outbound_inv_def)
  have m: "mset ss3 = mset (filter outbound_retained ss1)"
    by (rule rotate_left_mset [OF ss3])
  show ?thesis unfolding all_turns_def
  proof (intro exI [of _ xs] conjI)
    show "list_all2 (turn_between (xcmp_channel_status cfg (xcmp_world s)) s s') (OutboundXcmpStatus s) xs"
      using xs(3) by (rule list_all2_mono) (simp add: s' turn_between_def)
    have "map (oc_recipient \<circ> fst) xs = map oc_recipient (OutboundXcmpStatus s)"
      using xs(3) by (rule list_all2_map_eq) (simp add: turn_between_def)
    then show "distinct (map oc_recipient (map fst xs))" using assms(1) by (simp add: outbound_inv_def)
    show "s' = s\<lparr>OutboundXcmpStatus := OutboundXcmpStatus s', OutboundXcmpMessages := OutboundXcmpMessages s',
       SignalMessages := SignalMessages s'\<rparr>"
      unfolding s' by (subst xs(4)) simp
  qed (use m xs ms s' in auto)
qed

lemma turn_sentD:
  assumes "channel_turn chan d pages sg (Some (r, page)) d' pages' sg'"
  shows "r = oc_recipient d \<and> oc_state d = OutOk \<and>
    (\<exists>n e. chan r = Ready n e \<and> length page < n \<and> length page \<le> e) \<and>
    (sg = Some page \<and> pages' = pages \<or> pages = page # pages')"
  using assms by cases (auto simp: sendable_def split: if_splits)

lemma turn_unsentD:
  assumes "channel_turn chan d pages sg None d' pages' sg'"
  shows "pages' = pages \<or> chan (oc_recipient d) = Closed \<and> pages' = [] \<or>
    (\<exists>n e page. chan (oc_recipient d) = Ready n e \<and> e < length page \<and> pages = page # pages')"
  using assms by cases (auto simp: sendable_def split: if_splits)

lemma set_sent: "m \<in> set (sent xs) \<longleftrightarrow> (\<exists>d. (d, Some m) \<in> set xs)"
  by (force simp: sent_def map_filter_def)

lemma outbound_inv_find:
  assumes "outbound_inv s" "d \<in> set (OutboundXcmpStatus s)"
  shows "find (\<lambda>d'. oc_recipient d' = oc_recipient d) (OutboundXcmpStatus s) = Some d"
proof -
  have "find (\<lambda>d'. oc_recipient d' = oc_recipient d) ss = Some d"
    if "distinct (map oc_recipient ss)" "d \<in> set ss" for ss
    using that by (induction ss) auto
  with assms show ?thesis by (simp add: outbound_inv_def)
qed

lemma out_pages_entry:
  "outbound_inv s \<Longrightarrow> d \<in> set (OutboundXcmpStatus s) \<Longrightarrow>
     out_pages (oc_recipient d) s = chan_pages d (OutboundXcmpMessages s)"
  by (simp add: out_pages_def outbound_inv_find)

lemma out_pages_no_entry:
  "r \<notin> oc_recipient ` set (OutboundXcmpStatus s) \<Longrightarrow> out_pages r s = []"
  by (auto simp: out_pages_def find_Some_iff split: option.splits)

lemma take_outbound_messages_inv:
  assumes inv: "outbound_inv s" and "take_outbound_messages cfg n s = Some (ms, s')"
  shows "outbound_inv s'"
proof -
  obtain xs where t: "all_turns cfg n s ms s' xs" using take_outbound_messages_turns [OF assms] by blast
  note xs = all_turnsD [OF t]
  have "distinct (map oc_recipient (filter outbound_retained (map fst xs)))"
    using xs(2) by (rule distinct_map_filter)
  moreover have "mset (map oc_recipient (OutboundXcmpStatus s')) =
      mset (map oc_recipient (filter outbound_retained (map fst xs)))"
    using xs(5) by (simp only: mset_map)
  ultimately have dist: "distinct (map oc_recipient (OutboundXcmpStatus s'))"
    using mset_eq_imp_distinct_iff by blast
  have ok: "chan_ok (fst x) (OutboundXcmpMessages s') (SignalMessages s')" if "x \<in> set xs" for x
    using list_all2_set2 [OF xs(1) that] by (auto simp: turn_between_def)
  then have "outbound_retained d" "chan_ok d (OutboundXcmpMessages s') (SignalMessages s')"
    if "d \<in> set (OutboundXcmpStatus s')" for d using that xs(7) by auto
  moreover have "r \<in> oc_recipient ` set (OutboundXcmpStatus s')" if page: "OutboundXcmpMessages s' (r, i) \<noteq> None" for r i
  proof -
    have "r \<in> oc_recipient ` set (OutboundXcmpStatus s)"
      using page inv xs(6) [of r i] unfolding outbound_inv_def by metis
    then obtain d x where "r = oc_recipient d" "x \<in> set xs" and
        turn: "turn_between (xcmp_channel_status cfg (xcmp_world s)) s s' d x"
      using list_all2_set1 [OF xs(1)] by blast
    then have "r = oc_recipient (fst x)" "oc_first_index (fst x) \<le> i" "i < oc_last_index (fst x)"
      using page by (auto simp: turn_between_def chan_ok_def)
    then have "outbound_retained (fst x)" by (auto simp: outbound_retained_def)
    with \<open>x \<in> set xs\<close> \<open>r = oc_recipient (fst x)\<close> show ?thesis unfolding xs(7) by blast
  qed
  ultimately show ?thesis using dist by (intro outbound_invI)
qed

lemma out_pages_after_turn:
  assumes "outbound_inv s'" and "distinct (map oc_recipient (map fst xs))"
    and "set (OutboundXcmpStatus s') = {d \<in> fst ` set xs. outbound_retained d}" and "x \<in> set xs"
  shows "out_pages (oc_recipient (fst x)) s' = chan_pages (fst x) (OutboundXcmpMessages s')"
proof (cases "outbound_retained (fst x)")
  case True
  with assms show ?thesis by (intro out_pages_entry) auto
next
  case False
  have "inj_on oc_recipient (fst ` set xs)" using assms(2) by (simp only: distinct_map set_map)
  with False assms(3,4) have "oc_recipient (fst x) \<notin> oc_recipient ` set (OutboundXcmpStatus s')"
    by (auto dest: inj_onD)
  then have "out_pages (oc_recipient (fst x)) s' = []" by (rule out_pages_no_entry)
  moreover have "chan_pages (fst x) (OutboundXcmpMessages s') = []"
    using False by (intro chan_pages_empty) (auto simp: outbound_retained_def)
  ultimately show ?thesis by simp
qed

lemma take_outbound_messages_entry:
  assumes inv: "outbound_inv s" and take: "take_outbound_messages cfg n s = Some (ms, s')"
  shows "(r, page) \<in> set ms \<Longrightarrow> \<exists>d d'.
      channel_turn (xcmp_channel_status cfg (xcmp_world s)) d (out_pages r s) (SignalMessages s r) (Some (r, page))
        d' (out_pages r s') (SignalMessages s' r) \<and> d \<in> set (OutboundXcmpStatus s)"
    and "r \<notin> fst ` set ms \<Longrightarrow> r \<in> oc_recipient ` set (OutboundXcmpStatus s) \<Longrightarrow> \<exists>d d'.
      channel_turn (xcmp_channel_status cfg (xcmp_world s)) d (out_pages r s) (SignalMessages s r) None
        d' (out_pages r s') (SignalMessages s' r) \<and> oc_recipient d = r"
    and "r \<notin> oc_recipient ` set (OutboundXcmpStatus s) \<Longrightarrow> out_pages r s = [] \<and> out_pages r s' = []"
proof -
  obtain xs where t: "all_turns cfg n s ms s' xs" using take_outbound_messages_turns [OF assms] by blast
  note xs = all_turnsD [OF t]
  note after = out_pages_after_turn [OF take_outbound_messages_inv [OF assms] xs(2,7)]
  have turn: "channel_turn (xcmp_channel_status cfg (xcmp_world s)) d (out_pages (oc_recipient d) s)
      (SignalMessages s (oc_recipient d)) (snd x) (fst x) (out_pages (oc_recipient d) s')
      (SignalMessages s' (oc_recipient d))"
    if "x \<in> set xs" "d \<in> set (OutboundXcmpStatus s)"
      "turn_between (xcmp_channel_status cfg (xcmp_world s)) s s' d x" for d x
    using after [OF that(1)] out_pages_entry [OF inv that(2)] that(3) by (simp add: turn_between_def)
  show "\<exists>d d'. channel_turn (xcmp_channel_status cfg (xcmp_world s)) d (out_pages r s)
      (SignalMessages s r) (Some (r, page)) d' (out_pages r s') (SignalMessages s' r) \<and>
      d \<in> set (OutboundXcmpStatus s)" if msg: "(r, page) \<in> set ms"
  proof -
    obtain d' where x: "(d', Some (r, page)) \<in> set xs" using msg xs(3) by (auto simp: set_sent)
    from list_all2_set2 [OF xs(1) x] obtain d where d: "d \<in> set (OutboundXcmpStatus s)"
      and t: "turn_between (xcmp_channel_status cfg (xcmp_world s)) s s' d (d', Some (r, page))" by blast
    have "r = oc_recipient d" using turn_sentD turn [OF x d t] by (metis snd_conv)
    with turn [OF x d t] d show ?thesis by auto
  qed
  show "\<exists>d d'. channel_turn (xcmp_channel_status cfg (xcmp_world s)) d (out_pages r s) (SignalMessages s r) None
      d' (out_pages r s') (SignalMessages s' r) \<and> oc_recipient d = r"
    if none: "r \<notin> fst ` set ms" and r: "r \<in> oc_recipient ` set (OutboundXcmpStatus s)"
  proof -
    obtain d x where d: "d \<in> set (OutboundXcmpStatus s)" "r = oc_recipient d" and x: "x \<in> set xs" and
        t: "turn_between (xcmp_channel_status cfg (xcmp_world s)) s s' d x"
      using r list_all2_set1 [OF xs(1)] by blast
    have "snd x = None"
    proof (cases "snd x")
      case (Some m)
      then have "m \<in> set ms" using x xs(3) by (cases x) (auto simp: set_sent)
      moreover have "fst m = r" using turn_sentD turn [OF x d(1) t] Some d(2) by (metis prod.collapse)
      ultimately show ?thesis using none by auto
    qed
    with turn [OF x d(1) t] d(2) show ?thesis by auto
  qed
  show "out_pages r s = [] \<and> out_pages r s' = []" if r: "r \<notin> oc_recipient ` set (OutboundXcmpStatus s)"
  proof -
    have "oc_recipient (fst x) \<in> oc_recipient ` set (OutboundXcmpStatus s)" if "x \<in> set xs" for x
      using list_all2_set2 [OF xs(1) that] by (auto simp: turn_between_def)
    then have "r \<notin> oc_recipient ` set (OutboundXcmpStatus s')" using r xs(7) by auto
    with r show ?thesis by (simp add: out_pages_no_entry)
  qed
qed

section \<open>When taking messages panics\<close>

text \<open>No channel is closed, and nothing queued exceeds what its channel accepts.\<close>

definition channels_accept :: "('m, 'u, 'v, 'x, 'acc, 'w) xcmp_config \<Rightarrow> 'w xcmp_state \<Rightarrow> bool" where
  "channels_accept cfg s \<longleftrightarrow> (\<forall>d \<in> set (OutboundXcmpStatus s). oc_state d = OutOk \<longrightarrow>
     (case xcmp_channel_status cfg (xcmp_world s) (oc_recipient d) of
        Closed \<Rightarrow> False
      | Full \<Rightarrow> True
      | Ready n e \<Rightarrow> (\<forall>page. SignalMessages s (oc_recipient d) = Some page \<or>
            page \<in> set (chan_pages d (OutboundXcmpMessages s)) \<longrightarrow> length page \<le> e)))"

lemma turn_pruned_sent:
  assumes "channels_accept cfg s" "d \<in> set (OutboundXcmpStatus s)" "outbound_retained d"
    "turn_between (xcmp_channel_status cfg (xcmp_world s)) s s' d x" "\<not> outbound_retained (fst x)"
  shows "snd x \<noteq> None"
  using assms
  by (auto simp: turn_between_def channels_accept_def sendable_def
      elim!: channel_turn.cases split: if_splits dest!: bspec)
    (metis list.set_intros(1) not_less)+

lemma length_filter_le_sent:
  assumes "list_all2 Q ss xs" "\<And>d x. d \<in> set ss \<Longrightarrow> Q d x \<Longrightarrow> \<not> P (fst x) \<Longrightarrow> snd x \<noteq> None"
  shows "length ss - length (filter P (map fst xs)) \<le> length (sent xs)"
    and "length (sent xs) \<le> length ss"
    and "length (sent xs) - (length ss - length (filter P (map fst xs))) \<le> length (filter P (map fst xs))"
proof -
  have "length ss \<le> length (filter P (map fst xs)) + length (sent xs) \<and> length (sent xs) \<le> length ss"
    using assms
  proof (induction rule: list_all2_induct)
    case (Cons d ds x xs)
    then show ?case by (cases x; cases "snd x") fastforce+
  qed simp
  then show "length ss - length (filter P (map fst xs)) \<le> length (sent xs)"
    "length (sent xs) \<le> length ss"
    "length (sent xs) - (length ss - length (filter P (map fst xs))) \<le> length (filter P (map fst xs))"
    by linarith+
qed

lemma take_outbound_messages_returns:
  assumes inv: "outbound_inv s" and acc: "channels_accept cfg s"
  shows "\<exists>ms s'. take_outbound_messages cfg n s = Some (ms, s')"
proof -
  let ?k = "min (length (OutboundXcmpStatus s)) n"
  obtain ss1 res s1 where loop: "take_loop cfg ?k (OutboundXcmpStatus s) [] s = (ss1, res, s1)"
    by (metis prod_cases3)
  have "\<And>d. d \<in> set (OutboundXcmpStatus s) \<Longrightarrow> chan_ok d (OutboundXcmpMessages s) (SignalMessages s)"
    "distinct (map oc_recipient (OutboundXcmpStatus s))" using inv by (simp_all add: outbound_inv_def)
  then obtain xs where xs: "ss1 = map fst xs" "res = sent xs"
      "list_all2 (turn_between (xcmp_channel_status cfg (xcmp_world s)) s s1) (OutboundXcmpStatus s) xs"
    using take_loop_turns [OF loop] by auto
  have "snd x \<noteq> None" if "d \<in> set (OutboundXcmpStatus s)" "\<not> outbound_retained (fst x)"
      "turn_between (xcmp_channel_status cfg (xcmp_world s)) s s1 d x" for d x
    using turn_pruned_sent [OF acc that(1) _ that(3,2)] inv that(1) by (auto simp: outbound_inv_def)
  note len = length_filter_le_sent [OF xs(3), of outbound_retained, OF this]
  show ?thesis
    using len loop by (auto simp: take_outbound_messages_def Let_def rotate_left_def xs(1,2) not_less)
qed

lemma take_loop_none_ready:
  assumes "0 < k"
    and "\<And>d. d \<in> set ss \<Longrightarrow> oc_state d = OutSuspended \<or>
      xcmp_channel_status cfg w (oc_recipient d) \<in> {Closed, Full}"
  shows "xcmp_world s = w \<Longrightarrow> \<exists>s'. take_loop cfg k ss [] s =
    (map (\<lambda>d. if oc_state d = OutOk \<and> xcmp_channel_status cfg w (oc_recipient d) = Closed
              then outbound_channel_new (oc_recipient d) else d) ss, [], s')"
  using assms(2)
proof (induction ss arbitrary: s)
  case (Cons d ds)
  obtain d' m s1 where one: "take_from_channel cfg d s = (d', m, s1)" by (metis prod_cases3)
  have "oc_state d = OutSuspended \<or> xcmp_channel_status cfg w (oc_recipient d) \<in> {Closed, Full}"
    using Cons.prems(2) by simp
  then have "m = None" "d' = (if oc_state d = OutOk \<and> xcmp_channel_status cfg w (oc_recipient d) = Closed
      then outbound_channel_new (oc_recipient d) else d)"
    using one Cons.prems(1) by (cases "oc_state d"; auto simp: take_from_channel_def Let_def)+
  moreover have "xcmp_world s1 = w" using take_from_channel_frame(5) [OF one] Cons.prems(1) by simp
  ultimately show ?case using Cons.IH [of s1] Cons.prems(2) one assms(1) by fastforce
qed simp

lemma take_outbound_messages_closed:
  assumes "d \<in> set (OutboundXcmpStatus s)" "oc_state d = OutOk"
    "xcmp_channel_status cfg (xcmp_world s) (oc_recipient d) = Closed"
    and none_ready: "\<And>d. d \<in> set (OutboundXcmpStatus s) \<Longrightarrow> oc_state d = OutSuspended \<or>
      xcmp_channel_status cfg (xcmp_world s) (oc_recipient d) \<in> {Closed, Full}"
    and "0 < n"
  shows "take_outbound_messages cfg n s = None"
proof -
  let ?ss = "OutboundXcmpStatus s"
  let ?f = "\<lambda>d. if oc_state d = OutOk \<and> xcmp_channel_status cfg (xcmp_world s) (oc_recipient d) = Closed
    then outbound_channel_new (oc_recipient d) else d"
  have "0 < min (length ?ss) n" using assms(1,5) by (cases ?ss) auto
  from take_loop_none_ready [OF this none_ready refl] obtain s'
    where loop: "take_loop cfg (min (length ?ss) n) ?ss [] s = (map ?f ?ss, [], s')" by blast
  have "?f d \<in> set (map ?f ?ss)" "\<not> outbound_retained (?f d)"
    using assms(1-3) by (auto simp: outbound_retained_def outbound_channel_new_def)
  then have "length (filter outbound_retained (map ?f ?ss)) < length (map ?f ?ss)"
    by (rule length_filter_less)
  with loop show ?thesis by (simp add: take_outbound_messages_def)
qed

section \<open>Updating the entry of one recipient\<close>

lemma entry_update:
  assumes inv: "outbound_inv s"
    and split: "OutboundXcmpStatus s = a @ d # b \<and> oc_recipient d = r \<or> OutboundXcmpStatus s = a @ b"
    and fresh: "r \<notin> oc_recipient ` set a" "r \<notin> oc_recipient ` set b"
    and frame: "\<And>r' i. r' \<noteq> r \<Longrightarrow> OutboundXcmpMessages s' (r', i) = OutboundXcmpMessages s (r', i)"
      "\<And>r'. r' \<noteq> r \<Longrightarrow> SignalMessages s' r' = SignalMessages s r'"
    and d': "oc_recipient d' = r" "outbound_retained d'" "chan_ok d' (OutboundXcmpMessages s') (SignalMessages s')"
    and s': "OutboundXcmpStatus s' = a @ d' # b"
  shows "outbound_inv s'" and "out_pages r s' = chan_pages d' (OutboundXcmpMessages s')"
    and "r' \<noteq> r \<Longrightarrow> out_pages r' s' = out_pages r' s"
proof -
  have others: "e \<in> set (OutboundXcmpStatus s)" "oc_recipient e \<noteq> r" if "e \<in> set a \<union> set b" for e
    using that split fresh by auto
  have dist: "distinct (map oc_recipient (a @ d' # b))"
  proof -
    have "distinct (map oc_recipient a @ map oc_recipient b)"
      using split outbound_invD(1) [OF inv] by (elim disjE conjE) simp_all
    then show ?thesis using fresh d'(1) by simp
  qed
  have ok: "chan_ok e (OutboundXcmpMessages s') (SignalMessages s')" if "e \<in> set a \<union> set b" for e
  proof -
    have "chan_ok e (OutboundXcmpMessages s') (SignalMessages s')
        \<longleftrightarrow> chan_ok e (OutboundXcmpMessages s) (SignalMessages s)"
      using others(2) [OF that] frame by (intro chan_ok_cong) auto
    then show ?thesis using outbound_invD(3) [OF inv others(1) [OF that]] by simp
  qed
  show inv': "outbound_inv s'"
  proof (rule outbound_invI)
    fix r' i assume page: "OutboundXcmpMessages s' (r', i) \<noteq> None"
    show "r' \<in> oc_recipient ` set (OutboundXcmpStatus s')"
    proof (cases "r' = r")
      case False
      then have "r' \<in> oc_recipient ` set (OutboundXcmpStatus s)"
        using page frame(1) outbound_invD(4) [OF inv, of r' i] by metis
      with False split show ?thesis unfolding s' by auto
    qed (use d'(1) s' in auto)
  qed (use dist ok d' s' others(1) outbound_invD(2) [OF inv] in \<open>auto simp del: distinct_map\<close>)
  show "out_pages r s' = chan_pages d' (OutboundXcmpMessages s')"
    using out_pages_entry [OF inv', of d'] d'(1) s' by simp
  show "out_pages r' s' = out_pages r' s" if ne: "r' \<noteq> r"
  proof -
    have "find (\<lambda>d. oc_recipient d = r') (a @ d' # b) = find (\<lambda>d. oc_recipient d = r') (OutboundXcmpStatus s)"
      using split ne d'(1) by (auto simp: find_append split: option.split)
    moreover have "chan_pages e (OutboundXcmpMessages s') = chan_pages e (OutboundXcmpMessages s)"
      if "oc_recipient e = r'" for e
      using frame(1) [OF ne] that by (intro chan_pages_cong) simp
    ultimately show ?thesis
      unfolding out_pages_def s' using find_SomeD
      by (cases "find (\<lambda>d. oc_recipient d = r') (OutboundXcmpStatus s)") fastforce+
  qed
qed

lemma entry_split:
  assumes "distinct (map oc_recipient ss)" "d \<in> set ss"
  obtains a b where "ss = a @ d # b" "oc_recipient d \<notin> oc_recipient ` set a" "oc_recipient d \<notin> oc_recipient ` set b"
proof -
  obtain a b where "ss = a @ d # b" using assms(2) by (meson split_list)
  with that assms(1) show thesis by simp
qed

lemma chan_pages_snoc:
  assumes "oc_first_index d \<le> oc_last_index d" "oc_last_index d < - 1"
  shows "chan_pages (d\<lparr>oc_last_index := oc_last_index d + 1\<rparr>) (m((oc_recipient d, oc_last_index d) \<mapsto> page)) =
    chan_pages d m @ [page]"
proof -
  have "unat (oc_last_index d + 1) = Suc (unat (oc_last_index d))" by (rule word_Suc_le(1) [OF assms(2)])
  moreover have "chan_pages d (m((oc_recipient d, oc_last_index d) \<mapsto> page)) = chan_pages d m"
    by (rule chan_pages_upd_outside) simp
  ultimately show ?thesis using assms(1) by (simp add: chan_pages_def word_le_nat_alt)
qed

lemma chan_pages_last:
  assumes "oc_first_index d < oc_last_index d"
  shows "chan_pages d m = chan_pages (d\<lparr>oc_last_index := oc_last_index d - 1\<rparr>) m @
    [value_query m (oc_recipient d, oc_last_index d - 1)]"
proof -
  have "oc_last_index d \<noteq> 0" using assms by auto
  then have pred: "unat (oc_last_index d - 1) = unat (oc_last_index d) - 1" by (rule unat_minus_one)
  then have "[unat (oc_first_index d)..<unat (oc_last_index d)] =
      [unat (oc_first_index d)..<unat (oc_last_index d - 1)] @ [unat (oc_last_index d - 1)]"
    using assms upt_Suc_append [of "unat (oc_first_index d)" "unat (oc_last_index d - 1)"]
    by (simp add: word_less_nat_alt)
  then show ?thesis by (simp add: chan_pages_def)
qed

lemma chan_pages_append:
  assumes "oc_first_index d < oc_last_index d"
  shows "chan_pages d (m((oc_recipient d, oc_last_index d - 1) \<mapsto> page)) =
    butlast (chan_pages d m) @ [page]"
proof -
  have "chan_pages (d\<lparr>oc_last_index := oc_last_index d - 1\<rparr>) (m((oc_recipient d, oc_last_index d - 1) \<mapsto> page)) =
      chan_pages (d\<lparr>oc_last_index := oc_last_index d - 1\<rparr>) m"
    by (rule chan_pages_upd_outside) simp
  then show ?thesis by (simp add: chan_pages_last [OF assms])
qed

section \<open>Sending\<close>

text \<open>The indices of the channel's pages stay below the end of their 16-bit range.\<close>

definition index_room :: "para_id \<Rightarrow> 'w xcmp_state \<Rightarrow> bool" where
  "index_room r s \<longleftrightarrow> (\<forall>d \<in> set (OutboundXcmpStatus s). oc_recipient d = r \<longrightarrow> oc_last_index d < - 1)"

lemma find_or_push_split:
  assumes "outbound_inv s" "find_or_push r (OutboundXcmpStatus s) = (d, ss)"
  obtains a b where "ss = a @ d # b" "oc_recipient d = r"
    "r \<notin> oc_recipient ` set a" "r \<notin> oc_recipient ` set b"
    "OutboundXcmpStatus s = a @ d # b \<or>
       OutboundXcmpStatus s = a @ b \<and> b = [] \<and> d = outbound_channel_new r"
    "chan_ok d (OutboundXcmpMessages s) (SignalMessages s)"
    "out_pages r s = chan_pages d (OutboundXcmpMessages s)"
    "index_room r s \<longrightarrow> oc_last_index d < - 1"
proof (cases "find (\<lambda>d. oc_recipient d = r) (OutboundXcmpStatus s)")
  case None
  then have eqs: "d = outbound_channel_new r" "ss = OutboundXcmpStatus s @ [d]"
    using assms(2) by (auto simp: find_or_push_def)
  have r: "r \<notin> oc_recipient ` set (OutboundXcmpStatus s)" using None by (auto simp: find_None_iff)
  have no: "OutboundXcmpMessages s (r, i) = None" for i by (rule outbound_invD(4) [OF assms(1) r])
  then have "chan_ok d (OutboundXcmpMessages s) (SignalMessages s)"
    by (simp add: eqs chan_ok_def outbound_channel_new_def)
  moreover have "out_pages r s = chan_pages d (OutboundXcmpMessages s)"
    using out_pages_no_entry [OF r] by (simp add: eqs chan_pages_def outbound_channel_new_def)
  ultimately show thesis
    using eqs r no
    by (intro that [of "OutboundXcmpStatus s" "[]"]) (auto simp: outbound_channel_new_def word_gt_0)
next
  case (Some e)
  then have eqs: "e = d" "ss = OutboundXcmpStatus s" using assms(2) by (auto simp: find_or_push_def)
  then have d: "d \<in> set (OutboundXcmpStatus s)" "oc_recipient d = r"
    using Some by (auto simp: find_Some_iff)
  obtain a b where "OutboundXcmpStatus s = a @ d # b" "oc_recipient d \<notin> oc_recipient ` set a"
      "oc_recipient d \<notin> oc_recipient ` set b"
    using entry_split [OF outbound_invD(1) [OF assms(1)] d(1)] by metis
  then show thesis
    using that [of a b] d eqs outbound_invD(3) [OF assms(1) d(1)] out_pages_entry [OF assms(1) d(1)]
    by (simp add: index_room_def)
qed

lemma chan_ok_snoc:
  assumes "chan_ok d m sg" "oc_last_index d < - 1"
  shows "chan_ok (d\<lparr>oc_last_index := oc_last_index d + 1\<rparr>) (m((oc_recipient d, oc_last_index d) \<mapsto> page)) sg"
    and "outbound_retained (d\<lparr>oc_last_index := oc_last_index d + 1\<rparr>)"
proof -
  have lt: "i < oc_last_index d + 1 \<longleftrightarrow> i < oc_last_index d \<or> i = oc_last_index d" for i
    using word_Suc_le(1) [OF assms(2)] by (auto simp: word_less_nat_alt word_unat_eq_iff)
  show "chan_ok (d\<lparr>oc_last_index := oc_last_index d + 1\<rparr>) (m((oc_recipient d, oc_last_index d) \<mapsto> page)) sg"
    using assms(1) lt [of "oc_first_index d"] by (auto simp: chan_ok_def lt order_le_less)
  show "outbound_retained (d\<lparr>oc_last_index := oc_last_index d + 1\<rparr>)"
    using assms(1) lt [of "oc_first_index d"] by (auto simp: chan_ok_def outbound_retained_def order_le_less)
qed

lemma send_fragment_ok_iff:
  "(\<exists>n. fst (send_fragment cfg enc r fmt f s) = Inr n) \<longleftrightarrow>
     (\<exists>mx. xcmp_channel_max cfg (xcmp_world s) r = Some mx \<and> length (enc f) \<le> mx)"
  by (auto simp: send_fragment_def Let_def split: option.splits prod.splits)

lemma send_fragment_error:
  "fst (send_fragment cfg enc r fmt f s) = Inl e \<Longrightarrow>
     (send_fragment cfg enc r fmt f s = (Inl NoChannel, s) \<and> xcmp_channel_max cfg (xcmp_world s) r = None) \<or>
     (send_fragment cfg enc r fmt f s = (Inl TooBig, s) \<and>
        (\<exists>mx. xcmp_channel_max cfg (xcmp_world s) r = Some mx \<and> mx < length (enc f)))"
  by (auto simp: send_fragment_def Let_def split: option.splits prod.splits if_splits)

text \<open>What a successful \<^verbatim>\<open>send_fragment\<close> does to the queue: append to the last page when the
  format is the same and there is space, and start a page otherwise.\<close>

definition fragment_queued where
  "fragment_queued cfg mx fmt data pages pages' \<longleftrightarrow>
     (\<exists>ps p. pages = ps @ [p] \<and> pages' = ps @ [p @ data] \<and> length (p @ data) \<le> mx \<and>
        map_option fst (xcmp_format_decode cfg p) = Some fmt) \<or>
     pages' = pages @ [xcmp_format_encode cfg fmt @ data]"

lemma unat_ucast_u32: "unat (ucast (w :: u16) :: u32) = unat w"
proof -
  have "unat w < 2 ^ 16" using unsigned_less [of w, where 'a = nat] by simp
  then have "unat w < 2 ^ 32" by simp
  then show ?thesis by (simp add: unsigned_ucast_eq take_bit_nat_eq_self)
qed

lemma unat_window:
  fixes lo hi :: u16
  shows "lo < hi \<Longrightarrow> unat (ucast (hi - lo - 1) :: u32) + 1 = unat hi - unat lo"
    and "lo \<le> hi \<Longrightarrow> unat (ucast (hi - lo) :: u32) = unat hi - unat lo"
proof -
  show "unat (ucast (hi - lo) :: u32) = unat hi - unat lo" if "lo \<le> hi"
    using that by (simp only: unat_ucast_u32 unat_sub)
  show "unat (ucast (hi - lo - 1) :: u32) + 1 = unat hi - unat lo" if "lo < hi"
  proof -
    have "hi - lo \<noteq> 0" using that by auto
    moreover have "unat (hi - lo) = unat hi - unat lo" using that by (intro unat_sub) simp
    ultimately show ?thesis using that by (simp add: unat_ucast_u32 unat_minus_one word_less_nat_alt)
  qed
qed

lemma pred_in_window:
  fixes lo hi :: u16
  assumes "lo < hi"
  shows "lo \<le> hi - 1" and "hi - 1 < hi"
proof -
  have "hi \<noteq> 0" using assms by auto
  then show "lo \<le> hi - 1" "hi - 1 < hi"
    using assms unat_minus_one [of hi] by (auto simp: word_le_nat_alt word_less_nat_alt)
qed

lemma send_fragment_shape:
  assumes send: "send_fragment cfg enc r fmt f s = (Inr n, s')"
    and fp: "find_or_push r (OutboundXcmpStatus s) = (d, a @ d # b)"
    and d: "oc_recipient d = r" "r \<notin> oc_recipient ` set a"
    and ok: "chan_ok d (OutboundXcmpMessages s) (SignalMessages s)"
    and p: "p = value_query (OutboundXcmpMessages s) (r, oc_last_index d - 1)"
    and mx: "xcmp_channel_max cfg (xcmp_world s) r = Some mx"
  shows "oc_first_index d < oc_last_index d \<and> map_option fst (xcmp_format_decode cfg p) = Some fmt \<and>
      length (p @ enc f) \<le> mx \<and> n = ucast (oc_last_index d - oc_first_index d - 1) \<and>
      s' = s\<lparr>OutboundXcmpMessages := (OutboundXcmpMessages s)((r, oc_last_index d - 1) \<mapsto> p @ enc f)\<rparr> \<or>
    n = ucast (oc_last_index d - oc_first_index d) \<and>
      s' = s\<lparr>OutboundXcmpStatus := a @ d\<lparr>oc_last_index := oc_last_index d + 1\<rparr> # b,
        OutboundXcmpMessages := (OutboundXcmpMessages s)((r, oc_last_index d) \<mapsto> xcmp_format_encode cfg fmt @ enc f)\<rparr>"
proof -
  have same: "(OutboundXcmpMessages s)((r, oc_last_index d - 1) \<mapsto> p) = OutboundXcmpMessages s"
    if "oc_first_index d < oc_last_index d"
  proof -
    have "OutboundXcmpMessages s (r, oc_last_index d - 1) \<noteq> None"
      using ok d(1) pred_in_window [OF that] by (auto simp: chan_ok_def)
    then show ?thesis using p by (auto simp: value_query_def)
  qed
  have mod: "modify_first (\<lambda>d. oc_recipient d = r) g (a @ d # b) = a @ g d # b" for g
    using d by (intro modify_first_split) (auto simp: image_iff)
  show ?thesis
    using send mx fp same p [symmetric] unfolding send_fragment_def
    by (auto simp: Let_def mod split: if_splits)
qed

text \<open>What sending does to the entry \<open>d\<close> of the recipient: the fragment is appended to the last page, or it opens a page.\<close>

definition sent_to where
  "sent_to cfg mx fmt data r n s s' \<longleftrightarrow> outbound_inv s' \<and> fragment_queued cfg mx fmt data (out_pages r s) (out_pages r s') \<and>
     unat n + 1 = length (out_pages r s') \<and> (\<forall>r'. r' \<noteq> r \<longrightarrow> out_pages r' s' = out_pages r' s)"

lemma fragment_appended:
  fixes n :: u32
  assumes inv: "outbound_inv s" and st: "OutboundXcmpStatus s = a @ d # b" and r: "oc_recipient d = r"
    and fresh: "r \<notin> oc_recipient ` set a" "r \<notin> oc_recipient ` set b"
    and ok: "chan_ok d (OutboundXcmpMessages s) (SignalMessages s)" and pages: "out_pages r s = chan_pages d (OutboundXcmpMessages s)"
    and p: "p = value_query (OutboundXcmpMessages s) (r, oc_last_index d - 1)" and lt: "oc_first_index d < oc_last_index d"
    and fits: "map_option fst (xcmp_format_decode cfg p) = Some fmt" "length (p @ data) \<le> mx"
    and n: "n = ucast (oc_last_index d - oc_first_index d - 1)"
    and s': "s' = s\<lparr>OutboundXcmpMessages := (OutboundXcmpMessages s)((r, oc_last_index d - 1) \<mapsto> p @ data)\<rparr>"
  shows "sent_to cfg mx fmt data r n s s'"
proof -
  have "outbound_retained d" "chan_ok d (OutboundXcmpMessages s') (SignalMessages s')"
    using ok lt by (auto simp: outbound_retained_def s' chan_ok_def pred_in_window [OF lt] r)
  then have up: "outbound_inv s'" "out_pages r s' = chan_pages d (OutboundXcmpMessages s')"
      "\<And>r'. r' \<noteq> r \<Longrightarrow> out_pages r' s' = out_pages r' s"
    using entry_update [OF inv _ fresh, of d s' d] r st by (auto simp: s')
  then have "out_pages r s' = butlast (out_pages r s) @ [p @ data]"
    using chan_pages_append [OF lt] pages r by (simp add: s')
  moreover have "out_pages r s = butlast (out_pages r s) @ [p]"
    using chan_pages_last [OF lt, of "OutboundXcmpMessages s"] pages r p by simp
  ultimately have "fragment_queued cfg mx fmt data (out_pages r s) (out_pages r s')"
    using fits unfolding fragment_queued_def by metis
  with up n show ?thesis using unat_window(1) [OF lt] by (simp add: sent_to_def)
qed

lemma page_opened:
  fixes n :: u32
  assumes inv: "outbound_inv s" and old: "OutboundXcmpStatus s = a @ d # b \<and> oc_recipient d = r \<or> OutboundXcmpStatus s = a @ b"
    and r: "oc_recipient d = r" and fresh: "r \<notin> oc_recipient ` set a" "r \<notin> oc_recipient ` set b"
    and ok: "chan_ok d (OutboundXcmpMessages s) (SignalMessages s)" and pages: "out_pages r s = chan_pages d (OutboundXcmpMessages s)"
    and last: "oc_last_index d < - 1" and n: "n = ucast (oc_last_index d - oc_first_index d)"
    and s': "s' = s\<lparr>OutboundXcmpStatus := a @ d\<lparr>oc_last_index := oc_last_index d + 1\<rparr> # b,
        OutboundXcmpMessages := (OutboundXcmpMessages s)((r, oc_last_index d) \<mapsto> xcmp_format_encode cfg fmt @ data)\<rparr>"
  shows "sent_to cfg mx fmt data r n s s'"
proof -
  let ?d = "d\<lparr>oc_last_index := oc_last_index d + 1\<rparr>"
  have le: "oc_first_index d \<le> oc_last_index d" using ok by (simp add: chan_ok_def)
  have "outbound_retained ?d" "chan_ok ?d (OutboundXcmpMessages s') (SignalMessages s')"
    using chan_ok_snoc [OF ok last] r by (simp_all add: s')
  then have up: "outbound_inv s'" "out_pages r s' = chan_pages ?d (OutboundXcmpMessages s')"
      "\<And>r'. r' \<noteq> r \<Longrightarrow> out_pages r' s' = out_pages r' s"
    using entry_update [OF inv old fresh, of s' ?d] r by (auto simp: s')
  moreover have "chan_pages ?d (OutboundXcmpMessages s') = out_pages r s @ [xcmp_format_encode cfg fmt @ data]"
    using chan_pages_snoc [OF le last] pages r by (simp add: s')
  moreover have "unat n = length (out_pages r s)" using unat_window(2) [OF le] n pages by simp
  ultimately show ?thesis by (simp add: sent_to_def fragment_queued_def)
qed

lemma send_fragment_success:
  assumes inv: "outbound_inv s" and room: "index_room r s"
    and send: "send_fragment cfg enc r fmt f s = (Inr n, s')"
  shows "outbound_inv s'"
    and "\<exists>mx. xcmp_channel_max cfg (xcmp_world s) r = Some mx \<and>
      fragment_queued cfg mx fmt (enc f) (out_pages r s) (out_pages r s')"
    and "unat n + 1 = length (out_pages r s')"
    and "r' \<noteq> r \<Longrightarrow> out_pages r' s' = out_pages r' s"
proof -
  obtain mx where mx: "xcmp_channel_max cfg (xcmp_world s) r = Some mx" "length (enc f) \<le> mx"
    using send_fragment_ok_iff [of cfg enc r fmt f s] send by auto
  obtain d ss where fp: "find_or_push r (OutboundXcmpStatus s) = (d, ss)" by fastforce
  obtain a b where split: "ss = a @ d # b" and r: "oc_recipient d = r"
      and fresh: "r \<notin> oc_recipient ` set a" "r \<notin> oc_recipient ` set b"
      and old: "OutboundXcmpStatus s = a @ d # b \<or> OutboundXcmpStatus s = a @ b \<and> b = [] \<and> d = outbound_channel_new r"
      and ok: "chan_ok d (OutboundXcmpMessages s) (SignalMessages s)"
      and pages: "out_pages r s = chan_pages d (OutboundXcmpMessages s)"
      and "index_room r s \<longrightarrow> oc_last_index d < - 1"
    by (rule find_or_push_split [OF inv fp])
  then have last: "oc_last_index d < - 1" using room by simp
  from send_fragment_shape [OF send fp [unfolded split] r fresh(1) ok refl mx(1)]
  have "sent_to cfg mx fmt (enc f) r n s s'"
  proof (elim disjE conjE)
    assume "oc_first_index d < oc_last_index d"
    moreover from this have "OutboundXcmpStatus s = a @ d # b" using old by (auto simp: outbound_channel_new_def)
    moreover assume "map_option fst (xcmp_format_decode cfg (value_query (OutboundXcmpMessages s) (r, oc_last_index d - 1))) = Some fmt"
      "length (value_query (OutboundXcmpMessages s) (r, oc_last_index d - 1) @ enc f) \<le> mx"
      "n = ucast (oc_last_index d - oc_first_index d - 1)"
      "s' = s\<lparr>OutboundXcmpMessages := (OutboundXcmpMessages s)((r, oc_last_index d - 1) \<mapsto>
        value_query (OutboundXcmpMessages s) (r, oc_last_index d - 1) @ enc f)\<rparr>"
    ultimately show ?thesis by (intro fragment_appended [OF inv _ r fresh ok pages refl])
  next
    have "OutboundXcmpStatus s = a @ d # b \<and> oc_recipient d = r \<or> OutboundXcmpStatus s = a @ b" using old r by auto
    moreover assume "n = ucast (oc_last_index d - oc_first_index d)"
      "s' = s\<lparr>OutboundXcmpStatus := a @ d\<lparr>oc_last_index := oc_last_index d + 1\<rparr> # b,
        OutboundXcmpMessages := (OutboundXcmpMessages s)((r, oc_last_index d) \<mapsto> xcmp_format_encode cfg fmt @ enc f)\<rparr>"
    ultimately show ?thesis by (intro page_opened [OF inv _ r fresh ok pages last])
  qed
  then show "outbound_inv s'"
    and "\<exists>mx. xcmp_channel_max cfg (xcmp_world s) r = Some mx \<and>
      fragment_queued cfg mx fmt (enc f) (out_pages r s) (out_pages r s')"
    and "unat n + 1 = length (out_pages r s')"
    and "r' \<noteq> r \<Longrightarrow> out_pages r' s' = out_pages r' s"
    using mx(1) by (auto simp: sent_to_def)
qed

section \<open>Signals\<close>

text \<open>\<^verbatim>\<open>send_signal\<close> and \<^verbatim>\<open>suspend_channel\<close> change the flags of an entry and leave the
  window of its pages as it is.\<close>

lemma flag_update:
  assumes inv: "outbound_inv s"
    and g: "\<And>d. oc_recipient (g d) = oc_recipient d" "\<And>d. oc_first_index (g d) = oc_first_index d"
      "\<And>d. oc_last_index (g d) = oc_last_index d" "\<And>d. outbound_retained (g d)"
      "\<And>d. oc_signals_exist (g d) \<Longrightarrow> oc_signals_exist d \<or> SignalMessages s' r \<noteq> None"
    and st: "OutboundXcmpStatus s' = (if \<exists>d \<in> set (OutboundXcmpStatus s). oc_recipient d = r
        then modify_first (\<lambda>d. oc_recipient d = r) g (OutboundXcmpStatus s)
        else OutboundXcmpStatus s @ [g (outbound_channel_new r)])"
    and frame: "OutboundXcmpMessages s' = OutboundXcmpMessages s"
      "\<And>r'. r' \<noteq> r \<Longrightarrow> SignalMessages s' r' = SignalMessages s r'"
      "SignalMessages s r \<noteq> None \<Longrightarrow> SignalMessages s' r \<noteq> None"
  shows "outbound_inv s'" and "out_pages r' s' = out_pages r' s"
proof -
  obtain d ss where fp: "find_or_push r (OutboundXcmpStatus s) = (d, ss)" by fastforce
  obtain a b where split: "ss = a @ d # b" and r: "oc_recipient d = r"
      and fresh: "r \<notin> oc_recipient ` set a" "r \<notin> oc_recipient ` set b"
      and old: "OutboundXcmpStatus s = a @ d # b \<or> OutboundXcmpStatus s = a @ b \<and> b = [] \<and> d = outbound_channel_new r"
      and ok: "chan_ok d (OutboundXcmpMessages s) (SignalMessages s)"
      and pages: "out_pages r s = chan_pages d (OutboundXcmpMessages s)"
      and "index_room r s \<longrightarrow> oc_last_index d < - 1"
    by (rule find_or_push_split [OF inv fp])
  have old': "OutboundXcmpStatus s = a @ d # b \<and> oc_recipient d = r \<or> OutboundXcmpStatus s = a @ b"
    using old r by auto
  have st': "OutboundXcmpStatus s' = a @ g d # b"
  proof (cases "\<exists>e \<in> set (OutboundXcmpStatus s). oc_recipient e = r")
    case True
    then have "OutboundXcmpStatus s = a @ d # b" using old fresh by (auto simp: image_iff)
    moreover have "modify_first (\<lambda>d. oc_recipient d = r) g (a @ d # b) = a @ g d # b"
      using r fresh by (intro modify_first_split) (auto simp: image_iff)
    ultimately show ?thesis using st True by simp
  next
    case False
    then have "OutboundXcmpStatus s = a @ b" "b = []" "d = outbound_channel_new r" using old r by auto
    then show ?thesis using st False by simp
  qed
  have ok': "chan_ok (g d) (OutboundXcmpMessages s') (SignalMessages s')"
    using ok g(5) [of d] frame(3) r by (auto simp: chan_ok_def g frame(1))
  have "r' \<noteq> r \<Longrightarrow> OutboundXcmpMessages s' (r', i) = OutboundXcmpMessages s (r', i)" for r' i
    by (simp add: frame(1))
  note up = entry_update [OF inv old' fresh this frame(2) _ g(4) ok' st']
  show "outbound_inv s'" using up(1) g(1) r by simp
  have "chan_pages (g d) (OutboundXcmpMessages s') = chan_pages d (OutboundXcmpMessages s)"
    by (simp add: chan_pages_def g frame(1))
  then show "out_pages r' s' = out_pages r' s" using up(2) up(3) [of r'] g(1) r pages by (cases "r' = r") simp_all
qed

lemma send_signal_outbound:
  assumes "outbound_inv s"
  shows "outbound_inv (send_signal cfg r sg s)" and "out_pages r' (send_signal cfg r sg s) = out_pages r' s"
  by (rule flag_update [OF assms, where g = "oc_signals_exist_update (\<lambda>_. True)" and r = r and s' = "send_signal cfg r sg s"];
      simp add: with_signals_def outbound_retained_def send_signal_def Let_def)+

lemma suspend_channel_outbound:
  assumes "outbound_inv s"
  shows "outbound_inv (suspend_channel r s)" and "out_pages r' (suspend_channel r s) = out_pages r' s"
  by (rule flag_update [OF assms, where g = "oc_state_update (\<lambda>_. OutSuspended)" and r = r and s' = "suspend_channel r s"];
      simp add: with_suspended_state_def outbound_retained_def suspend_channel_def Let_def)+

lemma empty_entry_removed:
  assumes inv: "outbound_inv s" and st: "OutboundXcmpStatus s = a @ d # b"
    and fresh: "oc_recipient d \<notin> oc_recipient ` set a" "oc_recipient d \<notin> oc_recipient ` set b"
    and empty: "oc_first_index d = oc_last_index d"
  defines "s' \<equiv> s\<lparr>OutboundXcmpStatus := a @ b\<rparr>"
  shows "outbound_inv s'" and "out_pages r s' = out_pages r s"
proof -
  have d: "d \<in> set (OutboundXcmpStatus s)" by (simp add: st)
  have none: "OutboundXcmpMessages s (oc_recipient d, i) = None" for i
    using outbound_invD(3) [OF inv d] empty by (auto simp: chan_ok_def)
  show "outbound_inv s'"
  proof (rule outbound_invI)
    fix r i assume "OutboundXcmpMessages s' (r, i) \<noteq> None"
    then have page: "OutboundXcmpMessages s (r, i) \<noteq> None" by (simp add: s'_def)
    then have "r \<in> oc_recipient ` set (a @ d # b)" using outbound_invD(4) [OF inv, of r i] st by metis
    moreover have "r \<noteq> oc_recipient d" using page none by metis
    ultimately show "r \<in> oc_recipient ` set (OutboundXcmpStatus s')" by (auto simp: s'_def)
  qed (use outbound_invD [OF inv] in \<open>simp_all add: s'_def st\<close>)
  show "out_pages r s' = out_pages r s"
  proof (cases "r = oc_recipient d")
    case True
    then show ?thesis
      using out_pages_no_entry [of r s'] out_pages_entry [OF inv d] fresh empty by (simp add: s'_def chan_pages_empty image_Un)
  next
    case False
    then have "find (\<lambda>d. oc_recipient d = r) (a @ b) = find (\<lambda>d. oc_recipient d = r) (a @ d # b)"
      by (simp add: find_append split: option.split)
    then show ?thesis by (simp add: out_pages_def s'_def st split: option.split)
  qed
qed

lemma resume_channel_outbound:
  assumes inv: "outbound_inv s"
  shows "outbound_inv (resume_channel r s) \<and> out_pages r' (resume_channel r s) = out_pages r' s"
proof (cases "r \<in> oc_recipient ` set (OutboundXcmpStatus s)")
  case False
  then have none: "position (\<lambda>d. oc_recipient d = r) (OutboundXcmpStatus s) = None" by auto
  have "resume_channel r s = s" by (simp only: resume_channel_def Let_def none option.case)
  then show ?thesis using inv by simp
next
  case True
  then obtain d where d: "d \<in> set (OutboundXcmpStatus s)" "oc_recipient d = r" by auto
  obtain a b where st: "OutboundXcmpStatus s = a @ d # b" and fresh: "r \<notin> oc_recipient ` set a" "r \<notin> oc_recipient ` set b"
    using entry_split [OF outbound_invD(1) [OF inv] d(1)] d(2) by metis
  have pos: "position (\<lambda>d. oc_recipient d = r) (a @ d # b) = Some (length a)"
    using d(2) fresh by (intro position_split) (auto simp: image_iff)
  show ?thesis
  proof (cases "oc_first_index d = oc_last_index d")
    case True
    then have "resume_channel r s = s\<lparr>OutboundXcmpStatus := a @ b\<rparr>" by (simp add: resume_channel_def st pos)
    then show ?thesis using empty_entry_removed [OF inv st _ _ True] fresh d(2) by simp
  next
    case False
    let ?d = "d\<lparr>oc_state := OutOk\<rparr>" and ?s = "resume_channel r s"
    have s': "?s = s\<lparr>OutboundXcmpStatus := a @ ?d # b\<rparr>" using False by (simp add: resume_channel_def st pos)
    have "outbound_retained ?d" "chan_ok ?d (OutboundXcmpMessages ?s) (SignalMessages ?s)"
      using outbound_invD(3) [OF inv d(1)] False by (auto simp: outbound_retained_def chan_ok_def s')
    then have up: "outbound_inv ?s" "out_pages r ?s = chan_pages ?d (OutboundXcmpMessages ?s)"
        "r' \<noteq> r \<Longrightarrow> out_pages r' ?s = out_pages r' s"
      using entry_update [OF inv _ fresh, of d ?s ?d] d(2) st by (auto simp: s')
    then show ?thesis using out_pages_entry [OF inv d(1)] d(2) by (cases "r' = r") (auto simp: s' chan_pages_def)
  qed
qed

lemma handle_signals_outbound:
  "outbound_inv s \<Longrightarrow> outbound_inv (handle_signals r bs s) \<and> out_pages r' (handle_signals r bs s) = out_pages r' s"
proof (induction r bs s rule: handle_signals.induct)
  case (1 r bs s)
  show ?case
  proof (cases "bs = [] \<or> channel_signal_decode bs = None")
    case True
    then have "handle_signals r bs s = s" by (subst handle_signals.simps) auto
    then show ?thesis using "1.prems" by simp
  next
    case False
    then obtain sg rest where d: "bs \<noteq> []" "channel_signal_decode bs = Some (sg, rest)" by auto
    show ?thesis
    proof (cases sg)
      case Suspend
      then have "handle_signals r bs s = handle_signals r rest (suspend_channel r s)"
        using d by (subst handle_signals.simps) simp
      with "1.IH"(1) [OF d(1,2) refl Suspend] "1.prems" show ?thesis by (simp add: suspend_channel_outbound)
    next
      case Resume
      then have "handle_signals r bs s = handle_signals r rest (resume_channel r s)"
        using d by (subst handle_signals.simps) simp
      with "1.IH"(2) [OF d(1,2) refl Resume] "1.prems" show ?thesis by (simp add: resume_channel_outbound)
    qed
  qed
qed

section \<open>Reachable states\<close>

lemma send_fragment_encoded: "send_fragment cfg enc r fmt f s = send_fragment cfg id r fmt (enc f) s"
  by (simp add: send_fragment_def)

text \<open>
  The steps the outbound storage may take: the operations of the pallet on it, and whatever
  changes the rest of the state.  A channel never holds more pages than its 16-bit indices can
  count.
\<close>

inductive outbound_reachable :: "('m, 'u, 'v, 'x, 'acc, 'w) xcmp_config \<Rightarrow> 'w xcmp_state \<Rightarrow> bool" for cfg where
  out_start: "outbound_reachable cfg (xcmp_genesis w)"
| out_fragment: "outbound_reachable cfg s \<Longrightarrow> index_room r s \<Longrightarrow>
    send_fragment cfg id r fmt data s = (res, s') \<Longrightarrow> outbound_reachable cfg s'"
| out_signal: "outbound_reachable cfg s \<Longrightarrow> outbound_reachable cfg (send_signal cfg r sg s)"
| out_received: "outbound_reachable cfg s \<Longrightarrow> outbound_reachable cfg (handle_signals r bs s)"
| out_take: "outbound_reachable cfg s \<Longrightarrow> take_outbound_messages cfg n s = Some (ms, s') \<Longrightarrow>
    outbound_reachable cfg s'"
| out_other: "outbound_reachable cfg s \<Longrightarrow> OutboundXcmpStatus s' = OutboundXcmpStatus s \<Longrightarrow>
    OutboundXcmpMessages s' = OutboundXcmpMessages s \<Longrightarrow> SignalMessages s' = SignalMessages s \<Longrightarrow>
    outbound_reachable cfg s'"

lemma outbound_inv_reachable: "outbound_reachable cfg s \<Longrightarrow> outbound_inv s"
proof (induction rule: outbound_reachable.induct)
  case (out_start w)
  show ?case by (simp add: outbound_inv_def xcmp_genesis_def)
next
  case (out_fragment s r fmt data res s')
  show ?case
  proof (cases res)
    case (Inl e)
    then show ?thesis using out_fragment send_fragment_error [of cfg id r fmt data s e] by auto
  next
    case (Inr n)
    then show ?thesis using send_fragment_success(1) out_fragment by metis
  qed
next
  case (out_signal s r sg)
  then show ?case by (simp add: send_signal_outbound)
next
  case (out_received s r bs)
  then show ?case by (simp add: handle_signals_outbound)
next
  case (out_take s n ms s')
  then show ?case using take_outbound_messages_inv by blast
next
  case (out_other s s')
  then show ?case by (simp add: outbound_inv_def)
qed

lemma subseq_set: "subseq xs ys \<Longrightarrow> set xs \<subseteq> set ys"
  by (auto dest: list_emb_set)

lemma subseq_distinct: "subseq xs ys \<Longrightarrow> distinct ys \<Longrightarrow> distinct xs"
  by (induction rule: list_emb.induct) (auto dest: subseq_set)

lemma take_outbound_messages_ascending:
  assumes "outbound_inv s" "take_outbound_messages cfg n s = Some (ms, s')"
  shows "length ms \<le> n \<and> sorted_wrt (<) (map fst ms)"
proof -
  obtain xs where t: "all_turns cfg n s ms s' xs" using take_outbound_messages_turns [OF assms] by blast
  note xs = all_turnsD [OF t]
  have "distinct (map fst (sent xs))"
    using sent_recipients [OF xs(1)] outbound_invD(1) [OF assms(1)] by (rule subseq_distinct)
  moreover have "mset (map fst ms) = mset (map fst (sent xs))" by (simp add: xs(3))
  ultimately have "distinct (map fst ms)" using mset_eq_imp_distinct_iff by blast
  then show ?thesis using xs(3,4) by (simp add: strict_sorted_iff)
qed

lemma take_outbound_messages_fifo_aux:
  assumes "outbound_inv s" "take_outbound_messages cfg n s = Some (ms, s')"
  shows "(r, page) \<in> set ms \<Longrightarrow>
      SignalMessages s r = Some page \<and> out_pages r s' = out_pages r s \<or> out_pages r s = page # out_pages r s'"
    and "r \<notin> fst ` set ms \<Longrightarrow> out_pages r s' = out_pages r s \<or>
      xcmp_channel_status cfg (xcmp_world s) r = Closed \<and> out_pages r s' = [] \<or>
      (\<exists>now ever page. xcmp_channel_status cfg (xcmp_world s) r = Ready now ever \<and> ever < length page \<and>
         out_pages r s = page # out_pages r s')"
proof -
  show "SignalMessages s r = Some page \<and> out_pages r s' = out_pages r s \<or> out_pages r s = page # out_pages r s'"
    if "(r, page) \<in> set ms"
    using take_outbound_messages_entry(1) [OF assms that] by (auto dest!: turn_sentD)
  show "out_pages r s' = out_pages r s \<or>
      xcmp_channel_status cfg (xcmp_world s) r = Closed \<and> out_pages r s' = [] \<or>
      (\<exists>now ever page. xcmp_channel_status cfg (xcmp_world s) r = Ready now ever \<and> ever < length page \<and>
         out_pages r s = page # out_pages r s')" if none: "r \<notin> fst ` set ms"
  proof (cases "r \<in> oc_recipient ` set (OutboundXcmpStatus s)")
    case True
    obtain d d' where "channel_turn (xcmp_channel_status cfg (xcmp_world s)) d (out_pages r s)
        (SignalMessages s r) None d' (out_pages r s') (SignalMessages s' r)" and "oc_recipient d = r"
      using take_outbound_messages_entry(2) [OF assms none True] by blast
    then show ?thesis using turn_unsentD by blast
  qed (use take_outbound_messages_entry(3) [OF assms] in simp)
qed

lemma max_size_fragment:
  assumes "OutboundXcmpStatus s = []" "length (xcmp_format_encode cfg fmt) = 1"
    "xcmp_channel_max cfg (xcmp_world s) r = Some mx"
    "xcmp_channel_status cfg (xcmp_world s) r = Ready now mx"
    "length (enc f) = mx" "mx + 1 < now" "0 < n"
  shows "\<exists>s'. send_fragment cfg enc r fmt f s = (Inr 0, s') \<and> take_outbound_messages cfg n s' = None"
proof (intro exI conjI)
  let ?d = "(outbound_channel_new r)\<lparr>oc_last_index := 1\<rparr>"
  let ?s = "s\<lparr>OutboundXcmpStatus := [?d],
    OutboundXcmpMessages := (OutboundXcmpMessages s)((r, 0) \<mapsto> xcmp_format_encode cfg fmt @ enc f)\<rparr>"
  show "send_fragment cfg enc r fmt f s = (Inr 0, ?s)"
    using assms by (simp add: send_fragment_def Let_def find_or_push_def outbound_channel_new_def)
  have "take_from_channel cfg ?d ?s = (outbound_channel_new r, None,
      ?s\<lparr>OutboundXcmpMessages := (OutboundXcmpMessages ?s)((r, 0) := None)\<rparr>)"
    using assms by (simp add: take_from_channel_def outbound_channel_new_def Let_def word_gt_0)
  then show "take_outbound_messages cfg n ?s = None"
    using assms(7)
    by (simp add: take_outbound_messages_def Let_def outbound_retained_def outbound_channel_new_def min_def)
qed

lemma resume_channel_strands:
  assumes inv: "outbound_inv s" and d: "d \<in> set (OutboundXcmpStatus s)"
    and pending: "oc_signals_exist d" "oc_first_index d = oc_last_index d"
    and take: "take_outbound_messages cfg n (resume_channel (oc_recipient d) s) = Some (ms, s')"
  shows "SignalMessages s' (oc_recipient d) \<noteq> None \<and> oc_recipient d \<notin> fst ` set ms"
proof -
  let ?r = "oc_recipient d"
  obtain a b where st: "OutboundXcmpStatus s = a @ d # b" and fresh: "?r \<notin> oc_recipient ` set a"
      "?r \<notin> oc_recipient ` set b"
    using entry_split [OF outbound_invD(1) [OF inv] d] by metis
  have "position (\<lambda>d. oc_recipient d = ?r) (a @ d # b) = Some (length a)"
    using fresh by (intro position_split) (auto simp: image_iff)
  then have s1: "resume_channel ?r s = s\<lparr>OutboundXcmpStatus := a @ b\<rparr>"
    using pending(2) by (simp add: resume_channel_def st)
  have inv1: "outbound_inv (resume_channel ?r s)" using resume_channel_outbound [OF inv] by blast
  obtain xs where t: "all_turns cfg n (resume_channel ?r s) ms s' xs"
    using take_outbound_messages_turns [OF inv1 take] by blast
  note xs = all_turnsD [OF t]
  have no: "?r \<notin> oc_recipient ` set (OutboundXcmpStatus (resume_channel ?r s))"
    using fresh by (simp add: s1 image_Un)
  then have "?r \<notin> fst ` set ms"
    using subseq_set [OF sent_recipients [OF xs(1)]] xs(3) by auto
  moreover have "SignalMessages s' ?r = SignalMessages (resume_channel ?r s) ?r"
    by (rule xs(8) [OF no])
  ultimately show ?thesis using outbound_invD(3) [OF inv d] pending(1) by (simp add: s1 chan_ok_def)
qed

lemma take_outbound_messages_open:
  assumes "outbound_inv s" "take_outbound_messages cfg n s = Some (ms, s')" "(r, page) \<in> set ms"
  shows "\<exists>d \<in> set (OutboundXcmpStatus s). oc_recipient d = r \<and> oc_state d = OutOk \<and>
    (\<exists>now ever. xcmp_channel_status cfg (xcmp_world s) r = Ready now ever \<and>
       length page < now \<and> length page \<le> ever)"
  using take_outbound_messages_entry(1) [OF assms] by (auto dest!: turn_sentD)

interpretation xcmp_source: message_source outbound_inv take_outbound_messages
proof
  fix s cfg n ms and s' :: "'w xcmp_state"
  assume "outbound_inv s" "take_outbound_messages cfg n s = Some (ms, s')"
  then show "outbound_inv s'" "length ms \<le> n" "sorted_wrt (<) (map fst ms)"
    using take_outbound_messages_inv take_outbound_messages_ascending by blast+
qed

section \<open>Properties\<close>


text \<open>\<^verbatim>\<open>send_fragment\<close> fails with \<^verbatim>\<open>NoChannel\<close> exactly when there is no channel and with
  \<^verbatim>\<open>TooBig\<close> exactly when the encoded fragment is larger than the channel's messages; both leave the
  state as it is.  Otherwise it succeeds.\<close>

theorem send_fragment_result:
  "case xcmp_channel_max cfg (xcmp_world s) r of
     None \<Rightarrow> send_fragment cfg enc r fmt f s = (Inl NoChannel, s)
   | Some mx \<Rightarrow>
       if mx < length (enc f) then send_fragment cfg enc r fmt f s = (Inl TooBig, s)
       else \<exists>n s'. send_fragment cfg enc r fmt f s = (Inr n, s')"
  by (auto simp: send_fragment_def Let_def split: option.split prod.split)

text \<open>A fragment that is accepted is put at the end of the recipient's queue: either behind the
  last page, which has its format and stays within the channel's message size, or on a new page of
  its own.  The result is the number of pages before it, and no other queue changes.\<close>

theorem send_fragment_queues:
  assumes "outbound_inv s" and "index_room r s"
    and "send_fragment cfg enc r fmt f s = (Inr n, s')"
  shows "(\<exists>mx. xcmp_channel_max cfg (xcmp_world s) r = Some mx \<and>
      fragment_queued cfg mx fmt (enc f) (out_pages r s) (out_pages r s')) \<and>
    unat n + 1 = length (out_pages r s') \<and> (\<forall>r'. r' \<noteq> r \<longrightarrow> out_pages r' s' = out_pages r' s)"
  using send_fragment_success [OF assms] by blast

text \<open>C11. The messages taken for a block are at most as many as asked for, in strictly ascending order
  of recipient, and each is within the size its channel accepts now and ever; its recipient's
  channel is open and not suspended.\<close>

theorem take_outbound_messages_sound:
  assumes "outbound_inv s" and "take_outbound_messages cfg n s = Some (ms, s')"
  shows "length ms \<le> n \<and> sorted_wrt (<) (map fst ms) \<and>
    (\<forall>(r, page) \<in> set ms. \<exists>d \<in> set (OutboundXcmpStatus s). oc_recipient d = r \<and> oc_state d = OutOk \<and>
       (\<exists>now ever. xcmp_channel_status cfg (xcmp_world s) r = Ready now ever \<and>
          length page < now \<and> length page \<le> ever))"
  using take_outbound_messages_ascending [OF assms] take_outbound_messages_open [OF assms] by blast

text \<open>C12. Messages leave a channel in the order they were queued: what is sent to a recipient is either
  its page of signals, and its queue is as before, or the first page of its queue, and the rest
  stays.  A queue from which nothing is sent is as before, unless its channel is closed, or its first
  page is larger than its channel will ever accept and is dropped.\<close>

theorem take_outbound_messages_fifo:
  assumes "outbound_inv s" and "take_outbound_messages cfg n s = Some (ms, s')"
  shows "(\<forall>page. (r, page) \<in> set ms \<longrightarrow>
       SignalMessages s r = Some page \<and> out_pages r s' = out_pages r s \<or> out_pages r s = page # out_pages r s') \<and>
     (r \<notin> fst ` set ms \<longrightarrow> out_pages r s' = out_pages r s \<or>
       xcmp_channel_status cfg (xcmp_world s) r = Closed \<and> out_pages r s' = [] \<or>
       (\<exists>now ever page. xcmp_channel_status cfg (xcmp_world s) r = Ready now ever \<and> ever < length page \<and>
          out_pages r s = page # out_pages r s'))"
  using take_outbound_messages_fifo_aux [OF assms] by blast

text \<open>C24. Taking messages does not panic as long as no unsuspended channel is closed and nothing
  queued or signalled is larger than its channel will ever accept.\<close>

theorem take_outbound_messages_total:
  assumes "outbound_inv s" and "channels_accept cfg s"
  shows "\<exists>ms s'. take_outbound_messages cfg n s = Some (ms, s') \<and> outbound_inv s'"
  using take_outbound_messages_returns [OF assms] take_outbound_messages_inv [OF assms(1)] by blast

text \<open>C25. When an unsuspended channel is closed and no channel is ready, no message is taken but an entry
  is pruned, and the rotation by the difference panics.\<close>

theorem take_outbound_messages_closed_panics:
  assumes "d \<in> set (OutboundXcmpStatus s)" and "oc_state d = OutOk"
    and "xcmp_channel_status cfg (xcmp_world s) (oc_recipient d) = Closed"
    and "\<forall>d \<in> set (OutboundXcmpStatus s). oc_state d = OutSuspended \<or>
      xcmp_channel_status cfg (xcmp_world s) (oc_recipient d) \<in> {Closed, Full}"
    and "0 < n"
  shows "take_outbound_messages cfg n s = None"
  using assms by (intro take_outbound_messages_closed) auto

text \<open>C26. A fragment as large as the channel's message size is accepted, but with the byte of its format its page is
  larger.  If nothing else is outbound and the channel has room for more than that page, taking messages then drops the
  page, prunes the entry and panics.\<close>

theorem max_size_fragment_panics:
  assumes "OutboundXcmpStatus s = []" and "length (xcmp_format_encode cfg fmt) = 1"
    and "xcmp_channel_max cfg (xcmp_world s) r = Some mx"
    and "xcmp_channel_status cfg (xcmp_world s) r = Ready now mx"
    and "length (enc f) = mx" and "mx + 1 < now" and "0 < n"
  shows "\<exists>s'. send_fragment cfg enc r fmt f s = (Inr 0, s') \<and> take_outbound_messages cfg n s' = None"
  using assms by (rule max_size_fragment)

text \<open>Resuming a channel that has a signal to send but no page removes its entry and leaves the
  signal in storage, where taking messages no longer finds it.\<close>

theorem resume_channel_strands_signals:
  assumes "outbound_inv s" and "d \<in> set (OutboundXcmpStatus s)"
    and "oc_signals_exist d" and "oc_first_index d = oc_last_index d"
    and "take_outbound_messages cfg n (resume_channel (oc_recipient d) s) = Some (ms, s')"
  shows "SignalMessages s' (oc_recipient d) \<noteq> None \<and> oc_recipient d \<notin> fst ` set ms"
  by (rule resume_channel_strands [OF assms])

section \<open>A concrete instance\<close>

definition toy_channel_max :: "channel_status \<Rightarrow> nat option" where
  "toy_channel_max c = (case c of Closed \<Rightarrow> None | Full \<Rightarrow> Some 4 | Ready now ever \<Rightarrow> Some ever)"

fun toy_format_decode :: "bytes \<Rightarrow> (xcmp_message_format \<times> bytes) option" where
  "toy_format_decode [] = None"
| "toy_format_decode (b # bs) =
     (if b = 0 then Some (ConcatenatedVersionedXcm, bs) else if b = 1 then Some (ConcatenatedEncodedBlob, bs)
      else if b = 2 then Some (Signals, bs) else None)"

definition toy_xcmp :: "(u64, u64, u64, u64, unit, para_id \<Rightarrow> channel_status) xcmp_config" where
  "toy_xcmp = \<lparr>xcmp_execute_xcm = (\<lambda>from. toy_exec),
     xcmp_channel_status = (\<lambda>w. w), xcmp_channel_max = (\<lambda>w r. toy_channel_max (w r)),
     xcmp_wrap_version = (\<lambda>dest m w. (Some m, w)),
     xcmp_overweight_origin = (\<lambda>o'. o' = Root), xcmp_controller_origin = (\<lambda>o'. o' = Root),
     xcmp_convert_superuser = (\<lambda>r. if r = 1 then Some Root else None),
     xcmp_hash_sent = (\<lambda>x. [ucast x]), xcmp_hash_received = (\<lambda>x. [ucast x]),
     xcmp_encode_xcm = (\<lambda>x. [ucast x]), xcmp_encode_blob = (\<lambda>b. b),
     xcmp_decode_xcm = toy_decode, xcmp_decode_all_xcm = toy_decode_all,
     xcmp_decode_blob = (\<lambda>bs. case bs of [] \<Rightarrow> None | b # bs' \<Rightarrow> Some ([b], bs')),
     xcmp_try_from = Some, xcmp_format_encode = (\<lambda>f. [of_nat (format_index f)]),
     xcmp_format_decode = toy_format_decode, xcmp_parent_hash = (\<lambda>w. []), xcmp_next_u32 = (\<lambda>seed i. 0)\<rparr>"

text \<open>Channels 5, 7 and 9 are open; 8 is closed.\<close>

definition toy_channels :: "para_id \<Rightarrow> channel_status" where
  "toy_channels r = (if r = 5 \<or> r = 7 \<or> r = 9 then Ready 20 4 else Closed)"

definition toy_out0 :: "(para_id \<Rightarrow> channel_status) xcmp_state" where
  "toy_out0 = xcmp_genesis toy_channels"

definition toy_out1 :: "(para_id \<Rightarrow> channel_status) xcmp_state" where
  "toy_out1 = snd (send_fragment toy_xcmp id 9 ConcatenatedVersionedXcm [11] toy_out0)"

definition toy_out2 :: "(para_id \<Rightarrow> channel_status) xcmp_state" where
  "toy_out2 = send_signal toy_xcmp 5 Suspend
     (snd (send_fragment toy_xcmp id 9 ConcatenatedVersionedXcm [12, 13, 14] toy_out1))"

lemma toy_reachable0: "outbound_reachable toy_xcmp toy_out0"
  unfolding toy_out0_def by (rule out_start)

lemma toy_reachable1: "outbound_reachable toy_xcmp toy_out1"
proof -
  have "index_room 9 toy_out0" by code_simp
  then show ?thesis
    unfolding toy_out1_def by (rule out_fragment [OF toy_reachable0 _ prod.collapse [symmetric]])
qed

lemma toy_reachable2: "outbound_reachable toy_xcmp toy_out2"
proof -
  have "index_room 9 toy_out1" by code_simp
  then show ?thesis
    unfolding toy_out2_def by (intro out_signal out_fragment [OF toy_reachable1 _ prod.collapse [symmetric]])
qed

lemma toy_taken:
  "map_option fst (take_outbound_messages toy_xcmp 3 toy_out2) = Some [(5, [2, 0]), (9, [0, 11])]"
  by code_simp

lemma toy_take_eq:
  obtains s' where "take_outbound_messages toy_xcmp 3 toy_out2 = Some ([(5, [2, 0]), (9, [0, 11])], s')"
  using toy_taken by (cases "take_outbound_messages toy_xcmp 3 toy_out2") auto


theorem send_fragment_queues_witness:
  "out_pages 9 (snd (send_fragment toy_xcmp id 9 ConcatenatedVersionedXcm [17] toy_out1)) = [[0, 11, 17]] \<and>
   (\<exists>mx. xcmp_channel_max toy_xcmp toy_channels 9 = Some mx \<and>
      fragment_queued toy_xcmp mx ConcatenatedVersionedXcm [17] [[0, 11]] [[0, 11, 17]]) \<and>
   unat (0 :: u32) + 1 = length [[0, 11, 17 :: u8]]"
proof -
  let ?s = "snd (send_fragment toy_xcmp id 9 ConcatenatedVersionedXcm [17] toy_out1)"
  have room: "index_room 9 toy_out1" by code_simp
  have "fst (send_fragment toy_xcmp id 9 ConcatenatedVersionedXcm [17] toy_out1) = Inr 0" by code_simp
  then have send: "send_fragment toy_xcmp id 9 ConcatenatedVersionedXcm [17] toy_out1 = (Inr 0, ?s)"
    by (metis prod.collapse)
  have pages: "out_pages 9 ?s = [[0, 11, 17]]" "out_pages 9 toy_out1 = [[0, 11]]" by code_simp+
  have "xcmp_world toy_out1 = toy_channels"
    by (simp add: toy_out1_def toy_out0_def send_fragment_def xcmp_genesis_def Let_def
        split: option.split prod.split)
  with send_fragment_queues [OF outbound_inv_reachable [OF toy_reachable1] room send] pages
  show ?thesis by simp
qed

theorem take_outbound_messages_sound_witness:
  "\<exists>s'. take_outbound_messages toy_xcmp 3 toy_out2 = Some ([(5, [2, 0]), (9, [0, 11])], s') \<and>
     length [(5, [2, 0]), (9 :: para_id, [0, 11 :: u8])] \<le> 3 \<and> sorted_wrt (<) [5, 9 :: para_id]"
proof -
  obtain s' where s': "take_outbound_messages toy_xcmp 3 toy_out2 = Some ([(5, [2, 0]), (9, [0, 11])], s')"
    by (rule toy_take_eq)
  with take_outbound_messages_sound [OF outbound_inv_reachable [OF toy_reachable2] s'] show ?thesis by simp
qed

theorem take_outbound_messages_fifo_witness:
  "\<exists>s'. take_outbound_messages toy_xcmp 3 toy_out2 = Some ([(5, [2, 0]), (9, [0, 11])], s') \<and>
     out_pages 9 toy_out2 = [0, 11] # out_pages 9 s'"
proof -
  obtain s' where s': "take_outbound_messages toy_xcmp 3 toy_out2 = Some ([(5, [2, 0]), (9, [0, 11])], s')"
    by (rule toy_take_eq)
  have "SignalMessages toy_out2 9 = None" by code_simp
  with take_outbound_messages_fifo [OF outbound_inv_reachable [OF toy_reachable2] s', of 9] s'
  show ?thesis by simp
qed

theorem take_outbound_messages_total_witness:
  "\<exists>ms s'. take_outbound_messages toy_xcmp 1 toy_out1 = Some (ms, s') \<and> outbound_inv s'"
proof -
  have "OutboundXcmpStatus toy_out1 = [\<lparr>oc_recipient = 9, oc_state = OutOk, oc_signals_exist = False,
      oc_first_index = 0, oc_last_index = 1\<rparr>]" "xcmp_channel_status toy_xcmp (xcmp_world toy_out1) 9 = Ready 20 4"
    "SignalMessages toy_out1 9 = None"
    "chan_pages \<lparr>oc_recipient = 9, oc_state = OutOk, oc_signals_exist = False,
      oc_first_index = 0, oc_last_index = 1\<rparr> (OutboundXcmpMessages toy_out1) = [[0, 11]]"
    by code_simp+
  then have "channels_accept toy_xcmp toy_out1" by (simp add: channels_accept_def)
  then show ?thesis by (rule take_outbound_messages_total [OF outbound_inv_reachable [OF toy_reachable1]])
qed

definition toy_closing :: "(para_id \<Rightarrow> channel_status) xcmp_state" where
  "toy_closing = toy_out1\<lparr>xcmp_world := (\<lambda>r. Closed)\<rparr>"

theorem take_outbound_messages_closed_panics_witness:
  "outbound_inv toy_closing \<and> take_outbound_messages toy_xcmp 3 toy_closing = None"
proof -
  have "outbound_reachable toy_xcmp toy_closing"
    by (rule out_other [OF toy_reachable1]) (simp_all add: toy_closing_def)
  moreover have "OutboundXcmpStatus toy_closing = [\<lparr>oc_recipient = 9, oc_state = OutOk, oc_signals_exist = False,
      oc_first_index = 0, oc_last_index = 1\<rparr>]" "xcmp_channel_status toy_xcmp (xcmp_world toy_closing) 9 = Closed"
    by code_simp+
  ultimately show ?thesis
    using take_outbound_messages_closed_panics [of _ toy_closing toy_xcmp 3] outbound_inv_reachable by auto
qed

theorem max_size_fragment_panics_witness:
  "\<exists>s'. send_fragment toy_xcmp id 7 ConcatenatedVersionedXcm [1, 2, 3, 4] toy_out0 = (Inr 0, s') \<and>
     take_outbound_messages toy_xcmp 3 s' = None"
proof (rule max_size_fragment_panics)
  show "xcmp_channel_status toy_xcmp (xcmp_world toy_out0) 7 = Ready 20 4" by code_simp
  show "xcmp_channel_max toy_xcmp (xcmp_world toy_out0) 7 = Some 4" by code_simp
qed (simp_all add: toy_out0_def xcmp_genesis_def toy_xcmp_def)

definition toy_pending :: "(para_id \<Rightarrow> channel_status) xcmp_state" where
  "toy_pending = send_signal toy_xcmp 7 Suspend toy_out0"

theorem resume_channel_strands_signals_witness:
  "\<exists>ms s'. take_outbound_messages toy_xcmp 3 (resume_channel 7 toy_pending) = Some (ms, s') \<and>
     SignalMessages s' 7 \<noteq> None \<and> 7 \<notin> fst ` set ms"
proof -
  let ?d = "\<lparr>oc_recipient = 7, oc_state = OutOk, oc_signals_exist = True, oc_first_index = 0, oc_last_index = 0\<rparr>"
  have inv: "outbound_inv toy_pending"
    using out_signal [OF toy_reachable0] outbound_inv_reachable unfolding toy_pending_def by blast
  have d: "?d \<in> set (OutboundXcmpStatus toy_pending)" by code_simp
  have "map_option fst (take_outbound_messages toy_xcmp 3 (resume_channel 7 toy_pending)) = Some []"
    by code_simp
  then obtain s' where take: "take_outbound_messages toy_xcmp 3 (resume_channel 7 toy_pending) = Some ([], s')"
    by (cases "take_outbound_messages toy_xcmp 3 (resume_channel 7 toy_pending)") auto
  show ?thesis using resume_channel_strands_signals [OF inv d, of toy_xcmp 3 "[]" s'] take by simp
qed

end
