(* ===== verification/Xcmp_Inbound.thy ===== *)
theory Xcmp_Inbound
  imports Xcmp_Outbound
begin

text \<open>
  The inbound side of the cross-chain message queue: executing the fragments of a page, the loop that
  services the channels in turn, and receiving the pages of a block.  Pages are consumed from the
  front and the loop ends within its weight; the library code it relies on is described by
  \<open>xcmp_executor_bounded\<close> and \<open>xcmp_decoders_consume\<close>.
\<close>

section \<open>What the pallet relies on\<close>

text \<open>
  The executor uses no more than its limit, and reports that the limit is too small only with a
  requirement above it.  The decoders of the fragments consume what they read: what they leave is a
  proper suffix of their input.
\<close>

definition xcmp_executor_bounded :: "('m, 'u, 'v, 'x, 'acc, 'w) xcmp_config \<Rightarrow> bool" where
  "xcmp_executor_bounded cfg \<longleftrightarrow> (\<forall>p x limit s.
     case fst (xcmp_execute_xcm cfg p x limit s) of
       Complete w \<Rightarrow> w \<le> limit
     | Incomplete w e \<Rightarrow> w \<le> limit
     | OutcomeError e \<Rightarrow> (case e of WeightLimitReached required \<Rightarrow> limit < required | _ \<Rightarrow> True))"

definition xcmp_decoders_consume :: "('m, 'u, 'v, 'x, 'acc, 'w) xcmp_config \<Rightarrow> bool" where
  "xcmp_decoders_consume cfg \<longleftrightarrow>
     (\<forall>bs v rest. xcmp_decode_xcm cfg bs = Some (v, rest) \<longrightarrow> strict_suffix rest bs) \<and>
     (\<forall>bs v rest. xcmp_decode_blob cfg bs = Some (v, rest) \<longrightarrow> strict_suffix rest bs)"

definition xcmp_libraries_ok :: "('m, 'u, 'v, 'x, 'acc, 'w) xcmp_config \<Rightarrow> bool" where
  "xcmp_libraries_ok cfg \<longleftrightarrow> xcmp_executor_bounded cfg \<and> xcmp_decoders_consume cfg"

section \<open>One page\<close>

lemma decode_xcm_suffix:
  assumes "xcmp_decoders_consume cfg" "xcmp_decode_xcm cfg bs = Some (v, rest)"
  shows "suffix rest bs" and "length rest < length bs"
proof -
  have "strict_suffix rest bs" using assms by (simp add: xcmp_decoders_consume_def)
  then show "suffix rest bs" "length rest < length bs" by (auto simp: strict_suffix_def suffix_length_less)
qed

lemma decode_blob_shorter:
  assumes "xcmp_decoders_consume cfg" "xcmp_decode_blob cfg bs = Some (b, rest)"
  shows "length rest < length bs"
proof -
  have "strict_suffix rest bs" using assms by (simp add: xcmp_decoders_consume_def)
  then show ?thesis by (rule suffix_length_less)
qed

lemma handle_xcm_message_bound:
  assumes "xcmp_executor_bounded cfg" "handle_xcm_message cfg p sent_at v limit s = (res, s')"
  shows "res = Inr used \<Longrightarrow> used \<le> limit" and "res = Inl (WeightLimitReached required) \<Longrightarrow> limit < required"
proof -
  obtain out s1 where run: "\<And>x. xcmp_try_from cfg v = Some x \<Longrightarrow> xcmp_execute_xcm cfg p x limit s = (out, s1)"
    by (cases "xcmp_try_from cfg v"; fastforce)
  have b: "case out of Complete w \<Rightarrow> w \<le> limit | Incomplete w e \<Rightarrow> w \<le> limit
      | OutcomeError e \<Rightarrow> (case e of WeightLimitReached required \<Rightarrow> limit < required | _ \<Rightarrow> True)"
    if "xcmp_try_from cfg v = Some x" for x
    using assms(1) run [OF that] unfolding xcmp_executor_bounded_def by (metis fst_conv)
  show "res = Inr used \<Longrightarrow> used \<le> limit" "res = Inl (WeightLimitReached required) \<Longrightarrow> limit < required"
    using assms(2) b run
    by (auto simp: handle_xcm_message_def Let_def split: option.splits outcome.splits)
qed

text \<open>The loop over the fragments returns: it leaves a suffix of the page, uses no more than the
  limit, and leaves something only when it has used some weight.\<close>

definition fragments_done :: "weight \<Rightarrow> bytes \<Rightarrow> bytes \<times> weight \<times> 's \<Rightarrow> bool" where
  "fragments_done limit page r \<longleftrightarrow> suffix (fst r) page \<and> fst (snd r) \<le> limit \<and> (fst r \<noteq> [] \<longrightarrow> 0 < fst (snd r))"

lemma fragments_done_suffix: "fragments_done limit page r \<Longrightarrow> suffix page page' \<Longrightarrow> fragments_done limit page' r"
  by (auto simp: fragments_done_def)

lemma xcm_fragments_done:
  assumes "xcmp_executor_bounded cfg" "xcmp_decoders_consume cfg"
  shows "used \<le> limit \<Longrightarrow>
    \<exists>r. xcm_fragments cfg p sent_at limit max_ind page used s = Some r \<and> fragments_done limit page r"
proof (induction "length page" arbitrary: page used s rule: less_induct)
  case less
  show ?case
  proof (cases "page = [] \<or> xcmp_decode_xcm cfg page = None")
    case True
    then have "xcm_fragments cfg p sent_at limit max_ind page used s = Some ([], used, s)"
      by (subst xcm_fragments.simps) auto
    then show ?thesis using less.prems by (simp add: fragments_done_def)
  next
    case False
    then obtain v rest where dec: "page \<noteq> []" "xcmp_decode_xcm cfg page = Some (v, rest)" by auto
    note suf = decode_xcm_suffix [OF assms(2) dec(2)]
    have again: "\<exists>r. xcm_fragments cfg p sent_at limit max_ind rest used' s' = Some r \<and> fragments_done limit page r"
      if "used' \<le> limit" for used' s'
      using less.hyps [OF suf(2) that] fragments_done_suffix [OF _ suf(1)] by blast
    obtain res s1 where run: "handle_xcm_message cfg p sent_at v (limit - used) s = (res, s1)" by fastforce
    note bound = handle_xcm_message_bound [OF assms(1) run]
    note unfold = xcm_fragments.simps [of cfg p sent_at limit max_ind page used s]
    show ?thesis
    proof (cases res)
      case (Inr w)
      have "w \<le> sat_sub limit used" using bound(1) [OF Inr] less.prems by (simp add: sat_sub_def)
      then have "sat_add used w \<le> limit" using less.prems by (blast intro: weight_bounds)
      then show ?thesis using again dec run Inr unfold by simp
    next
      case (Inl e)
      show ?thesis
      proof (cases "\<exists>required. e = WeightLimitReached required \<and> \<not> max_ind < required \<and> required \<le> limit")
        case True
        then obtain required where e: "e = WeightLimitReached required" "\<not> max_ind < required" "required \<le> limit"
          by blast
        have "limit - used < required" using bound(2) Inl e(1) by simp
        then have "used \<noteq> 0" using e(3) by auto
        then show ?thesis
          using dec run Inl e unfold less.prems by (simp add: fragments_done_def word_gt_0)
      next
        case False
        then show ?thesis
          using again [OF less.prems] dec run Inl unfold
          by (cases e) (auto simp: Let_def split: prod.split)
      qed
    qed
  qed
qed

lemma blob_fragments_done:
  assumes "xcmp_decoders_consume cfg"
  shows "blob_fragments cfg p sent_at limit page used = Some ([], used)"
proof (induction "length page" arbitrary: page rule: less_induct)
  case less
  show ?case
    using less decode_blob_shorter [OF assms] by (subst blob_fragments.simps) (auto simp: handle_blob_message_def split: option.split)
qed

lemma process_xcmp_message_done:
  assumes "xcmp_executor_bounded cfg" "xcmp_decoders_consume cfg"
  shows "\<exists>w is_empty s'. process_xcmp_message cfg p meta limit max_ind s = Some (w, is_empty, s') \<and>
    w \<le> limit \<and> (\<not> is_empty \<longrightarrow> 0 < w) \<and>
    (if is_empty then InboundXcmpMessages s' (p, fst meta) = None
     else \<exists>rest. InboundXcmpMessages s' (p, fst meta) = Some rest \<and> rest \<noteq> [] \<and>
       suffix rest (value_query (InboundXcmpMessages s) (p, fst meta)))"
proof (cases "snd meta")
  case ConcatenatedVersionedXcm
  let ?page = "value_query (InboundXcmpMessages s) (p, fst meta)"
  obtain rest w s1 where "xcm_fragments cfg p (fst meta) limit max_ind ?page 0 s = Some (rest, w, s1)"
      "fragments_done limit ?page (rest, w, s1)"
    using xcm_fragments_done [OF assms, of 0 limit p "fst meta" max_ind ?page s] by auto
  then show ?thesis
    using ConcatenatedVersionedXcm
    by (intro exI [of _ w] exI [of _ "rest = []"])
      (auto simp: process_xcmp_message_def fragments_done_def Let_def)
next
  case ConcatenatedEncodedBlob
  then show ?thesis by (auto simp: process_xcmp_message_def blob_fragments_done [OF assms(2)] Let_def)
next
  case Signals
  then show ?thesis by (auto simp: process_xcmp_message_def Let_def)
qed

section \<open>One turn of a channel\<close>

lemma service_channel_done:
  assumes "xcmp_executor_bounded cfg" "xcmp_decoders_consume cfg"
  shows "\<exists>w chan' s'. service_channel cfg config limit chan s = Some (w, chan', s') \<and> w \<le> limit \<and>
    ic_sender chan' = ic_sender chan \<and>
    (if w = 0 then message_metadata chan' = tl (message_metadata chan)
     else message_metadata chan' \<in> {message_metadata chan, tl (message_metadata chan)})"
proof (cases "message_metadata chan")
  case Nil
  then show ?thesis by (simp add: service_channel_def Let_def)
next
  case (Cons meta metas)
  obtain w is_empty s1
    where "process_xcmp_message cfg (ic_sender chan) meta limit (xcmp_max_individual_weight config) s =
        Some (w, is_empty, s1)" "w \<le> limit" "\<not> is_empty \<longrightarrow> 0 < w"
    using process_xcmp_message_done [OF assms] by blast
  with Cons show ?thesis by (simp add: service_channel_def Let_def) blast
qed

lemma next_weight_available_done:
  assumes "avail \<le> max_weight"
  shows "decay + 1 = 0 \<and> next_weight_available max_weight thr decay first avail = None \<or>
    (\<exists>a. next_weight_available max_weight thr decay first avail = Some a \<and> avail \<le> a \<and> a \<le> max_weight)"
proof -
  have "unat ((max_weight - avail) div (decay + 1)) \<le> unat (max_weight - avail)"
    by (simp add: unat_div)
  then have "(max_weight - avail) div (decay + 1) \<le> sat_sub max_weight avail"
    using assms by (simp add: word_le_nat_alt sat_sub_def)
  from plus_within [OF assms this] show ?thesis
    using assms by (auto simp: next_weight_available_def Let_def)
qed

section \<open>The service loop\<close>

text \<open>
  The loop ends: every turn that does not end a channel's part in it either uses weight or consumes a
  page.
\<close>

definition metadata_left :: "inbound_channel_details list \<Rightarrow> nat" where
  "metadata_left status = sum_list (map (\<lambda>c. length (message_metadata c)) status)"

definition channels_advance :: "inbound_channel_details list \<Rightarrow> inbound_channel_details list \<Rightarrow> bool" where
  "channels_advance = list_all2 (\<lambda>c c'. ic_sender c' = ic_sender c \<and> suffix (message_metadata c') (message_metadata c))"

lemma channels_advance_refl: "channels_advance status status"
  by (simp add: channels_advance_def list_all2_refl)

lemma channels_advance_trans: "channels_advance a b \<Longrightarrow> channels_advance b c \<Longrightarrow> channels_advance a c"
  unfolding channels_advance_def by (rule list_all2_trans) (auto dest: suffix_order.trans)

lemma channels_advance_update:
  assumes "i < length status" "ic_sender c = ic_sender (status ! i)"
    "suffix (message_metadata c) (message_metadata (status ! i))"
  shows "channels_advance status (status[i := c])"
  using assms by (auto simp: channels_advance_def list_all2_conv_all_nth nth_list_update)

lemma metadata_left_update:
  assumes "i < length status" "message_metadata (status ! i) \<noteq> []"
    "message_metadata c = tl (message_metadata (status ! i))"
  shows "metadata_left (status[i := c]) < metadata_left status"
proof -
  have "length (message_metadata (status ! i)) \<le> metadata_left status"
    unfolding metadata_left_def using assms(1) by (intro member_le_sum_list) auto
  then show ?thesis
    using assms by (cases "message_metadata (status ! i)")
      (auto simp: metadata_left_def map_update sum_list_update)
qed

lemma metadata_left_le:
  assumes "i < length status" "suffix (message_metadata c) (message_metadata (status ! i))"
  shows "metadata_left (status[i := c]) \<le> metadata_left status"
  using assms suffix_length_le [OF assms(2)]
    member_le_sum_list [of "length (message_metadata (status ! i))" "map (\<lambda>c. length (message_metadata c)) status"]
  by (auto simp: metadata_left_def map_update sum_list_update)

lemma service_loop_step:
  assumes "idx < length shuffled \<and> threshold_weight config \<le> sat_sub max_weight used"
    and "i = shuffled ! idx" "i < length status"
    and "\<not> (suspended \<and> \<not> sender_is_controller cfg (ic_sender (status ! i)))"
    and "next_weight_available max_weight (threshold_weight config) (weight_restrict_decay config)
      (idx < length status) avail = Some a"
    and "service_channel cfg config (sat_sub a used) (status ! i) s = Some (w, c, s1)"
  shows "\<exists>sh idx'. set sh \<subseteq> set shuffled \<and>
    (message_metadata c \<noteq> [] \<or> length sh - idx' < length shuffled - idx) \<and>
    service_loop cfg config suspended max_weight status shuffled idx used avail s =
    service_loop cfg config suspended max_weight (status[i := c]) sh idx' (used + w) a s1"
proof -
  have sub: "set (shuffled @ [i]) \<subseteq> set shuffled" using assms(1,2) by simp
  have eq: "service_loop cfg config suspended max_weight status shuffled idx used avail s =
    (if message_metadata c \<noteq> [] \<and> (w > 0 \<or> a \<noteq> max_weight) then
       if idx + 1 = length shuffled
       then service_loop cfg config suspended max_weight (status[i := c]) shuffled idx (used + w) a s1
       else service_loop cfg config suspended max_weight (status[i := c]) (shuffled @ [i]) (idx + 1) (used + w) a s1
     else service_loop cfg config suspended max_weight (status[i := c]) shuffled (idx + 1) (used + w) a s1)"
    unfolding service_loop.simps [of cfg config suspended max_weight status shuffled idx used avail s]
    by (simp only: Let_def assms(1,3-6) assms(2) [symmetric] if_True if_False option.case prod.case simp_thms)
  have dec: "length shuffled - (idx + 1) < length shuffled - idx" using assms(1) by linarith
  show ?thesis
  proof (cases "message_metadata c \<noteq> [] \<and> (w > 0 \<or> a \<noteq> max_weight)")
    case True
    show ?thesis
    proof (cases "idx + 1 = length shuffled")
      case last: True
      show ?thesis
        by (intro exI [of _ shuffled] exI [of _ idx]) (use True last in \<open>simp add: eq\<close>)
    next
      case False
      show ?thesis
        by (intro exI [of _ "shuffled @ [i]"] exI [of _ "idx + 1"]) (use True False sub in \<open>simp add: eq\<close>)
    qed
  next
    case False
    show ?thesis
      by (intro exI [of _ shuffled] exI [of _ "idx + 1"])
        (simp only: eq if_not_P [OF False] dec order_refl simp_thms)
  qed
qed

text \<open>The loop panics only when the division by \<open>weight_restrict_decay + 1\<close> does.\<close>

definition loop_result :: "queue_config_data \<Rightarrow> weight \<Rightarrow> weight \<Rightarrow> inbound_channel_details list \<Rightarrow>
     (weight \<times> inbound_channel_details list \<times> 's) option \<Rightarrow> bool" where
  "loop_result config max_weight used status r \<longleftrightarrow>
     (case r of None \<Rightarrow> weight_restrict_decay config + 1 = 0
      | Some (w, status', s') \<Rightarrow> used \<le> w \<and> w \<le> max_weight \<and> channels_advance status status')"

lemma loop_result_weaken:
  "loop_result config max_weight used' status' r \<Longrightarrow> used \<le> used' \<Longrightarrow> channels_advance status status' \<Longrightarrow>
     loop_result config max_weight used status r"
  by (auto simp: loop_result_def split: option.splits intro: channels_advance_trans order_trans)

text \<open>What decreases: the weight left, then the pages left, then the channels of this pass.\<close>

definition loop_order where
  "loop_order max_weight = measures [\<lambda>(status, shuffled, idx, used, avail, s). unat max_weight - unat used,
     \<lambda>(status, shuffled, idx, used, avail, s). metadata_left status,
     \<lambda>(status, shuffled, idx, used, avail, s). length shuffled - idx]"

lemma loop_order_step:
  assumes "used \<le> max_weight" "w \<le> sat_sub max_weight used"
    and "0 < w \<or> metadata_left st < metadata_left status \<or>
      metadata_left st \<le> metadata_left status \<and> length sh - idx' < length shuffled - idx"
  shows "((st, sh, idx', used + w, a, s1), (status, shuffled, idx, used, avail, s)) \<in> loop_order max_weight"
proof (cases "w = 0")
  case True
  then show ?thesis using assms(3) by (auto simp: loop_order_def)
next
  case False
  then have "0 < unat w" by (simp add: unat_gt_0)
  moreover have "unat used + unat w \<le> unat max_weight"
    using plus_within [OF assms(1,2)] unat_plus_within [OF assms(1,2)] by (simp add: word_le_nat_alt)
  ultimately have "unat max_weight - unat (used + w) < unat max_weight - unat used"
    using unat_plus_within [OF assms(1,2)] by linarith
  then show ?thesis by (simp add: loop_order_def)
qed

lemma wf_loop_order: "wf (loop_order max_weight)"
  unfolding loop_order_def by (rule wf_measures)

text \<open>A turn of the loop in which a channel is served.\<close>

lemma service_loop_turn:
  assumes lib: "xcmp_executor_bounded cfg" "xcmp_decoders_consume cfg"
    and used: "used \<le> max_weight"
    and run: "idx < length shuffled \<and> threshold_weight config \<le> sat_sub max_weight used"
    and i: "i = shuffled ! idx" "i < length status"
    and served: "\<not> (suspended \<and> \<not> sender_is_controller cfg (ic_sender (status ! i)))"
    and a: "next_weight_available max_weight (threshold_weight config) (weight_restrict_decay config) (idx < length status) avail = Some a"
      "a \<le> max_weight"
  obtains st sh idx' w s1 where
    "service_loop cfg config suspended max_weight status shuffled idx used avail s =
       service_loop cfg config suspended max_weight st sh idx' (used + w) a s1"
    "set sh \<subseteq> set shuffled" "used + w \<le> max_weight" "used \<le> used + w" "channels_advance status st" "length st = length status"
    "((st, sh, idx', used + w, a, s1), (status, shuffled, idx, used, avail, s)) \<in> loop_order max_weight"
proof -
  obtain w c s1 where c: "service_channel cfg config (sat_sub a used) (status ! i) s = Some (w, c, s1)"
      "w \<le> sat_sub a used" "ic_sender c = ic_sender (status ! i)"
      "if w = 0 then message_metadata c = tl (message_metadata (status ! i))
       else message_metadata c \<in> {message_metadata (status ! i), tl (message_metadata (status ! i))}"
    using service_channel_done [OF lib] by blast
  have suf: "suffix (message_metadata c) (message_metadata (status ! i))"
    using c(4) by (auto split: if_splits simp: suffix_tl)
  have w: "w \<le> sat_sub max_weight used"
    using c(2) a(2) by (auto simp: word_le_nat_alt unat_sat_sub)
  obtain sh idx' where step: "set sh \<subseteq> set shuffled" "message_metadata c \<noteq> [] \<or> length sh - idx' < length shuffled - idx"
      "service_loop cfg config suspended max_weight status shuffled idx used avail s =
       service_loop cfg config suspended max_weight (status[i := c]) sh idx' (used + w) a s1"
    using service_loop_step [OF run i served a(1) c(1)] by blast
  have "0 < w \<or> metadata_left (status[i := c]) < metadata_left status \<or>
      metadata_left (status[i := c]) \<le> metadata_left status \<and> length sh - idx' < length shuffled - idx"
    using step(2) metadata_left_update [OF i(2), of c] metadata_left_le [OF i(2) suf] c(4)
    by (cases "w = 0"; cases "message_metadata (status ! i)") (auto simp: word_gt_0)
  from that [OF step(3,1) plus_within [OF used w] channels_advance_update [OF i(2) c(3) suf] _ loop_order_step [OF used w this]]
  show thesis by simp
qed

lemma service_loop_done:
  assumes lib: "xcmp_executor_bounded cfg" "xcmp_decoders_consume cfg"
  shows "used \<le> max_weight \<Longrightarrow> avail \<le> max_weight \<Longrightarrow> \<forall>i \<in> set shuffled. i < length status \<Longrightarrow>
    loop_result config max_weight used status
      (service_loop cfg config suspended max_weight status shuffled idx used avail s)"
proof (induction "(status, shuffled, idx, used, avail, s)" arbitrary: status shuffled idx used avail s
    rule: wf_induct_rule [OF wf_loop_order [of max_weight]])
  case (1 status shuffled idx used avail s)
  note unfold = service_loop.simps [of cfg config suspended max_weight status shuffled idx used avail s]
  define i where "i = shuffled ! idx"
  consider (stop) "\<not> (idx < length shuffled \<and> threshold_weight config \<le> sat_sub max_weight used)"
    | (skip) "idx < length shuffled \<and> threshold_weight config \<le> sat_sub max_weight used"
        "suspended \<and> \<not> sender_is_controller cfg (ic_sender (status ! i))"
    | (serve) "idx < length shuffled \<and> threshold_weight config \<le> sat_sub max_weight used"
        "\<not> (suspended \<and> \<not> sender_is_controller cfg (ic_sender (status ! i)))" by blast
  then show ?case
  proof cases
    case stop
    then show ?thesis using "1.prems" channels_advance_refl by (auto simp: unfold loop_result_def)
  next
    case skip
    then show ?thesis
      using unfold "1.hyps" [of status shuffled "idx + 1" used avail s] "1.prems"
      by (auto simp: i_def Let_def loop_order_def)
  next
    case serve
    have i: "i < length status" using serve(1) "1.prems"(3) by (simp add: i_def)
    let ?next = "next_weight_available max_weight (threshold_weight config) (weight_restrict_decay config) (idx < length status) avail"
    show ?thesis
    proof (cases "weight_restrict_decay config + 1 = 0 \<and> ?next = None")
      case True
      then show ?thesis using unfold serve i by (auto simp: i_def loop_result_def)
    next
      case False
      then obtain a where a: "?next = Some a" "avail \<le> a" "a \<le> max_weight"
        using next_weight_available_done [OF "1.prems"(2)] by blast
      from service_loop_turn [OF lib "1.prems"(1) serve(1) i_def i serve(2) a(1,3)] obtain st sh idx' w s1 where
        turn: "service_loop cfg config suspended max_weight status shuffled idx used avail s =
            service_loop cfg config suspended max_weight st sh idx' (used + w) a s1"
          "set sh \<subseteq> set shuffled" "used + w \<le> max_weight" "used \<le> used + w" "channels_advance status st" "length st = length status"
          "((st, sh, idx', used + w, a, s1), (status, shuffled, idx, used, avail, s)) \<in> loop_order max_weight" .
      have "loop_result config max_weight (used + w) st (service_loop cfg config suspended max_weight st sh idx' (used + w) a s1)"
        using "1.hyps" [OF turn(7) turn(3) a(3)] turn(2,6) "1.prems"(3) by auto
      from loop_result_weaken [OF this turn(4,5)] show ?thesis by (simp only: turn(1))
    qed
  qed
qed

section \<open>The whole queue\<close>

lemma mset_create_shuffle: "mset (create_shuffle cfg len s) = mset [0..<len]"
proof -
  have "mset (fold (\<lambda>i sh. swap i (f i mod len) sh) is sh) = mset sh"
    if "length sh = len" "\<forall>i \<in> set is. i < len" for f :: "nat \<Rightarrow> nat" and "is" and sh :: "nat list"
    using that
  proof (induction "is" arbitrary: sh)
    case (Cons i "is")
    then have "mset (swap i (f i mod len) sh) = mset sh" by (intro mset_swap_at) auto
    with Cons show ?case by simp
  qed simp
  then show ?thesis by (simp add: create_shuffle_def Let_def)
qed

lemma service_xcmp_queue_done:
  assumes lib: "xcmp_executor_bounded cfg" "xcmp_decoders_consume cfg"
  shows "case service_xcmp_queue cfg max_weight s of
      None \<Rightarrow> weight_restrict_decay (QueueConfig s) + 1 = 0
    | Some (w, s') \<Rightarrow> w \<le> max_weight \<and>
        (\<exists>status. channels_advance (InboundXcmpStatus s) status \<and>
           InboundXcmpStatus s' = (if InboundXcmpStatus s = [] then []
             else filter (\<lambda>item. message_metadata item \<noteq> []) status))"
proof (cases "InboundXcmpStatus s = []")
  case True
  then show ?thesis by (auto simp: service_xcmp_queue_def Let_def intro: channels_advance_refl)
next
  case False
  let ?n = "length (InboundXcmpStatus s)"
  have "set (create_shuffle cfg ?n s) = {0..<?n}"
    using mset_eq_setD [OF mset_create_shuffle] by simp
  then have "loop_result (QueueConfig s) max_weight 0 (InboundXcmpStatus s)
      (service_loop cfg (QueueConfig s) (QueueSuspended s) max_weight (InboundXcmpStatus s)
        (create_shuffle cfg ?n s) 0 0 0 s)"
    by (intro service_loop_done [OF lib]) auto
  with False show ?thesis
    by (auto simp: service_xcmp_queue_def Let_def loop_result_def split: option.splits)
qed

section \<open>Receiving\<close>

lemma signal_frames [simp]:
  "QueueConfig (send_signal cfg p sg s) = QueueConfig s"
  "QueueConfig (suspend_channel p s) = QueueConfig s"
  "QueueConfig (resume_channel p s) = QueueConfig s"
  by (simp_all add: send_signal_def suspend_channel_def resume_channel_def Let_def split: option.split)

lemma handle_signals_config [simp]: "QueueConfig (handle_signals p bs s) = QueueConfig s"
proof (induction p bs s rule: handle_signals.induct)
  case (1 p bs s)
  show ?case
    by (subst handle_signals.simps)
      (auto simp: "1.IH" signal_frames split: option.split channel_signal.split)
qed

lemma receive_messages_config:
  "receive_messages cfg config ms status s = (status', s') \<Longrightarrow> QueueConfig s' = QueueConfig s"
proof (induction ms arbitrary: status s)
  case (Cons m ms)
  then show ?case
    by (cases m) (fastforce simp: Let_def split: option.splits prod.splits if_splits)
qed simp

lemma handle_xcmp_messages_done:
  assumes lib: "xcmp_executor_bounded cfg" "xcmp_decoders_consume cfg"
  shows "case handle_xcmp_messages cfg ms max_weight s of
      None \<Rightarrow> weight_restrict_decay (QueueConfig s) + 1 = 0
    | Some (w, s') \<Rightarrow> w \<le> max_weight"
proof -
  obtain st s1 where rec: "receive_messages cfg (QueueConfig s) ms (InboundXcmpStatus s) s = (st, s1)" by fastforce
  show ?thesis
    using service_xcmp_queue_done [OF lib,
        where max_weight = max_weight and s = "s1\<lparr>InboundXcmpStatus := sort_key inbound_key st\<rparr>"]
      receive_messages_config [OF rec]
    by (auto simp: handle_xcmp_messages_def rec split: option.splits)
qed

interpretation xcmp_handler: weight_limited_total xcmp_libraries_ok handle_xcmp_messages
  "\<lambda>cfg s. weight_restrict_decay (QueueConfig s) + 1 \<noteq> 0"
proof
  fix cfg :: "('m, 'u, 'v, 'x, 'acc, 'w) xcmp_config" and ms limit used and s s' :: "'w xcmp_state"
  assume "xcmp_libraries_ok cfg" "handle_xcmp_messages cfg ms limit s = Some (used, s')"
  then show "used \<le> limit"
    using handle_xcmp_messages_done [where cfg = cfg and ms = ms and max_weight = limit and s = s]
    by (auto simp: xcmp_libraries_ok_def)
next
  fix cfg :: "('m, 'u, 'v, 'x, 'acc, 'w) xcmp_config" and ms limit and s :: "'w xcmp_state"
  assume "xcmp_libraries_ok cfg" "weight_restrict_decay (QueueConfig s) + 1 \<noteq> 0"
  then show "handle_xcmp_messages cfg ms limit s \<noteq> None"
    using handle_xcmp_messages_done [where cfg = cfg and ms = ms and max_weight = limit and s = s]
    by (auto simp: xcmp_libraries_ok_def split: option.splits)
qed

definition metadata_bounded :: "queue_config_data \<Rightarrow> inbound_channel_details list \<Rightarrow> bool" where
  "metadata_bounded config status \<longleftrightarrow>
     (\<forall>c \<in> set status. length (message_metadata c) \<le> max 1 (unat (drop_threshold config)))"

lemma record_received_Inr:
  assumes "binary_search_by_key ic_sender status p = Inr i" and "c = status ! i"
  shows "record_received config p sent_at fmt status =
    (let n = of_nat (length (message_metadata c)); tell = (suspend_threshold config \<le> n \<and> ic_state c = InOk) in
     (status[i := c\<lparr>ic_state := (if tell then InSuspended else ic_state c),
        message_metadata := (if n < drop_threshold config then message_metadata c @ [(sent_at, fmt)]
                             else message_metadata c)\<rparr>], tell))"
  using assms by (cases c) (simp add: record_received_def Let_def)

lemma metadata_bounded_update:
  "metadata_bounded config status \<Longrightarrow> length (message_metadata c) \<le> max 1 (unat (drop_threshold config)) \<Longrightarrow>
     metadata_bounded config (status[i := c])"
  unfolding metadata_bounded_def by (auto dest!: set_update_subset_insert [THEN subsetD])

lemma record_received_bounded:
  assumes "metadata_bounded config status" "record_received config p sent_at fmt status = (status', tell)"
  shows "metadata_bounded config status'"
proof (cases "binary_search_by_key ic_sender status p")
  case (Inl j)
  then show ?thesis using assms by (auto simp: record_received_def metadata_bounded_def)
next
  case (Inr i)
  define c where "c = status ! i"
  have c: "length (message_metadata c) \<le> max 1 (unat (drop_threshold config))"
    using assms(1) binary_search_Ok(1) [OF Inr] by (simp add: metadata_bounded_def c_def)
  have "unat (drop_threshold config) < 2 ^ 32"
    using unsigned_less [of "drop_threshold config", where 'a = nat] by simp
  with c have "length (message_metadata c) < 2 ^ 32" by simp
  then have "unat (of_nat (length (message_metadata c)) :: u32) = length (message_metadata c)"
    by (simp add: unat_of_nat take_bit_nat_eq_self)
  then have "of_nat (length (message_metadata c)) < drop_threshold config \<Longrightarrow>
      Suc (length (message_metadata c)) \<le> unat (drop_threshold config)"
    by (simp add: word_less_nat_alt)
  then have "length (if of_nat (length (message_metadata c)) < drop_threshold config
      then message_metadata c @ [(sent_at, fmt)] else message_metadata c) \<le> max 1 (unat (drop_threshold config))"
    using c by (auto simp: le_max_iff_disj)
  moreover have "status' = fst (record_received config p sent_at fmt status)" using assms(2) by simp
  ultimately show ?thesis
    using assms(1) by (simp add: record_received_Inr [OF Inr c_def] Let_def metadata_bounded_update)
qed

lemma receive_messages_bounded:
  "receive_messages cfg config ms status s = (status', s') \<Longrightarrow> metadata_bounded config status \<Longrightarrow>
     metadata_bounded config status'"
proof (induction ms arbitrary: status s)
  case (Cons m ms)
  then show ?case
    by (cases m) (fastforce simp: Let_def split: option.splits prod.splits if_splits dest: record_received_bounded)
qed simp

lemma record_received_known:
  assumes "sorted (map ic_sender status)" "p \<in> ic_sender ` set status"
    "record_received config p sent_at fmt status = (status', tell)"
  shows "map ic_sender status' = map ic_sender status"
proof -
  obtain i where i: "binary_search_by_key ic_sender status p = Inr i"
    using binary_search_sorted [OF assms(1)] assms(2) by blast
  then show ?thesis
    using assms(3) record_received_Inr [OF i refl, of config sent_at fmt] binary_search_Ok(1) [OF i]
    by (auto simp: Let_def map_update list_update_same_conv)
qed

lemma receive_messages_known:
  "receive_messages cfg config ms status s = (status', s') \<Longrightarrow> sorted (map ic_sender status) \<Longrightarrow>
     fst ` set ms \<subseteq> ic_sender ` set status \<Longrightarrow> map ic_sender status' = map ic_sender status"
proof (induction ms arbitrary: status s)
  case (Cons m ms)
  obtain p sent_at data where m: "m = (p, sent_at, data)" by (metis prod_cases3)
  have step: "map ic_sender st = map ic_sender status \<and> sorted (map ic_sender st) \<and>
      fst ` set ms \<subseteq> ic_sender ` set st"
    if "record_received config p sent_at fmt status = (st, tell)" for fmt st tell
  proof -
    have "map ic_sender st = map ic_sender status"
      using record_received_known [OF Cons.prems(2) _ that] Cons.prems(3) m by simp
    moreover from this have "ic_sender ` set st = ic_sender ` set status" by (metis set_map)
    ultimately show ?thesis using Cons.prems(2,3) by simp
  qed
  have same: "map ic_sender status' = map ic_sender status"
    if "receive_messages cfg config ms status t = (status', s')" for t
    using Cons.IH [OF that] Cons.prems(2,3) by simp
  show ?case
  proof (cases "xcmp_format_decode cfg data")
    case None
    then show ?thesis using same Cons.prems(1) m by simp
  next
    case (Some fr)
    obtain fmt rest where fr: "fr = (fmt, rest)" by fastforce
    obtain st tell where rr: "record_received config p sent_at fmt status = (st, tell)" by fastforce
    show ?thesis
      using Cons.prems(1) Some fr m rr same Cons.IH [of st] step [OF rr]
      by (cases "fmt = Signals") (auto simp: Let_def)
  qed
qed simp

section \<open>Suspended execution\<close>

lemma service_loop_suspended:
  assumes "\<forall>c \<in> set status. \<not> sender_is_controller cfg (ic_sender c)"
  shows "\<forall>i \<in> set shuffled. i < length status \<Longrightarrow>
    service_loop cfg config True max_weight status shuffled idx used avail s = Some (used, status, s)"
proof (induction "length shuffled - idx" arbitrary: idx)
  case 0
  then show ?case by (subst service_loop.simps) simp
next
  case (Suc n)
  then have "idx < length shuffled" by simp
  then have "shuffled ! idx < length status" using Suc.prems by simp
  then have "\<not> sender_is_controller cfg (ic_sender (status ! (shuffled ! idx)))" using assms by simp
  with Suc \<open>shuffled ! idx < length status\<close> show ?case
    by (subst service_loop.simps) (simp add: Let_def)
qed

section \<open>A page too heavy for the weight at hand\<close>

lemma xcm_fragments_too_heavy:
  assumes "xcmp_decode_xcm cfg page = Some (v, [])" "page \<noteq> []" "xcmp_try_from cfg v = Some x"
    "xcmp_execute_xcm cfg p x limit s = (OutcomeError (WeightLimitReached required), s1)"
    "required \<le> max_ind" "limit < required"
  shows "xcm_fragments cfg p sent_at limit max_ind page 0 s =
    Some ([], 0, xcmp_deposit_event (XcmpFail (Some (xcmp_hash_received cfg v)) (WeightLimitReached required) 0) s1)"
proof -
  have "\<not> max_ind < required" "\<not> required \<le> limit" using assms(5,6) by auto
  then show ?thesis
    using assms(1-4)
    by (subst xcm_fragments.simps)
      (simp add: handle_xcm_message_def Let_def xcm_fragments.simps [of cfg p sent_at limit max_ind "[]"])
qed

section \<open>Servicing an overweight message\<close>

lemma xcmp_service_overweight_OkE:
  assumes "xcmp_service_overweight cfg origin index limit s = Inr (charged, s')"
  obtains p sent_at data v used s1 where "xcmp_overweight_origin cfg origin"
    "XcmpOverweight s index = Some (p, sent_at, data)" "xcmp_decode_all_xcm cfg data = Some v"
    "handle_xcm_message cfg p sent_at v limit s = (Inr used, s1)" "charged = sat_add used 1000000"
    "s' = xcmp_deposit_event (XcmpOverweightServiced index used)
      (s1\<lparr>XcmpOverweight := (XcmpOverweight s1)(index := None)\<rparr>)"
proof -
  from assms obtain p sent_at data v where ok: "xcmp_overweight_origin cfg origin"
      "XcmpOverweight s index = Some (p, sent_at, data)" "xcmp_decode_all_xcm cfg data = Some v"
    by (auto simp: xcmp_service_overweight_def result_simps)
  obtain res s1 where "handle_xcm_message cfg p sent_at v limit s = (res, s1)" by fastforce
  with assms ok that show thesis by (cases res) (auto simp: xcmp_service_overweight_def Let_def)
qed

section \<open>Properties\<close>

text \<open>C18. Servicing the inbound queue returns, whatever is in it, provided the executor and the decoders
  keep their promises and the division by the restriction of the weight does not fail.  It uses no
  more than the weight it is given; every channel keeps a suffix of the pages it had, in order, and
  channels without pages are dropped.\<close>

theorem service_xcmp_queue_terminates:
  assumes "xcmp_libraries_ok cfg" and "weight_restrict_decay (QueueConfig s) \<noteq> - 1"
  shows "\<exists>w s' status. service_xcmp_queue cfg max_weight s = Some (w, s') \<and> w \<le> max_weight \<and>
    channels_advance (InboundXcmpStatus s) status \<and>
    InboundXcmpStatus s' = filter (\<lambda>item. message_metadata item \<noteq> []) status"
proof -
  have "weight_restrict_decay (QueueConfig s) + 1 \<noteq> 0"
    using assms(2) by (metis add.inverse_unique add.commute)
  then show ?thesis
    using service_xcmp_queue_done [where cfg = cfg and max_weight = max_weight and s = s] assms(1)
    by (cases "InboundXcmpStatus s = []")
      (auto simp: xcmp_libraries_ok_def channels_advance_def split: option.splits)
qed

text \<open>Handling the pages of a block returns and uses no more than the weight it is given.\<close>

theorem handle_xcmp_messages_within_limit:
  assumes "xcmp_libraries_ok cfg" and "weight_restrict_decay (QueueConfig s) + 1 \<noteq> 0"
  shows "\<exists>used s'. handle_xcmp_messages cfg ms limit s = Some (used, s') \<and> used \<le> limit"
  by (rule xcmp_handler.returns_within_limit [OF assms])

text \<open>Processing a page returns, within its weight.  A page that is done with is removed; otherwise
  some weight was used and a suffix of the page stays for the next time.\<close>

theorem process_xcmp_message_progress:
  assumes "xcmp_libraries_ok cfg"
  shows "\<exists>w is_empty s'. process_xcmp_message cfg p meta limit max_ind s = Some (w, is_empty, s') \<and>
    w \<le> limit \<and> (\<not> is_empty \<longrightarrow> 0 < w) \<and>
    (if is_empty then InboundXcmpMessages s' (p, fst meta) = None
     else \<exists>rest. InboundXcmpMessages s' (p, fst meta) = Some rest \<and> rest \<noteq> [] \<and>
       suffix rest (value_query (InboundXcmpMessages s) (p, fst meta)))"
  using assms unfolding xcmp_libraries_ok_def by (intro process_xcmp_message_done) auto

text \<open>The order in which the channels are visited is a permutation of them, whatever the random
  numbers are.\<close>

theorem create_shuffle_permutation:
  "mset (create_shuffle cfg len s) = mset [0..<len]"
  by (rule mset_create_shuffle)

text \<open>While execution is suspended, nothing from a sender that is not a controller is executed: the
  state stays as it is but for entries without pages.\<close>

theorem service_xcmp_queue_suspended:
  assumes "QueueSuspended s"
    and "\<forall>c \<in> set (InboundXcmpStatus s). \<not> sender_is_controller cfg (ic_sender c)"
  shows "service_xcmp_queue cfg max_weight s =
    Some (0, s\<lparr>InboundXcmpStatus := filter (\<lambda>item. message_metadata item \<noteq> []) (InboundXcmpStatus s)\<rparr>)"
proof -
  let ?n = "length (InboundXcmpStatus s)"
  have "set (create_shuffle cfg ?n s) = {0..<?n}"
    using mset_eq_setD [OF mset_create_shuffle] by simp
  then show ?thesis
    using assms(1) service_loop_suspended [OF assms(2), of "create_shuffle cfg ?n s"]
    by (cases "InboundXcmpStatus s = []") (simp_all add: service_xcmp_queue_def Let_def)
qed

text \<open>The number of pages queued for a channel never exceeds the drop threshold, or one page for a
  channel that is new.\<close>

theorem receive_messages_drop_threshold:
  assumes "metadata_bounded config status"
    and "receive_messages cfg config ms status s = (status', s')"
  shows "metadata_bounded config status'"
  by (rule receive_messages_bounded [OF assms(2,1)])

text \<open>Receiving pages from known senders only keeps one entry per sender, in order.\<close>

theorem receive_messages_known_senders:
  assumes "sorted_wrt (<) (map ic_sender status)" and "fst ` set ms \<subseteq> ic_sender ` set status"
    and "receive_messages cfg config ms status s = (status', s')"
  shows "map ic_sender status' = map ic_sender status"
  using receive_messages_known [OF assms(3) _ assms(2)] assms(1) by (simp add: strict_sorted_iff)

text \<open>A new sender is pushed at the end before the search for the next one, so that the status is no
  longer sorted: pages from a new sender and then from a known, higher one give the known sender a
  second entry.\<close>

theorem receive_messages_duplicates_sender:
  assumes "a < ic_sender c"
    and "xcmp_format_decode cfg d1 = Some (f1, r1)" and "f1 \<noteq> Signals"
    and "xcmp_format_decode cfg d2 = Some (f2, r2)" and "f2 \<noteq> Signals"
  shows "map ic_sender (fst (receive_messages cfg config [(a, n, d1), (ic_sender c, m, d2)] [c] s)) =
    [ic_sender c, a, ic_sender c]"
proof -
  have not: "\<not> ic_sender c < a" using assms(1) by simp
  have 1: "binary_search_by_key ic_sender [c] a = Inl 0"
    using assms(1) not by (simp add: binary_search_by_key_def bsearch_loop.simps Let_def)
  have 2: "binary_search_by_key ic_sender [c, \<lparr>ic_sender = a, ic_state = InOk, message_metadata = md\<rparr>] (ic_sender c) = Inl 2"
    for md
    using assms(1) by (simp add: binary_search_by_key_def bsearch_loop.simps Let_def)
  show ?thesis using assms by (simp add: record_received_def 1 2 Let_def)
qed

text \<open>A message that needs no more than the individual maximum, but more than the weight at hand, is
  neither kept for later nor put aside: its page is removed without having been executed.\<close>

theorem process_xcmp_message_drops_heavy:
  assumes "InboundXcmpMessages s (p, sent_at) = Some page" and "page \<noteq> []"
    and "xcmp_decode_xcm cfg page = Some (v, [])" and "xcmp_try_from cfg v = Some x"
    and "xcmp_execute_xcm cfg p x limit s = (OutcomeError (WeightLimitReached required), s1)"
    and "required \<le> max_ind" and "limit < required"
  shows "\<exists>s'. process_xcmp_message cfg p (sent_at, ConcatenatedVersionedXcm) limit max_ind s = Some (0, True, s') \<and>
    InboundXcmpMessages s' (p, sent_at) = None \<and> XcmpOverweight s' = XcmpOverweight s1"
  using assms xcm_fragments_too_heavy [OF assms(3,2,4-7), of sent_at]
  by (simp add: process_xcmp_message_def value_query_def xcmp_deposit_event_def)

text \<open>Servicing an overweight message succeeds only for an authorised origin and a message that is
  there and decodes; it uses no more than the limit, is charged that and the fixed overhead, and the
  message cannot be serviced again.\<close>

theorem xcmp_service_overweight_once:
  assumes "xcmp_libraries_ok cfg"
    and "xcmp_service_overweight cfg origin index limit s = Inr (charged, s')"
  shows "xcmp_overweight_origin cfg origin \<and>
    (\<exists>p sent_at data v used. XcmpOverweight s index = Some (p, sent_at, data) \<and>
       xcmp_decode_all_xcm cfg data = Some v \<and> used \<le> limit \<and> charged = sat_add used 1000000 \<and>
       last (xcmp_events s') = XcmpOverweightServiced index used) \<and>
    xcmp_service_overweight cfg origin index limit' s' = Inl (Module BadOverweightIndex)"
proof -
  obtain p sent_at data v used s1 where
    ok: "xcmp_overweight_origin cfg origin" "XcmpOverweight s index = Some (p, sent_at, data)"
      "xcmp_decode_all_xcm cfg data = Some v" and
    run: "handle_xcm_message cfg p sent_at v limit s = (Inr used, s1)" and
    s': "charged = sat_add used 1000000"
      "s' = xcmp_deposit_event (XcmpOverweightServiced index used)
        (s1\<lparr>XcmpOverweight := (XcmpOverweight s1)(index := None)\<rparr>)"
    using xcmp_service_overweight_OkE [OF assms(2)] by metis
  have "used \<le> limit"
    using handle_xcm_message_bound(1) [OF _ run refl] assms(1) by (simp add: xcmp_libraries_ok_def)
  with ok s' show ?thesis by (auto simp: xcmp_service_overweight_def xcmp_deposit_event_def)
qed

section \<open>A concrete instance\<close>

lemma toy_xcmp_ok: "xcmp_libraries_ok toy_xcmp"
proof -
  have "strict_suffix rest bs" if "toy_decode bs = Some (v, rest)" for bs v rest
    using that by (cases bs) (auto simp: strict_suffix_def suffix_Cons)
  moreover have "strict_suffix rest bs" if "(case bs of [] \<Rightarrow> None | b # bs' \<Rightarrow> Some ([b], bs')) = Some (v, rest)"
    for bs rest :: bytes and v
    using that by (cases bs) (auto simp: strict_suffix_def suffix_Cons)
  ultimately show ?thesis
    by (auto simp: xcmp_libraries_ok_def xcmp_executor_bounded_def xcmp_decoders_consume_def toy_xcmp_def
        toy_exec_def split: outcome.split if_splits)
qed

text \<open>Two channels with pages: the second page of channel 5 is too heavy for one turn.\<close>

definition toy_in :: "(para_id \<Rightarrow> channel_status) xcmp_state" where
  "toy_in = (xcmp_genesis toy_channels)\<lparr>
     InboundXcmpStatus := [
       \<lparr>ic_sender = 5, ic_state = InSuspended,
         message_metadata = [(1, ConcatenatedVersionedXcm), (2, ConcatenatedVersionedXcm)]\<rparr>,
       \<lparr>ic_sender = 7, ic_state = InOk, message_metadata = [(2, ConcatenatedVersionedXcm)]\<rparr>],
     InboundXcmpMessages := [(5, 1) \<mapsto> [3, 4], (5, 2) \<mapsto> [200], (7, 2) \<mapsto> [5, 6]],
     QueueConfig := queue_config_default\<lparr>threshold_weight := 10, xcmp_max_individual_weight := 90\<rparr>\<rparr>"

lemma toy_in_config: "QueueConfig toy_in = queue_config_default\<lparr>threshold_weight := 10, xcmp_max_individual_weight := 90\<rparr>"
  by (simp add: toy_in_def)

lemma toy_in_decay: "weight_restrict_decay (QueueConfig toy_in) \<noteq> - 1" "weight_restrict_decay (QueueConfig toy_in) + 1 \<noteq> 0"
  by code_simp+

theorem service_xcmp_queue_terminates_witness:
  "\<exists>w s' status. service_xcmp_queue toy_xcmp 60 toy_in = Some (w, s') \<and> w \<le> 60 \<and>
    channels_advance (InboundXcmpStatus toy_in) status \<and>
    InboundXcmpStatus s' = filter (\<lambda>item. message_metadata item \<noteq> []) status"
  by (rule service_xcmp_queue_terminates [OF toy_xcmp_ok toy_in_decay(1)])

theorem handle_xcmp_messages_within_limit_witness:
  "\<exists>used s'. handle_xcmp_messages toy_xcmp [(7, 3, [0, 9, 9])] 60 toy_in = Some (used, s') \<and> used \<le> 60"
  by (rule handle_xcmp_messages_within_limit [OF toy_xcmp_ok toy_in_decay(2)])

theorem process_xcmp_message_progress_witness:
  "\<exists>w is_empty s'. process_xcmp_message toy_xcmp 5 (1, ConcatenatedVersionedXcm) 6 90 toy_in = Some (w, is_empty, s') \<and>
    w \<le> 6 \<and> (\<not> is_empty \<longrightarrow> 0 < w) \<and>
    (if is_empty then InboundXcmpMessages s' (5, fst (1 :: relay_block_number, ConcatenatedVersionedXcm)) = None
     else \<exists>rest. InboundXcmpMessages s' (5, fst (1, ConcatenatedVersionedXcm)) = Some rest \<and> rest \<noteq> [] \<and>
       suffix rest (value_query (InboundXcmpMessages toy_in) (5, fst (1, ConcatenatedVersionedXcm))))"
  by (rule process_xcmp_message_progress [OF toy_xcmp_ok])

theorem service_xcmp_queue_suspended_witness:
  "map_option fst (service_xcmp_queue toy_xcmp 60 (toy_in\<lparr>QueueSuspended := True\<rparr>)) = Some 0"
proof -
  have "\<forall>c \<in> set (InboundXcmpStatus (toy_in\<lparr>QueueSuspended := True\<rparr>)).
      \<not> sender_is_controller toy_xcmp (ic_sender c)" by code_simp
  with service_xcmp_queue_suspended [of "toy_in\<lparr>QueueSuspended := True\<rparr>" toy_xcmp 60] show ?thesis by simp
qed

theorem receive_messages_drop_threshold_witness:
  "metadata_bounded (QueueConfig toy_in) (fst (receive_messages toy_xcmp (QueueConfig toy_in)
     [(7, 3, [0, 9]), (7, 4, [0, 9])] (InboundXcmpStatus toy_in) toy_in))"
proof -
  have "drop_threshold (QueueConfig toy_in) = 5" by code_simp
  then have "metadata_bounded (QueueConfig toy_in) (InboundXcmpStatus toy_in)"
    by (simp add: metadata_bounded_def toy_in_def)
  then show ?thesis by (rule receive_messages_drop_threshold [OF _ prod.collapse [symmetric]])
qed

theorem receive_messages_known_senders_witness:
  "map ic_sender (fst (receive_messages toy_xcmp (QueueConfig toy_in) [(7, 3, [0, 9]), (5, 3, [0, 9])]
      (InboundXcmpStatus toy_in) toy_in)) = [5, 7]"
proof -
  have st: "map ic_sender (InboundXcmpStatus toy_in) = [5, 7]" by code_simp
  then have "ic_sender ` set (InboundXcmpStatus toy_in) = {5, 7}" by (metis list.set(1,2) set_map)
  with st receive_messages_known_senders [of "InboundXcmpStatus toy_in" "[(7, 3, [0, 9]), (5, 3, [0, 9])]",
      OF _ _ prod.collapse [symmetric]]
  show ?thesis by simp
qed

theorem receive_messages_duplicates_sender_witness:
  "map ic_sender (fst (receive_messages toy_xcmp (QueueConfig toy_in) [(3, 9, [0, 1]), (7, 9, [0, 1])]
      [\<lparr>ic_sender = 7, ic_state = InOk, message_metadata = [(2, ConcatenatedVersionedXcm)]\<rparr>] toy_in)) = [7, 3, 7]"
proof -
  have "xcmp_format_decode toy_xcmp [0, 1] = Some (ConcatenatedVersionedXcm, [1])" by (simp add: toy_xcmp_def)
  with receive_messages_duplicates_sender
    [of 3 "\<lparr>ic_sender = 7, ic_state = InOk, message_metadata = [(2, ConcatenatedVersionedXcm)]\<rparr>" toy_xcmp "[0, 1]"]
  show ?thesis by simp
qed

theorem process_xcmp_message_drops_heavy_witness:
  "\<exists>s'. process_xcmp_message toy_xcmp 5 (2, ConcatenatedVersionedXcm) 100 250 toy_in = Some (0, True, s') \<and>
    InboundXcmpMessages s' (5, 2) = None \<and> XcmpOverweight s' = XcmpOverweight toy_in"
proof (rule process_xcmp_message_drops_heavy)
  show "InboundXcmpMessages toy_in (5, 2) = Some [200]" by (simp add: toy_in_def)
  show "xcmp_decode_xcm toy_xcmp [200] = Some (200, [])" "xcmp_try_from toy_xcmp 200 = Some 200"
    "xcmp_execute_xcm toy_xcmp 5 200 100 toy_in = (OutcomeError (WeightLimitReached 200), toy_in)"
    by (simp_all add: toy_xcmp_def toy_exec_def)
qed simp_all

definition toy_stashed :: "(para_id \<Rightarrow> channel_status) xcmp_state" where
  "toy_stashed = toy_in\<lparr>XcmpOverweight := [0 \<mapsto> (5, 2, [200])], OverweightCount := 1\<rparr>"

theorem xcmp_service_overweight_once_witness:
  "case xcmp_service_overweight toy_xcmp Root 0 250 toy_stashed of
     Inr (charged, s') \<Rightarrow> charged = 1000200 \<and>
       xcmp_service_overweight toy_xcmp Root 0 999 s' = Inl (Module BadOverweightIndex)
   | Inl e \<Rightarrow> False"
proof -
  have "map_sum (\<lambda>e. e) fst (xcmp_service_overweight toy_xcmp Root 0 250 toy_stashed) = Inr 1000200"
    by code_simp
  then obtain s' where s': "xcmp_service_overweight toy_xcmp Root 0 250 toy_stashed = Inr (1000200, s')"
    by (cases "xcmp_service_overweight toy_xcmp Root 0 250 toy_stashed") auto
  then show ?thesis using xcmp_service_overweight_once [OF toy_xcmp_ok s', of 999] by simp
qed

end
