(* ===== verification/Migrations.thy ===== *)
theory Migrations
  imports Xcmp_Queue
begin

text \<open>
  The storage migrations of the XCMP queue (\<^verbatim>\<open>src/pallets/xcmp-queue/src/migration.rs\<close>) and of the
  parachain system (\<^verbatim>\<open>src/pallets/parachain-system/src/migration.rs\<close>).  They read and write what older
  versions of the pallets left behind, so the storage is modelled as bytes; the codec of the two versions
  of the queue's configuration is a parameter.
\<close>

section \<open>The XCMP queue\<close>

record queue_config_data_v0 =
  v0_suspend_threshold :: u32
  v0_drop_threshold :: u32
  v0_resume_threshold :: u32
  v0_threshold_weight :: weight
  v0_weight_restrict_decay :: weight

definition queue_config_v0_default :: queue_config_data_v0 where
  "queue_config_v0_default = \<lparr>v0_suspend_threshold = 2, v0_drop_threshold = 5, v0_resume_threshold = 1,
     v0_threshold_weight = 100000, v0_weight_restrict_decay = 2\<rparr>"

record config_codec =
  decode_v0 :: "bytes \<Rightarrow> queue_config_data_v0 option"
  decode_v1 :: "bytes \<Rightarrow> queue_config_data option"
  encode_v1 :: "queue_config_data \<Rightarrow> bytes"

record versioned_storage =
  storage_version :: nat
  raw_value :: "bytes option"

text \<open>A storage value whose bytes do not decode, or that is absent, reads as the default.\<close>

definition stored_config :: "config_codec \<Rightarrow> versioned_storage \<Rightarrow> queue_config_data" where
  "stored_config codec st =
     (case raw_value st of
        None \<Rightarrow> queue_config_default
      | Some bs \<Rightarrow> (case decode_v1 codec bs of None \<Rightarrow> queue_config_default | Some c \<Rightarrow> c))"

definition translate_config :: "queue_config_data_v0 \<Rightarrow> queue_config_data" where
  "translate_config pre = \<lparr>suspend_threshold = v0_suspend_threshold pre, drop_threshold = v0_drop_threshold pre,
     resume_threshold = v0_resume_threshold pre, threshold_weight = v0_threshold_weight pre,
     weight_restrict_decay = v0_weight_restrict_decay pre,
     xcmp_max_individual_weight = xcmp_max_individual_weight queue_config_default\<rparr>"

text \<open>
  \<^verbatim>\<open>StorageValue::translate\<close>: an error when the old bytes do not decode, which leaves the value;
  otherwise the new value is written, or the value removed when there is none.
\<close>

definition storage_translate ::
  "(bytes \<Rightarrow> 'a option) \<Rightarrow> ('b \<Rightarrow> bytes) \<Rightarrow> ('a option \<Rightarrow> 'b option) \<Rightarrow> bytes option \<Rightarrow> (unit, bytes option) result" where
  "storage_translate dec enc f raw =
     (case raw of
        None \<Rightarrow> Inr (map_option enc (f None))
      | Some bs \<Rightarrow> (case dec bs of None \<Rightarrow> Inl () | Some old \<Rightarrow> Inr (map_option enc (f (Some old)))))"

definition migrate_to_v1 :: "config_codec \<Rightarrow> (u64 \<Rightarrow> u64 \<Rightarrow> weight) \<Rightarrow> versioned_storage \<Rightarrow> weight \<times> versioned_storage" where
  "migrate_to_v1 codec reads_writes st =
     (reads_writes 1 1,
      case storage_translate (decode_v0 codec) (encode_v1 codec) (map_option translate_config) (raw_value st) of
        Inl _ \<Rightarrow> st
      | Inr raw \<Rightarrow> st\<lparr>raw_value := raw\<rparr>)"

definition migrate_to_latest :: "config_codec \<Rightarrow> (u64 \<Rightarrow> u64 \<Rightarrow> weight) \<Rightarrow> versioned_storage \<Rightarrow> weight \<times> versioned_storage" where
  "migrate_to_latest codec reads_writes st =
     (if storage_version st = 0
      then case migrate_to_v1 codec reads_writes st of (w, st') \<Rightarrow> (0 + w, st'\<lparr>storage_version := 1\<rparr>)
      else (0, st))"

lemma migrate_to_v1_version [simp]: "storage_version (snd (migrate_to_v1 codec rw st)) = storage_version st"
  by (auto simp: migrate_to_v1_def split: sum.splits)

lemma migrate_to_latest_version:
  "storage_version (snd (migrate_to_latest codec rw st)) = (if storage_version st = 0 then 1 else storage_version st)"
  by (simp add: migrate_to_latest_def split_def)

text \<open>Running the migration twice is running it once, and the second run costs nothing.\<close>

lemma migrate_to_latest_once:
  "migrate_to_latest codec rw (snd (migrate_to_latest codec rw st)) = (0, snd (migrate_to_latest codec rw st))"
  using migrate_to_latest_version [of codec rw st] by (subst migrate_to_latest_def) (simp split: if_splits)

text \<open>The five old settings survive; the new one is the default.  An unset configuration stays the default.\<close>

lemma migrate_to_latest_config:
  assumes "storage_version st = 0" "\<And>c. decode_v1 codec (encode_v1 codec c) = Some c"
    and "\<And>bs. raw_value st = Some bs \<Longrightarrow> decode_v0 codec bs \<noteq> None"
  shows "stored_config codec (snd (migrate_to_latest codec rw st)) =
    (case raw_value st of
       None \<Rightarrow> queue_config_default
     | Some bs \<Rightarrow> translate_config (the (decode_v0 codec bs)))"
  using assms
  by (auto simp: migrate_to_latest_def migrate_to_v1_def storage_translate_def stored_config_def split: option.splits)

text \<open>The defaults of the two versions agree.\<close>

lemma translate_default: "translate_config queue_config_v0_default = queue_config_default"
  by (simp add: translate_config_def queue_config_v0_default_def queue_config_default_def)

section \<open>The parachain system\<close>

text \<open>\<open>raw_value\<close> is here the abandoned value \<^verbatim>\<open>LastUpgrade\<close>.\<close>

definition psys_v1_migrate :: "(u64 \<Rightarrow> weight) \<Rightarrow> versioned_storage \<Rightarrow> weight \<times> versioned_storage" where
  "psys_v1_migrate writes st = (writes 1, st\<lparr>raw_value := None\<rparr>)"

definition psys_on_runtime_upgrade :: "(u64 \<Rightarrow> weight) \<Rightarrow> versioned_storage \<Rightarrow> weight \<times> versioned_storage" where
  "psys_on_runtime_upgrade writes st =
     (if storage_version st = 0
      then case psys_v1_migrate writes st of (w, st') \<Rightarrow>
        (sat_add (sat_add 0 w) (writes 1), st'\<lparr>storage_version := 1\<rparr>)
      else (0, st))"

lemma psys_on_runtime_upgrade_once:
  "psys_on_runtime_upgrade writes (snd (psys_on_runtime_upgrade writes st)) = (0, snd (psys_on_runtime_upgrade writes st))"
  by (simp add: psys_on_runtime_upgrade_def psys_v1_migrate_def)

lemma psys_on_runtime_upgrade_clears:
  "storage_version st = 0 \<Longrightarrow> raw_value (snd (psys_on_runtime_upgrade writes st)) = None"
  by (simp add: psys_on_runtime_upgrade_def psys_v1_migrate_def)

end
