(* ===== verification/Message_Queue_Chain.thy ===== *)
theory Message_Queue_Chain
  imports Prelude
begin

text \<open>
  Message queue chains, \<^verbatim>\<open>src/primitives/parachain-inherent/src/lib.rs\<close>.  A chain stands for a
  sequence of messages by one hash; a message is added by hashing the head before it, the block it
  was sent at and the hash of its data.  The hash function is a parameter: it is applied to the two
  kinds of value of \<open>hash_input\<close>.  Nothing is assumed of it.  What is proved instead is
  that a different sequence with the same head comes with a collision among the values hashed.
\<close>

type_synonym relay_hash = bytes

datatype hash_input = HashLink relay_hash relay_block_number relay_hash | HashData bytes

type_synonym hasher = "hash_input \<Rightarrow> relay_hash"

definition zero_hash :: relay_hash where
  "zero_hash = replicate 32 0"

record inbound_downward_message =
  dm_sent_at :: relay_block_number
  dm_msg :: bytes

record inbound_hrmp_message =
  hm_sent_at :: relay_block_number
  hm_data :: bytes

definition extend_hrmp :: "hasher \<Rightarrow> relay_hash \<Rightarrow> inbound_hrmp_message \<Rightarrow> relay_hash" where
  "extend_hrmp H prev_head m = H (HashLink prev_head (hm_sent_at m) (H (HashData (hm_data m))))"

definition extend_downward :: "hasher \<Rightarrow> relay_hash \<Rightarrow> inbound_downward_message \<Rightarrow> relay_hash" where
  "extend_downward H prev_head m = H (HashLink prev_head (dm_sent_at m) (H (HashData (dm_msg m))))"

section \<open>Chains in general\<close>

text \<open>The values hashed while a chain is extended from \<open>h\<close> by messages, and a collision
  among those of two extensions, or with the head they start from.\<close>

fun chain_inputs ::
  "(relay_hash \<Rightarrow> 'm \<Rightarrow> hash_input) \<Rightarrow> ('m \<Rightarrow> hash_input) \<Rightarrow> hasher \<Rightarrow> relay_hash \<Rightarrow> 'm list \<Rightarrow> hash_input set" where
  "chain_inputs link payload H h [] = {}"
| "chain_inputs link payload H h (m # ms) =
     {payload m, link h m} \<union> chain_inputs link payload H (H (link h m)) ms"

definition chain_collision ::
  "(relay_hash \<Rightarrow> 'm \<Rightarrow> hash_input) \<Rightarrow> ('m \<Rightarrow> hash_input) \<Rightarrow> hasher \<Rightarrow> relay_hash \<Rightarrow> 'm list \<Rightarrow> 'm list \<Rightarrow> bool" where
  "chain_collision link payload H h ms ms' \<longleftrightarrow>
     (\<exists>x \<in> chain_inputs link payload H h ms. \<exists>y \<in> chain_inputs link payload H h ms'. x \<noteq> y \<and> H x = H y) \<or>
     (\<exists>x \<in> chain_inputs link payload H h ms \<union> chain_inputs link payload H h ms'. H x = h)"

text \<open>
  A hash chain: \<open>link\<close> is what is hashed to extend the chain and \<open>payload\<close> the data
  hashed for it.  Equal links come from the same head and, unless the payloads collide, from the same
  message.
\<close>

locale hash_chain =
  fixes extend :: "hasher \<Rightarrow> relay_hash \<Rightarrow> 'm \<Rightarrow> relay_hash"
    and link :: "hasher \<Rightarrow> relay_hash \<Rightarrow> 'm \<Rightarrow> hash_input"
    and payload :: "'m \<Rightarrow> hash_input"
  assumes extend_link: "extend H h m = H (link H h m)"
    and link_inject: "link H h m = link H h' m' \<Longrightarrow> h = h' \<and> (payload m = payload m' \<longrightarrow> m = m') \<and>
      H (payload m) = H (payload m')"
begin

abbreviation hashed where
  "hashed H \<equiv> chain_inputs (link H) payload H"

abbreviation collision where
  "collision H \<equiv> chain_collision (link H) payload H"

lemma hashed_snoc:
  "hashed H h (ms @ [m]) = hashed H h ms \<union> {payload m, link H (foldl (extend H) h ms) m}"
  by (induction ms arbitrary: h) (auto simp: extend_link)

lemma collision_mono:
  "hashed H h ms \<subseteq> hashed H h ns \<Longrightarrow> hashed H h ms' \<subseteq> hashed H h ns' \<Longrightarrow> collision H h ms ms' \<Longrightarrow>
     collision H h ns ns'"
  unfolding chain_collision_def by blast

lemma head_determines_messages:
  "foldl (extend H) h ms = foldl (extend H) h ms' \<Longrightarrow> ms = ms' \<or> collision H h ms ms'"
proof (induction ms arbitrary: ms' rule: rev_induct)
  case Nil
  show ?case
  proof (cases ms' rule: rev_cases)
    case (snoc ns n)
    then have "H (link H (foldl (extend H) h ns) n) = h" using Nil by (simp add: extend_link [symmetric])
    then show ?thesis by (auto simp: chain_collision_def snoc hashed_snoc)
  qed simp
next
  case (snoc m ms)
  show ?case
  proof (cases ms' rule: rev_cases)
    case Nil
    then have "H (link H (foldl (extend H) h ms) m) = h" using snoc.prems by (simp add: extend_link [symmetric])
    then show ?thesis by (auto simp: chain_collision_def hashed_snoc)
  next
    case (snoc ns n)
    let ?x = "link H (foldl (extend H) h ms) m" and ?y = "link H (foldl (extend H) h ns) n"
    have eq: "H ?x = H ?y" using snoc.prems snoc by (simp add: extend_link [symmetric])
    have mono: "collision H h ms ns \<Longrightarrow> collision H h (ms @ [m]) ms'"
      by (rule collision_mono) (auto simp: hashed_snoc snoc)
    show ?thesis
    proof (cases "?x = ?y")
      case True
      note inj = link_inject [OF True]
      show ?thesis
      proof (cases "payload m = payload n")
        case True
        then show ?thesis using inj snoc.IH [of ns] mono snoc by auto
      next
        case False
        then show ?thesis using inj by (auto simp: chain_collision_def hashed_snoc snoc)
      qed
    next
      case False
      then show ?thesis using eq by (auto simp: chain_collision_def hashed_snoc snoc)
    qed
  qed
qed

end

section \<open>The two kinds of chain\<close>

definition downward_link :: "hasher \<Rightarrow> relay_hash \<Rightarrow> inbound_downward_message \<Rightarrow> hash_input" where
  "downward_link H h m = HashLink h (dm_sent_at m) (H (HashData (dm_msg m)))"

definition downward_payload :: "inbound_downward_message \<Rightarrow> hash_input" where
  "downward_payload m = HashData (dm_msg m)"

definition hrmp_link :: "hasher \<Rightarrow> relay_hash \<Rightarrow> inbound_hrmp_message \<Rightarrow> hash_input" where
  "hrmp_link H h m = HashLink h (hm_sent_at m) (H (HashData (hm_data m)))"

definition hrmp_payload :: "inbound_hrmp_message \<Rightarrow> hash_input" where
  "hrmp_payload m = HashData (hm_data m)"

interpretation dmq: hash_chain extend_downward downward_link downward_payload
  by unfold_locales (auto simp: extend_downward_def downward_link_def downward_payload_def)

interpretation hrmp_mqc: hash_chain extend_hrmp hrmp_link hrmp_payload
  by unfold_locales (auto simp: extend_hrmp_def hrmp_link_def hrmp_payload_def)

end
