(* ===== verification/Relay_State.thy ===== *)
theory Relay_State
  imports Message_Queue_Chain Rust_Std
begin

text \<open>
  Reading the relay chain's state from a storage proof,
  \<^verbatim>\<open>src/pallets/parachain-system/src/relay_state_snapshot.rs\<close>.  The trie behind the proof, the
  well-known keys and the decoders are fields of \<open>relay_backend\<close>; the records of the
  channels and of the host configuration have the fields the sources use.
\<close>

section \<open>Data\<close>

record abridged_hrmp_channel =
  ch_max_capacity :: u32
  ch_max_total_size :: u32
  ch_max_message_size :: u32
  ch_msg_count :: u32
  ch_total_size :: u32
  ch_mqc_head :: "relay_hash option"

record abridged_host_configuration =
  hc_max_code_size :: u32
  hc_max_head_data_size :: u32
  hc_max_upward_queue_count :: u32
  hc_max_upward_queue_size :: u32
  hc_max_upward_message_size :: u32
  hc_max_upward_message_num_per_candidate :: u32
  hc_hrmp_max_message_num_per_candidate :: u32
  hc_validation_upgrade_cooldown :: u32
  hc_validation_upgrade_delay :: u32

datatype upgrade_go_ahead = Abort | GoAhead

datatype upgrade_restriction = Present

record messaging_state_snapshot =
  dmq_mqc_head :: relay_hash
  relay_dispatch_queue_size :: "u32 \<times> u32"
  ingress_channels :: "(para_id \<times> abridged_hrmp_channel) list"
  egress_channels :: "(para_id \<times> abridged_hrmp_channel) list"

datatype read_entry_err = ProofErr | DecodeErr | AbsentErr

datatype relay_state_error =
    RootMismatch
  | ReadEntryError read_entry_err
  | ReadOptionalEntryError read_entry_err
  | SlotError read_entry_err
  | UpgradeGoAheadError read_entry_err
  | UpgradeRestrictionError read_entry_err
  | ConfigError read_entry_err
  | DmqMqcHeadError read_entry_err
  | RelayDispatchQueueSizeError read_entry_err
  | HrmpIngressChannelIndexError read_entry_err
  | HrmpEgressChannelIndexError read_entry_err
  | HrmpChannelError para_id para_id read_entry_err

text \<open>The proof as a key-value store: the trie cannot be read at a key, has no value there, or has a
  value.\<close>

type_synonym trie = "bytes \<Rightarrow> (unit, bytes option) result"

record 'p relay_backend =
  rb_contains_root :: "'p \<Rightarrow> relay_hash \<Rightarrow> bool"
  rb_trie :: "'p \<Rightarrow> relay_hash \<Rightarrow> trie"
  key_dmq_mqc_head :: "para_id \<Rightarrow> bytes"
  key_relay_dispatch_queue_size :: "para_id \<Rightarrow> bytes"
  key_hrmp_ingress_channel_index :: "para_id \<Rightarrow> bytes"
  key_hrmp_egress_channel_index :: "para_id \<Rightarrow> bytes"
  key_hrmp_channels :: "para_id \<Rightarrow> para_id \<Rightarrow> bytes"
  key_active_config :: bytes
  key_current_slot :: bytes
  key_upgrade_go_ahead :: "para_id \<Rightarrow> bytes"
  key_upgrade_restriction :: "para_id \<Rightarrow> bytes"
  dec_hash :: "bytes \<Rightarrow> relay_hash option"
  dec_queue_size :: "bytes \<Rightarrow> (u32 \<times> u32) option"
  dec_para_ids :: "bytes \<Rightarrow> para_id list option"
  dec_channel :: "bytes \<Rightarrow> abridged_hrmp_channel option"
  dec_host_config :: "bytes \<Rightarrow> abridged_host_configuration option"
  dec_slot :: "bytes \<Rightarrow> u64 option"
  dec_go_ahead :: "bytes \<Rightarrow> upgrade_go_ahead option"
  dec_restriction :: "bytes \<Rightarrow> upgrade_restriction option"

record relay_chain_state_proof =
  rp_para_id :: para_id
  rp_trie :: trie

section \<open>Reading entries\<close>

definition read_entry :: "('b \<Rightarrow> 'a option) \<Rightarrow> (bytes \<Rightarrow> (unit, 'b option) result) \<Rightarrow> bytes \<Rightarrow> 'a option \<Rightarrow>
    (read_entry_err, 'a) result" where
  "read_entry decode storage key fallback =
     (case storage key of
        Inl _ \<Rightarrow> Inl ProofErr
      | Inr None \<Rightarrow> ok_or fallback AbsentErr
      | Inr (Some raw_entry) \<Rightarrow>
          (case decode raw_entry of None \<Rightarrow> Inl DecodeErr | Some v \<Rightarrow> Inr v))"

definition read_optional_entry :: "('b \<Rightarrow> 'a option) \<Rightarrow> (bytes \<Rightarrow> (unit, 'b option) result) \<Rightarrow> bytes \<Rightarrow>
    (read_entry_err, 'a option) result" where
  "read_optional_entry decode storage key =
     (case read_entry decode storage key None of
        Inr v \<Rightarrow> Inr (Some v)
      | Inl AbsentErr \<Rightarrow> Inr None
      | Inl err \<Rightarrow> Inl err)"

definition relay_proof_new :: "'p relay_backend \<Rightarrow> para_id \<Rightarrow> relay_hash \<Rightarrow> 'p \<Rightarrow>
    (relay_state_error, relay_chain_state_proof) result" where
  "relay_proof_new b para root proof =
     (if \<not> rb_contains_root b proof root then Inl RootMismatch
      else Inr \<lparr>rp_para_id = para, rp_trie = rb_trie b proof root\<rparr>)"

text \<open>The loops over the indices of the channels: the first channel that cannot be read ends them.\<close>

fun read_channels :: "'p relay_backend \<Rightarrow> trie \<Rightarrow> (para_id \<Rightarrow> para_id \<times> para_id) \<Rightarrow> para_id list \<Rightarrow>
    (relay_state_error, (para_id \<times> abridged_hrmp_channel) list) result" where
  "read_channels b t ends [] = Inr []"
| "read_channels b t ends (other # others) =
     (case ends other of (from, to) \<Rightarrow>
        rbind (map_err (HrmpChannelError from to)
                (read_entry (dec_channel b) t (key_hrmp_channels b from to) None)) (\<lambda>channel.
        rbind (read_channels b t ends others) (\<lambda>channels. Inr ((other, channel) # channels))))"

definition read_messaging_state_snapshot :: "'p relay_backend \<Rightarrow> relay_chain_state_proof \<Rightarrow>
    (relay_state_error, messaging_state_snapshot) result" where
  "read_messaging_state_snapshot b p =
     (let t = rp_trie p; self = rp_para_id p in
      rbind (map_err DmqMqcHeadError
              (read_entry (dec_hash b) t (key_dmq_mqc_head b self) (Some zero_hash))) (\<lambda>head.
      rbind (map_err RelayDispatchQueueSizeError
              (read_entry (dec_queue_size b) t (key_relay_dispatch_queue_size b self) (Some (0, 0)))) (\<lambda>size.
      rbind (map_err HrmpIngressChannelIndexError
              (read_entry (dec_para_ids b) t (key_hrmp_ingress_channel_index b self) (Some []))) (\<lambda>ingress_index.
      rbind (map_err HrmpEgressChannelIndexError
              (read_entry (dec_para_ids b) t (key_hrmp_egress_channel_index b self) (Some []))) (\<lambda>egress_index.
      rbind (read_channels b t (\<lambda>from. (from, self)) ingress_index) (\<lambda>ingress.
      rbind (read_channels b t (\<lambda>to. (self, to)) egress_index) (\<lambda>egress.
      Inr \<lparr>dmq_mqc_head = head, relay_dispatch_queue_size = size,
        ingress_channels = ingress, egress_channels = egress\<rparr>)))))))"

definition read_abridged_host_configuration where
  "read_abridged_host_configuration b p =
     map_err ConfigError (read_entry (dec_host_config b) (rp_trie p) (key_active_config b) None)"

definition read_slot where
  "read_slot b p = map_err SlotError (read_entry (dec_slot b) (rp_trie p) (key_current_slot b) None)"

definition read_upgrade_go_ahead_signal where
  "read_upgrade_go_ahead_signal b p = map_err UpgradeGoAheadError
     (read_optional_entry (dec_go_ahead b) (rp_trie p) (key_upgrade_go_ahead b (rp_para_id p)))"

definition read_upgrade_restriction_signal where
  "read_upgrade_restriction_signal b p = map_err UpgradeRestrictionError
     (read_optional_entry (dec_restriction b) (rp_trie p) (key_upgrade_restriction b (rp_para_id p)))"

definition proof_read_entry where
  "proof_read_entry decode p key fallback = map_err ReadEntryError (read_entry decode (rp_trie p) key fallback)"

definition proof_read_optional_entry where
  "proof_read_optional_entry decode p key = map_err ReadOptionalEntryError (read_optional_entry decode (rp_trie p) key)"

section \<open>What is read\<close>

lemma read_entry_Inr:
  "read_entry dec t key fallback = Inr v \<longleftrightarrow>
     (\<exists>raw. t key = Inr (Some raw) \<and> dec raw = Some v) \<or> (t key = Inr None \<and> fallback = Some v)"
  by (auto simp: read_entry_def split: sum.split option.split)

lemma read_optional_entry_Inr:
  "read_optional_entry dec t key = Inr v \<longleftrightarrow>
     (case v of None \<Rightarrow> t key = Inr None | Some x \<Rightarrow> \<exists>raw. t key = Inr (Some raw) \<and> dec raw = Some x)"
  by (auto simp: read_optional_entry_def read_entry_def split: sum.splits option.splits read_entry_err.splits)

lemma read_channels_Inr:
  "read_channels b t ends others = Inr channels \<longleftrightarrow>
     map fst channels = others \<and>
     (\<forall>(other, channel) \<in> set channels.
        read_entry (dec_channel b) t (key_hrmp_channels b (fst (ends other)) (snd (ends other))) None = Inr channel)"
proof (induction others arbitrary: channels)
  case (Cons other others)
  show ?case
  proof (cases channels)
    case Nil
    then show ?thesis by (auto simp: result_simps split: prod.split)
  next
    case (Cons c cs)
    then show ?thesis using Cons.IH [of cs] by (cases c) (auto simp: result_simps split: prod.split)
  qed
qed auto

text \<open>The index of the channels as the relay chain has it, and as it promises to keep it.\<close>

definition relay_index :: "'p relay_backend \<Rightarrow> trie \<Rightarrow> bytes \<Rightarrow> para_id list" where
  "relay_index b t key = (case read_entry (dec_para_ids b) t key (Some []) of Inl _ \<Rightarrow> [] | Inr ids \<Rightarrow> ids)"

lemma snapshot_channels:
  assumes "read_messaging_state_snapshot b p = Inr snap"
  shows "map fst (ingress_channels snap) = relay_index b (rp_trie p) (key_hrmp_ingress_channel_index b (rp_para_id p))"
    and "map fst (egress_channels snap) = relay_index b (rp_trie p) (key_hrmp_egress_channel_index b (rp_para_id p))"
    and "(from, c) \<in> set (ingress_channels snap) \<Longrightarrow>
      read_entry (dec_channel b) (rp_trie p) (key_hrmp_channels b from (rp_para_id p)) None = Inr c"
    and "(to, c) \<in> set (egress_channels snap) \<Longrightarrow>
      read_entry (dec_channel b) (rp_trie p) (key_hrmp_channels b (rp_para_id p) to) None = Inr c"
  using assms
  by (auto simp: read_messaging_state_snapshot_def Let_def result_simps read_channels_Inr relay_index_def)

end
