(* ===== verification/Parachain_System.thy ===== *)
theory Parachain_System
  imports Relay_State Xcm_Interface "HOL-Library.Monad_Syntax" "HOL-Library.Sublist"
begin

text \<open>
  The parachain system pallet, \<^verbatim>\<open>src/pallets/parachain-system/src/lib.rs\<close>.  The storage items are
  the fields of \<open>psys_state\<close>, with the events, the runtime's \<^verbatim>\<open>:code\<close> and the rest of the
  runtime as \<open>psys_world\<close>; the items and traits of the configuration are the fields of
  \<open>psys_config\<close>.  The message handlers and the system event hooks run with the whole state,
  since the messages they execute may call back into the pallet.  \<open>None\<close> is a panic, which
  makes the block invalid; an error leaves the state of before the call.
\<close>

section \<open>Data\<close>

record persisted_validation_data =
  pvd_parent_head :: bytes
  pvd_relay_parent_number :: relay_block_number
  pvd_relay_parent_storage_root :: relay_hash
  pvd_max_pov_size :: u32

record validation_params =
  vp_parent_head :: bytes
  vp_block_data :: bytes
  vp_relay_parent_number :: relay_block_number
  vp_relay_parent_storage_root :: relay_hash

text \<open>The horizontal messages are a \<^verbatim>\<open>BTreeMap\<close>: a list of entries in ascending order of
  sender.\<close>

record 'p parachain_inherent_data =
  validation_data :: persisted_validation_data
  relay_chain_state :: 'p
  downward_messages :: "inbound_downward_message list"
  horizontal_messages :: "(para_id \<times> inbound_hrmp_message list) list"

record outbound_hrmp_message =
  om_recipient :: para_id
  om_data :: bytes

datatype psys_event =
    ValidationFunctionStored
  | ValidationFunctionApplied relay_block_number
  | ValidationFunctionDiscarded
  | UpgradeAuthorized bytes
  | DownwardMessagesReceived u32
  | DownwardMessagesProcessed weight relay_hash

datatype psys_error =
    OverlappingUpgrades
  | ProhibitedByPolkadot
  | CodeTooBig
  | ValidationDataNotAvailable
  | HostConfigurationNotAvailable
  | NotScheduled
  | NothingAuthorized
  | Unauthorized

record ('p, 'w) psys_state =
  PendingValidationCode :: "bytes option"
  NewValidationCode :: "bytes option"
  ValidationData :: "persisted_validation_data option"
  DidSetValidationCode :: bool
  LastRelayChainBlockNumber :: relay_block_number
  UpgradeRestrictionSignal :: "upgrade_restriction option"
  RelayStateProof :: "'p option"
  RelevantMessagingState :: "messaging_state_snapshot option"
  HostConfiguration :: "abridged_host_configuration option"
  LastDmqMqcHead :: relay_hash
  LastHrmpMqcHeads :: "para_id \<rightharpoonup> relay_hash"
  ProcessedDownwardMessages :: u32
  HrmpWatermark :: relay_block_number
  HrmpOutboundMessages :: "outbound_hrmp_message list"
  UpwardMessages :: "bytes list"
  PendingUpwardMessages :: "bytes list"
  AnnouncedHrmpMessagesPerCandidate :: u32
  ReservedXcmpWeightOverride :: "weight option"
  ReservedDmpWeightOverride :: "weight option"
  AuthorizedUpgrade :: "bytes option"
  CustomValidationHeadData :: "bytes option"
  psys_code :: bytes
  psys_events :: "psys_event list"
  psys_world :: 'w

definition psys_genesis :: "bytes \<Rightarrow> 'w \<Rightarrow> ('p, 'w) psys_state" where
  "psys_genesis code w = \<lparr>PendingValidationCode = None, NewValidationCode = None, ValidationData = None,
     DidSetValidationCode = False, LastRelayChainBlockNumber = 0, UpgradeRestrictionSignal = None,
     RelayStateProof = None, RelevantMessagingState = None, HostConfiguration = None,
     LastDmqMqcHead = zero_hash, LastHrmpMqcHeads = Map.empty, ProcessedDownwardMessages = 0,
     HrmpWatermark = 0, HrmpOutboundMessages = [], UpwardMessages = [], PendingUpwardMessages = [],
     AnnouncedHrmpMessagesPerCandidate = 0, ReservedXcmpWeightOverride = None,
     ReservedDmpWeightOverride = None, AuthorizedUpgrade = None, CustomValidationHeadData = None,
     psys_code = code, psys_events = [], psys_world = w\<rparr>"

text \<open>
  The configuration.  \<open>ps_check_relay_number\<close> is whether the check of the associated relay
  number returns; \<open>ps_validation_params\<close> are the parameters set while a block is validated on
  the relay chain.  The handler of downward messages pulls them from an iterator: it returns how many it
  pulled, the weight used and the state.
\<close>

record ('p, 'w) psys_config =
  ps_backend :: "'p relay_backend"
  ps_self_para_id :: para_id
  ps_hasher :: hasher
  ps_code_hash :: "bytes \<Rightarrow> bytes"
  ps_db_writes :: "u64 \<Rightarrow> weight"
  ps_db_reads_writes :: "u64 \<Rightarrow> u64 \<Rightarrow> weight"
  ps_reserved_dmp_weight :: weight
  ps_reserved_xcmp_weight :: weight
  ps_check_relay_number :: "relay_block_number \<Rightarrow> relay_block_number \<Rightarrow> bool"
  ps_validation_params :: "validation_params option"
  ps_on_validation_data :: "persisted_validation_data \<Rightarrow> ('p, 'w) psys_state \<Rightarrow> ('p, 'w) psys_state option"
  ps_on_validation_code_applied :: "('p, 'w) psys_state \<Rightarrow> ('p, 'w) psys_state option"
  ps_handle_dmp_messages :: "(relay_block_number \<times> bytes) list \<Rightarrow> weight \<Rightarrow> ('p, 'w) psys_state \<Rightarrow>
    (nat \<times> weight \<times> ('p, 'w) psys_state) option"
  ps_handle_xcmp_messages :: "(para_id \<times> relay_block_number \<times> bytes) list \<Rightarrow> weight \<Rightarrow> ('p, 'w) psys_state \<Rightarrow>
    (weight \<times> ('p, 'w) psys_state) option"
  ps_take_outbound_messages :: "nat \<Rightarrow> ('p, 'w) psys_state \<Rightarrow> ((para_id \<times> bytes) list \<times> 'w) option"

section \<open>The check of the relay number\<close>

definition relay_number_strictly_increases :: "relay_block_number \<Rightarrow> relay_block_number \<Rightarrow> bool" where
  "relay_number_strictly_increases current previous = (\<not> current \<le> previous)"

definition any_relay_number :: "relay_block_number \<Rightarrow> relay_block_number \<Rightarrow> bool" where
  "any_relay_number _ _ = True"

definition psys_deposit_event :: "psys_event \<Rightarrow> ('p, 'w) psys_state \<Rightarrow> ('p, 'w) psys_state" where
  "psys_deposit_event e s = s\<lparr>psys_events := psys_events s @ [e]\<rparr>"

section \<open>Block hooks\<close>

text \<open>The number of messages of a prefix that fits into a capacity and a size.\<close>

fun count_fitting :: "nat \<Rightarrow> nat \<Rightarrow> bytes list \<Rightarrow> nat" where
  "count_fitting cap_left size_left [] = 0"
| "count_fitting cap_left size_left (msg # up) =
     (if 1 \<le> cap_left \<and> length msg \<le> size_left
      then Suc (count_fitting (cap_left - 1) (size_left - length msg) up) else 0)"

definition available_capacity :: "abridged_host_configuration \<Rightarrow> messaging_state_snapshot \<Rightarrow> u32" where
  "available_capacity host_config state =
     min (sat_sub (hc_max_upward_queue_count host_config) (fst (relay_dispatch_queue_size state)))
         (hc_max_upward_message_num_per_candidate host_config)"

definition available_size :: "abridged_host_configuration \<Rightarrow> messaging_state_snapshot \<Rightarrow> u32" where
  "available_size host_config state =
     sat_sub (hc_max_upward_queue_size host_config) (snd (relay_dispatch_queue_size state))"

definition psys_on_finalize :: "('p, 'w) psys_config \<Rightarrow> ('p, 'w) psys_state \<Rightarrow> ('p, 'w) psys_state option" where
  "psys_on_finalize cfg s0 =
     (let s = s0\<lparr>DidSetValidationCode := False, UpgradeRestrictionSignal := None\<rparr> in
      do {
        _ \<leftarrow> assert_that (ValidationData s \<noteq> None);
        case HostConfiguration s of
          None \<Rightarrow> Some s
        | Some host_config \<Rightarrow>
            (case RelevantMessagingState s of
               None \<Rightarrow> Some s
             | Some relevant_messaging_state \<Rightarrow>
                 let up = PendingUpwardMessages s;
                   num = count_fitting (unat (available_capacity host_config relevant_messaging_state))
                           (unat (available_size host_config relevant_messaging_state)) up;
                   s1 = s\<lparr>UpwardMessages := take num up, PendingUpwardMessages := drop num up\<rparr>;
                   maximum_channels = unat (min (hc_hrmp_max_message_num_per_candidate host_config)
                                                (AnnouncedHrmpMessagesPerCandidate s1));
                   s2 = s1\<lparr>AnnouncedHrmpMessagesPerCandidate := 0\<rparr>
                 in do {
                   (messages, w) \<leftarrow> ps_take_outbound_messages cfg maximum_channels s2;
                   Some (s2\<lparr>HrmpOutboundMessages :=
                              map (\<lambda>(recipient, data). \<lparr>om_recipient = recipient, om_data = data\<rparr>) messages,
                            psys_world := w\<rparr>)
                 })
      })"

definition psys_on_initialize :: "('p, 'w) psys_config \<Rightarrow> ('p, 'w) psys_state \<Rightarrow> weight \<times> ('p, 'w) psys_state" where
  "psys_on_initialize cfg s =
     (let (weight, s1) =
            (if \<not> DidSetValidationCode s then (ps_db_writes cfg 1, s\<lparr>NewValidationCode := None\<rparr>) else (0, s));
        s2 = s1\<lparr>ValidationData := None, ProcessedDownwardMessages := 0, HrmpWatermark := 0,
               UpwardMessages := [], HrmpOutboundMessages := [], CustomValidationHeadData := None\<rparr>;
        weight = weight + ps_db_writes cfg 6;
        weight = weight + ps_db_reads_writes cfg 1 1;
        num = (case HostConfiguration s2 of None \<Rightarrow> 0 | Some c \<Rightarrow> hc_hrmp_max_message_num_per_candidate c);
        s3 = s2\<lparr>AnnouncedHrmpMessagesPerCandidate := num\<rparr>;
        weight = weight + ps_db_reads_writes cfg (3 + ucast num) (4 + ucast num)
      in (weight, s3))"

section \<open>Inbound messages\<close>

definition validate_validation_data :: "('p, 'w) psys_config \<Rightarrow> persisted_validation_data \<Rightarrow> unit option" where
  "validate_validation_data cfg vfp =
     (case ps_validation_params cfg of
        None \<Rightarrow> Some ()
      | Some params \<Rightarrow> do {
          _ \<leftarrow> assert_that (vp_parent_head params = pvd_parent_head vfp);
          _ \<leftarrow> assert_that (vp_relay_parent_number params = pvd_relay_parent_number vfp);
          assert_that (vp_relay_parent_storage_root params = pvd_relay_parent_storage_root vfp)
        })"

definition process_inbound_downward_messages ::
  "('p, 'w) psys_config \<Rightarrow> relay_hash \<Rightarrow> inbound_downward_message list \<Rightarrow> ('p, 'w) psys_state \<Rightarrow>
     (weight \<times> ('p, 'w) psys_state) option" where
  "process_inbound_downward_messages cfg expected_dmq_mqc_head messages s =
     (let dm_count = of_nat (length messages) :: u32 in
      do {
        (weight_used, dmq_head, s') \<leftarrow>
          (if dm_count \<noteq> 0 then
             let s1 = psys_deposit_event (DownwardMessagesReceived dm_count) s;
               max_weight = (case ReservedDmpWeightOverride s1 of
                               None \<Rightarrow> ps_reserved_dmp_weight cfg | Some w \<Rightarrow> w)
             in do {
               (pulled, used, s2) \<leftarrow>
                 ps_handle_dmp_messages cfg (map (\<lambda>m. (dm_sent_at m, dm_msg m)) messages) max_weight s1;
               let dmq_head = foldl (extend_downward (ps_hasher cfg)) (LastDmqMqcHead s) (take pulled messages);
               Some (used, dmq_head,
                 psys_deposit_event (DownwardMessagesProcessed used dmq_head) (s2\<lparr>LastDmqMqcHead := dmq_head\<rparr>))
             }
           else Some (0, LastDmqMqcHead s, s));
        _ \<leftarrow> assert_that (dmq_head = expected_dmq_mqc_head);
        Some (weight_used, s'\<lparr>ProcessedDownwardMessages := dm_count\<rparr>)
      })"

definition order_horizontal :: "(para_id \<times> inbound_hrmp_message list) list \<Rightarrow> (para_id \<times> inbound_hrmp_message) list" where
  "order_horizontal messages =
     sort_key (\<lambda>(sender, m). (hm_sent_at m, sender))
       (concat (map (\<lambda>(sender, contents). map (Pair sender) contents) messages))"

text \<open>The chain head an entry of the running heads starts from.\<close>

definition entry_head :: "(para_id \<rightharpoonup> relay_hash) \<Rightarrow> (para_id \<rightharpoonup> relay_hash) \<Rightarrow> para_id \<Rightarrow> relay_hash" where
  "entry_head last_heads running sender =
     (case running sender of
        Some h \<Rightarrow> h
      | None \<Rightarrow> (case last_heads sender of Some h \<Rightarrow> h | None \<Rightarrow> zero_hash))"

fun track_messages :: "hasher \<Rightarrow> (para_id \<rightharpoonup> relay_hash) \<Rightarrow> (para_id \<times> inbound_hrmp_message) list \<Rightarrow>
    relay_block_number option \<Rightarrow> (para_id \<rightharpoonup> relay_hash) \<Rightarrow> relay_block_number option \<times> (para_id \<rightharpoonup> relay_hash)" where
  "track_messages H last_heads [] watermark running = (watermark, running)"
| "track_messages H last_heads ((sender, m) # ms) watermark running =
     track_messages H last_heads ms
       (if (case watermark of None \<Rightarrow> True | Some w \<Rightarrow> w < hm_sent_at m) then Some (hm_sent_at m) else watermark)
       (running(sender \<mapsto> extend_hrmp H (entry_head last_heads running sender) m))"

fun check_heads :: "(para_id \<rightharpoonup> relay_hash) \<Rightarrow> (para_id \<times> abridged_hrmp_channel) list \<Rightarrow> (para_id \<rightharpoonup> relay_hash) \<Rightarrow>
    (para_id \<rightharpoonup> relay_hash) option" where
  "check_heads last_heads [] running = Some running"
| "check_heads last_heads ((sender, channel) # channels) running =
     (let cur_head = entry_head last_heads running sender;
        target_head = (case ch_mqc_head channel of None \<Rightarrow> zero_hash | Some h \<Rightarrow> h)
      in do {
        _ \<leftarrow> assert_that (cur_head = target_head);
        check_heads last_heads channels (running(sender \<mapsto> cur_head))
      })"

definition process_inbound_horizontal_messages ::
  "('p, 'w) psys_config \<Rightarrow> (para_id \<times> abridged_hrmp_channel) list \<Rightarrow> (para_id \<times> inbound_hrmp_message list) list \<Rightarrow>
     relay_block_number \<Rightarrow> ('p, 'w) psys_state \<Rightarrow> (weight \<times> ('p, 'w) psys_state) option" where
  "process_inbound_horizontal_messages cfg ingress messages relay_parent_number s =
     do {
       _ \<leftarrow> assert_that (list_all (\<lambda>(sender, _).
              case binary_search_by_key fst ingress sender of Inl _ \<Rightarrow> False | Inr _ \<Rightarrow> True) messages);
       let ordered = order_horizontal messages;
       let last_mqc_heads = LastHrmpMqcHeads s;
       let (hrmp_watermark, running) = track_messages (ps_hasher cfg) last_mqc_heads ordered None Map.empty;
       let max_weight = (case ReservedXcmpWeightOverride s of
                           None \<Rightarrow> ps_reserved_xcmp_weight cfg | Some w \<Rightarrow> w);
       (weight_used, s1) \<leftarrow>
         ps_handle_xcmp_messages cfg (map (\<lambda>(sender, m). (sender, hm_sent_at m, hm_data m)) ordered) max_weight s;
       running' \<leftarrow> check_heads last_mqc_heads ingress running;
       Some (weight_used, s1\<lparr>LastHrmpMqcHeads := running',
         HrmpWatermark := (case hrmp_watermark of None \<Rightarrow> relay_parent_number | Some w \<Rightarrow> w)\<rparr>)
     }"

section \<open>The inherent\<close>

definition apply_go_ahead_signal :: "('p, 'w) psys_config \<Rightarrow> relay_block_number \<Rightarrow> upgrade_go_ahead option \<Rightarrow>
    ('p, 'w) psys_state \<Rightarrow> ('p, 'w) psys_state option" where
  "apply_go_ahead_signal cfg relay_parent_number upgrade_go_ahead_signal s =
     (case upgrade_go_ahead_signal of
        Some GoAhead \<Rightarrow> do {
          _ \<leftarrow> assert_that (PendingValidationCode s \<noteq> None);
          let validation_code = (case PendingValidationCode s of None \<Rightarrow> [] | Some c \<Rightarrow> c);
          s1 \<leftarrow> ps_on_validation_code_applied cfg (s\<lparr>PendingValidationCode := None, psys_code := validation_code\<rparr>);
          Some (psys_deposit_event (ValidationFunctionApplied relay_parent_number) s1)
        }
      | Some Abort \<Rightarrow>
          Some (psys_deposit_event ValidationFunctionDiscarded (s\<lparr>PendingValidationCode := None\<rparr>))
      | None \<Rightarrow> Some s)"

definition set_validation_data_body :: "('p, 'w) psys_config \<Rightarrow> 'p parachain_inherent_data \<Rightarrow>
    ('p, 'w) psys_state \<Rightarrow> (weight \<times> ('p, 'w) psys_state) option" where
  "set_validation_data_body cfg data s =
     do {
       _ \<leftarrow> assert_that (ValidationData s = None);
       let vfp = validation_data data;
       _ \<leftarrow> validate_validation_data cfg vfp;
       _ \<leftarrow> assert_that (ps_check_relay_number cfg (pvd_relay_parent_number vfp) (LastRelayChainBlockNumber s));
       let s1 = s\<lparr>LastRelayChainBlockNumber := pvd_relay_parent_number vfp\<rparr>;
       relay_state_proof \<leftarrow> expect (relay_proof_new (ps_backend cfg) (ps_self_para_id cfg)
         (pvd_relay_parent_storage_root vfp) (relay_chain_state data));
       upgrade_go_ahead_signal \<leftarrow> expect (read_upgrade_go_ahead_signal (ps_backend cfg) relay_state_proof);
       s2 \<leftarrow> apply_go_ahead_signal cfg (pvd_relay_parent_number vfp) upgrade_go_ahead_signal s1;
       restriction \<leftarrow> expect (read_upgrade_restriction_signal (ps_backend cfg) relay_state_proof);
       host_config \<leftarrow> expect (read_abridged_host_configuration (ps_backend cfg) relay_state_proof);
       relevant_messaging_state \<leftarrow> expect (read_messaging_state_snapshot (ps_backend cfg) relay_state_proof);
       let s3 = s2\<lparr>UpgradeRestrictionSignal := restriction, ValidationData := Some vfp,
         RelayStateProof := Some (relay_chain_state data),
         RelevantMessagingState := Some relevant_messaging_state, HostConfiguration := Some host_config\<rparr>;
       s4 \<leftarrow> ps_on_validation_data cfg vfp s3;
       (dmp_weight, s5) \<leftarrow> process_inbound_downward_messages cfg (dmq_mqc_head relevant_messaging_state)
         (downward_messages data) s4;
       (xcmp_weight, s6) \<leftarrow> process_inbound_horizontal_messages cfg (ingress_channels relevant_messaging_state)
         (horizontal_messages data) (pvd_relay_parent_number vfp) s5;
       Some (dmp_weight + xcmp_weight, s6)
     }"

definition set_validation_data :: "('p, 'w) psys_config \<Rightarrow> 'acc origin \<Rightarrow> 'p parachain_inherent_data \<Rightarrow>
    ('p, 'w) psys_state \<Rightarrow> (psys_error dispatch_error, weight \<times> ('p, 'w) psys_state) result option" where
  "set_validation_data cfg origin data s =
     (case ensure_none origin of
        Inl e \<Rightarrow> Some (Inl e)
      | Inr _ \<Rightarrow> map_option Inr (set_validation_data_body cfg data s))"

section \<open>Code upgrades and upward messages\<close>

definition notify_polkadot_of_pending_upgrade :: "bytes \<Rightarrow> ('p, 'w) psys_state \<Rightarrow> ('p, 'w) psys_state" where
  "notify_polkadot_of_pending_upgrade code s = s\<lparr>NewValidationCode := Some code, DidSetValidationCode := True\<rparr>"

definition max_code_size :: "('p, 'w) psys_state \<Rightarrow> u32 option" where
  "max_code_size s = map_option hc_max_code_size (HostConfiguration s)"

definition schedule_code_upgrade :: "bytes \<Rightarrow> ('p, 'w) psys_state \<Rightarrow>
    (psys_error dispatch_error, ('p, 'w) psys_state) result" where
  "schedule_code_upgrade validation_function s =
     rbind (ensure (ValidationData s \<noteq> None) (Module ValidationDataNotAvailable)) (\<lambda>_.
     rbind (ensure (UpgradeRestrictionSignal s = None) (Module ProhibitedByPolkadot)) (\<lambda>_.
     rbind (ensure (PendingValidationCode s = None) (Module OverlappingUpgrades)) (\<lambda>_.
     rbind (ok_or (HostConfiguration s) (Module HostConfigurationNotAvailable)) (\<lambda>cfg.
     rbind (ensure (length validation_function \<le> unat (hc_max_code_size cfg)) (Module CodeTooBig)) (\<lambda>_.
     Inr (psys_deposit_event ValidationFunctionStored
       ((notify_polkadot_of_pending_upgrade validation_function s)
          \<lparr>PendingValidationCode := Some validation_function\<rparr>)))))))"

definition psys_set_code :: "bytes \<Rightarrow> ('p, 'w) psys_state \<Rightarrow>
    (psys_error dispatch_error, ('p, 'w) psys_state) result" where
  "psys_set_code code s = schedule_code_upgrade code s"

definition set_custom_validation_head_data :: "bytes \<Rightarrow> ('p, 'w) psys_state \<Rightarrow> ('p, 'w) psys_state" where
  "set_custom_validation_head_data head_data s = s\<lparr>CustomValidationHeadData := Some head_data\<rparr>"

definition send_upward_message :: "bytes \<Rightarrow> ('p, 'w) psys_state \<Rightarrow>
    (message_send_error, u32 \<times> ('p, 'w) psys_state) result" where
  "send_upward_message message s =
     (if (case HostConfiguration s of
            Some cfg \<Rightarrow> length message > unat (hc_max_upward_message_size cfg)
          | None \<Rightarrow> False)
      then Inl TooBig
      else Inr (0, s\<lparr>PendingUpwardMessages := PendingUpwardMessages s @ [message]\<rparr>))"

definition sudo_send_upward_message :: "'acc origin \<Rightarrow> bytes \<Rightarrow> ('p, 'w) psys_state \<Rightarrow>
    (psys_error dispatch_error, ('p, 'w) psys_state) result" where
  "sudo_send_upward_message origin message s =
     rbind (ensure_root origin) (\<lambda>_.
       Inr (case send_upward_message message s of Inl _ \<Rightarrow> s | Inr (_, s') \<Rightarrow> s'))"

definition authorize_upgrade :: "'acc origin \<Rightarrow> bytes \<Rightarrow> ('p, 'w) psys_state \<Rightarrow>
    (psys_error dispatch_error, ('p, 'w) psys_state) result" where
  "authorize_upgrade origin code_hash s =
     rbind (ensure_root origin) (\<lambda>_.
       Inr (psys_deposit_event (UpgradeAuthorized code_hash) (s\<lparr>AuthorizedUpgrade := Some code_hash\<rparr>)))"

definition validate_authorized_upgrade :: "('p, 'w) psys_config \<Rightarrow> bytes \<Rightarrow> ('p, 'w) psys_state \<Rightarrow>
    (psys_error dispatch_error, bytes) result" where
  "validate_authorized_upgrade cfg code s =
     rbind (ok_or (AuthorizedUpgrade s) (Module NothingAuthorized)) (\<lambda>required_hash.
     let actual_hash = ps_code_hash cfg code in
     rbind (ensure (actual_hash = required_hash) (Module Unauthorized)) (\<lambda>_. Inr actual_hash))"

definition enact_authorized_upgrade :: "('p, 'w) psys_config \<Rightarrow> 'acc origin \<Rightarrow> bytes \<Rightarrow> ('p, 'w) psys_state \<Rightarrow>
    (psys_error dispatch_error, ('p, 'w) psys_state) result" where
  "enact_authorized_upgrade cfg _ code s =
     rbind (validate_authorized_upgrade cfg code s) (\<lambda>_.
     rbind (schedule_code_upgrade code s) (\<lambda>s1. Inr (s1\<lparr>AuthorizedUpgrade := None\<rparr>)))"

section \<open>The calls and their validity as unsigned transactions\<close>

datatype 'p psys_call =
    SetValidationData "'p parachain_inherent_data"
  | SudoSendUpwardMessage bytes
  | AuthorizeUpgrade bytes
  | EnactAuthorizedUpgrade bytes

record valid_transaction =
  tx_priority :: u64
  tx_requires :: "bytes list"
  tx_provides :: "bytes list"
  tx_longevity :: u64
  tx_propagate :: bool

definition default_valid_transaction :: valid_transaction where
  "default_valid_transaction =
     \<lparr>tx_priority = 0, tx_requires = [], tx_provides = [], tx_longevity = - 1, tx_propagate = True\<rparr>"

datatype transaction_validity_error = InvalidTransactionCall

definition psys_is_inherent :: "'p psys_call \<Rightarrow> bool" where
  "psys_is_inherent call = (case call of SetValidationData _ \<Rightarrow> True | _ \<Rightarrow> False)"

definition psys_create_inherent :: "'p parachain_inherent_data option \<Rightarrow> 'p psys_call option option" where
  "psys_create_inherent data = (case data of None \<Rightarrow> None | Some d \<Rightarrow> Some (Some (SetValidationData d)))"

definition psys_validate_unsigned :: "('p, 'w) psys_config \<Rightarrow> 'p psys_call \<Rightarrow> ('p, 'w) psys_state \<Rightarrow>
    (transaction_validity_error, valid_transaction) result" where
  "psys_validate_unsigned cfg call s =
     (case (case call of EnactAuthorizedUpgrade code \<Rightarrow> validate_authorized_upgrade cfg code s | _ \<Rightarrow> Inl BadOrigin) of
        Inr hash \<Rightarrow> Inr \<lparr>tx_priority = 100, tx_requires = [], tx_provides = [hash],
          tx_longevity = - 1, tx_propagate = True\<rparr>
      | Inl _ \<Rightarrow>
          (case call of SetValidationData _ \<Rightarrow> Inr default_valid_transaction
           | _ \<Rightarrow> Inl InvalidTransactionCall))"

section \<open>Channel information, the collation and the block number\<close>

definition get_channel_status :: "('p, 'w) psys_state \<Rightarrow> para_id \<Rightarrow> channel_status" where
  "get_channel_status s recipient =
     (case RelevantMessagingState s of
        None \<Rightarrow> Closed
      | Some d \<Rightarrow>
          (case binary_search_by_key fst (egress_channels d) recipient of
             Inl _ \<Rightarrow> Closed
           | Inr index \<Rightarrow>
               let meta = snd (egress_channels d ! index) in
               if ch_msg_count meta + 1 > ch_max_capacity meta then Full
               else Ready (unat (ch_max_total_size meta - ch_total_size meta)) (unat (ch_max_message_size meta))))"

definition get_channel_max :: "('p, 'w) psys_state \<Rightarrow> para_id \<Rightarrow> nat option" where
  "get_channel_max s recipient =
     (case RelevantMessagingState s of
        None \<Rightarrow> None
      | Some d \<Rightarrow>
          (case binary_search_by_key fst (egress_channels d) recipient of
             Inl _ \<Rightarrow> None
           | Inr index \<Rightarrow> Some (unat (ch_max_message_size (snd (egress_channels d ! index))))))"

record collation_info =
  ci_upward_messages :: "bytes list"
  ci_horizontal_messages :: "outbound_hrmp_message list"
  ci_new_validation_code :: "bytes option"
  ci_processed_downward_messages :: u32
  ci_hrmp_watermark :: relay_block_number
  ci_head_data :: bytes

definition collect_collation_info :: "('h \<Rightarrow> bytes) \<Rightarrow> 'h \<Rightarrow> ('p, 'w) psys_state \<Rightarrow> collation_info" where
  "collect_collation_info encode_header header s =
     \<lparr>ci_upward_messages = UpwardMessages s,
      ci_horizontal_messages = HrmpOutboundMessages s,
      ci_new_validation_code = NewValidationCode s,
      ci_processed_downward_messages = ProcessedDownwardMessages s,
      ci_hrmp_watermark = HrmpWatermark s,
      ci_head_data = (case CustomValidationHeadData s of None \<Rightarrow> encode_header header | Some v \<Rightarrow> v)\<rparr>"

definition current_block_number :: "('p, 'w) psys_state \<Rightarrow> relay_block_number" where
  "current_block_number s = (case ValidationData s of None \<Rightarrow> 0 | Some d \<Rightarrow> pvd_relay_parent_number d)"

section \<open>What the handlers keep\<close>

text \<open>
  The storage items that only the inherent and the block hooks write.  The handlers and hooks that run within
  them keep these: the items are private to the pallet, and no call of the pallet that a message could make
  while the inherent runs succeeds in writing them.
\<close>

definition psys_private where
  "psys_private s = (ValidationData s, LastRelayChainBlockNumber s, UpgradeRestrictionSignal s,
     RelayStateProof s, RelevantMessagingState s, HostConfiguration s,
     (LastDmqMqcHead s, LastHrmpMqcHeads s, UpwardMessages s, HrmpOutboundMessages s,
      AnnouncedHrmpMessagesPerCandidate s, psys_code s))"

definition psys_frames :: "('p, 'w) psys_config \<Rightarrow> bool" where
  "psys_frames cfg \<longleftrightarrow>
     (\<forall>vfp s s'. ps_on_validation_data cfg vfp s = Some s' \<longrightarrow> psys_private s' = psys_private s) \<and>
     (\<forall>s s'. ps_on_validation_code_applied cfg s = Some s' \<longrightarrow> psys_private s' = psys_private s) \<and>
     (\<forall>ms limit s n w s'. ps_handle_dmp_messages cfg ms limit s = Some (n, w, s') \<longrightarrow>
        psys_private s' = psys_private s) \<and>
     (\<forall>ms limit s w s'. ps_handle_xcmp_messages cfg ms limit s = Some (w, s') \<longrightarrow>
        psys_private s' = psys_private s)"

text \<open>A handler of downward messages that pulls all of them.\<close>

definition dmp_handler_pulls_all :: "('p, 'w) psys_config \<Rightarrow> bool" where
  "dmp_handler_pulls_all cfg \<longleftrightarrow>
     (\<forall>ms limit s n w s'. ps_handle_dmp_messages cfg ms limit s = Some (n, w, s') \<longrightarrow> length ms \<le> n)"

lemma pulls_all_take:
  "dmp_handler_pulls_all cfg \<Longrightarrow> ps_handle_dmp_messages cfg (map f ms) limit s = Some (n, w, s') \<Longrightarrow> take n ms = ms"
  unfolding dmp_handler_pulls_all_def by force

lemma psys_framesD:
  assumes "psys_frames cfg"
  shows "ps_on_validation_data cfg vfp s = Some s' \<Longrightarrow> psys_private s' = psys_private s"
    and "ps_on_validation_code_applied cfg s = Some s' \<Longrightarrow> psys_private s' = psys_private s"
    and "ps_handle_dmp_messages cfg ms limit s = Some (n, w, s') \<Longrightarrow> psys_private s' = psys_private s"
    and "ps_handle_xcmp_messages cfg hms limit s = Some (w, s') \<Longrightarrow> psys_private s' = psys_private s"
  using assms unfolding psys_frames_def by blast+

section \<open>What the proof shows\<close>

text \<open>The messaging state the relay chain's storage proof shows.\<close>

definition proven_snapshot :: "('p, 'w) psys_config \<Rightarrow> 'p parachain_inherent_data \<Rightarrow> messaging_state_snapshot option" where
  "proven_snapshot cfg data = do {
     p \<leftarrow> expect (relay_proof_new (ps_backend cfg) (ps_self_para_id cfg)
       (pvd_relay_parent_storage_root (validation_data data)) (relay_chain_state data));
     expect (read_messaging_state_snapshot (ps_backend cfg) p)
   }"

definition proven_go_ahead :: "('p, 'w) psys_config \<Rightarrow> 'p parachain_inherent_data \<Rightarrow> upgrade_go_ahead option option" where
  "proven_go_ahead cfg data = do {
     p \<leftarrow> expect (relay_proof_new (ps_backend cfg) (ps_self_para_id cfg)
       (pvd_relay_parent_storage_root (validation_data data)) (relay_chain_state data));
     expect (read_upgrade_go_ahead_signal (ps_backend cfg) p)
   }"

definition target_head :: "abridged_hrmp_channel \<Rightarrow> relay_hash" where
  "target_head channel = (case ch_mqc_head channel of None \<Rightarrow> zero_hash | Some h \<Rightarrow> h)"

end
