(* ===== verification/Example_Runtime.thy ===== *)
theory Example_Runtime
  imports Parachain_System
begin

text \<open>
  A relay chain state, a storage proof of it and a configuration of the parachain system pallet with concrete
  functions in place of the libraries and handlers, for the concrete instances of the theorems.
\<close>

section \<open>A relay chain and a configuration to evaluate with\<close>

definition toy_hasher :: hasher where
  "toy_hasher x = (case x of HashData d \<Rightarrow> d | HashLink h n d \<Rightarrow> h @ ucast n # d)"

text \<open>A proof is a list of keys and values; a key is a tag with the ids it is about.\<close>

definition toy_backend :: "(bytes \<times> bytes) list relay_backend" where
  "toy_backend = \<lparr>
     rb_contains_root = (\<lambda>_ root. root = [1]),
     rb_trie = (\<lambda>p _ key. Inr (map_of p key)),
     key_dmq_mqc_head = (\<lambda>a. [1, ucast a]),
     key_relay_dispatch_queue_size = (\<lambda>a. [2, ucast a]),
     key_hrmp_ingress_channel_index = (\<lambda>a. [3, ucast a]),
     key_hrmp_egress_channel_index = (\<lambda>a. [4, ucast a]),
     key_hrmp_channels = (\<lambda>a b. [5, ucast a, ucast b]),
     key_active_config = [6],
     key_current_slot = [7],
     key_upgrade_go_ahead = (\<lambda>a. [8, ucast a]),
     key_upgrade_restriction = (\<lambda>a. [9, ucast a]),
     dec_hash = Some,
     dec_queue_size = (\<lambda>bs. case bs of [a, b] \<Rightarrow> Some (ucast a, ucast b) | _ \<Rightarrow> None),
     dec_para_ids = (\<lambda>bs. Some (map ucast bs)),
     dec_channel = (\<lambda>bs. case bs of
         a # b # c # d # e # head \<Rightarrow> Some \<lparr>ch_max_capacity = ucast a, ch_max_total_size = ucast b,
           ch_max_message_size = ucast c, ch_msg_count = ucast d, ch_total_size = ucast e, ch_mqc_head = Some head\<rparr>
       | _ \<Rightarrow> None),
     dec_host_config = (\<lambda>bs. case bs of
         [a, b, c, d, e, f] \<Rightarrow> Some \<lparr>hc_max_code_size = ucast a, hc_max_head_data_size = 0, hc_max_upward_queue_count = ucast b,
           hc_max_upward_queue_size = ucast c, hc_max_upward_message_size = ucast d,
           hc_max_upward_message_num_per_candidate = ucast e, hc_hrmp_max_message_num_per_candidate = ucast f,
           hc_validation_upgrade_cooldown = 0, hc_validation_upgrade_delay = 0\<rparr>
       | _ \<Rightarrow> None),
     dec_slot = (\<lambda>bs. case bs of [a] \<Rightarrow> Some (ucast a) | _ \<Rightarrow> None),
     dec_go_ahead = (\<lambda>bs. if bs = [0] then Some Abort else if bs = [1] then Some GoAhead else None),
     dec_restriction = (\<lambda>bs. if bs = [0] then Some Present else None)\<rparr>"

definition example_psys :: "((bytes \<times> bytes) list, 'w) psys_config" where
  "example_psys = \<lparr>ps_backend = toy_backend, ps_self_para_id = 9, ps_hasher = toy_hasher, ps_code_hash = (\<lambda>c. c),
     ps_db_writes = (\<lambda>n. n), ps_db_reads_writes = (\<lambda>r w. r + w),
     ps_reserved_dmp_weight = 100, ps_reserved_xcmp_weight = 200,
     ps_check_relay_number = relay_number_strictly_increases, ps_validation_params = None,
     ps_on_validation_data = (\<lambda>_ s. Some s), ps_on_validation_code_applied = Some,
     ps_handle_dmp_messages = (\<lambda>ms limit s. Some (length ms, min limit (of_nat (length ms)), s)),
     ps_handle_xcmp_messages = (\<lambda>ms limit s. Some (min limit (of_nat (length ms)), s)),
     ps_take_outbound_messages = (\<lambda>n s. Some (take n [(3, [1]), (4, [2])], psys_world s))\<rparr>"

abbreviation toy_psys :: "((bytes \<times> bytes) list, nat) psys_config" where
  "toy_psys \<equiv> example_psys"

text \<open>A relay chain state with one open channel from parachain 5 in which two messages have been sent, and
  one downward message.\<close>

definition toy_proof :: "(bytes \<times> bytes) list" where
  "toy_proof = [([6], [100, 5, 50, 20, 2, 1]), ([1, 9], zero_hash @ [2, 7]), ([2, 9], [1, 40]),
     ([3, 9], [5]), ([5, 5, 9], [8, 100, 50, 0, 0] @ zero_hash @ [2, 8, 3, 9]),
     ([4, 9], [3, 4]), ([5, 9, 3], [8, 100, 50, 1, 30]), ([5, 9, 4], [2, 100, 50, 2, 60])]"

definition toy_inherent :: "(bytes \<times> bytes) list parachain_inherent_data" where
  "toy_inherent = \<lparr>
     validation_data = \<lparr>pvd_parent_head = [], pvd_relay_parent_number = 10,
       pvd_relay_parent_storage_root = [1], pvd_max_pov_size = 0\<rparr>,
     relay_chain_state = toy_proof,
     downward_messages = [\<lparr>dm_sent_at = 2, dm_msg = [7]\<rparr>],
     horizontal_messages = [(5, [\<lparr>hm_sent_at = 2, hm_data = [8]\<rparr>, \<lparr>hm_sent_at = 3, hm_data = [9]\<rparr>])]\<rparr>"

lemma toy_psys_ok: "psys_frames example_psys" "dmp_handler_pulls_all example_psys"
  by (auto simp: psys_frames_def dmp_handler_pulls_all_def example_psys_def)

text \<open>A call that neither panics nor fails.\<close>

definition accepted :: "('e, 'a) result option \<Rightarrow> bool" where
  "accepted r = (case r of Some (Inr _) \<Rightarrow> True | _ \<Rightarrow> False)"

lemma accepted_iff: "accepted r \<longleftrightarrow> (\<exists>x. r = Some (Inr x))"
  by (auto simp: accepted_def split: option.splits sum.splits)

lemma toy_inherent_accepted:
  "\<exists>w s'. set_validation_data toy_psys (NoneOrigin :: nat origin) toy_inherent (psys_genesis [] 0) = Some (Inr (w, s'))"
proof -
  have "accepted (set_validation_data toy_psys (NoneOrigin :: nat origin) toy_inherent (psys_genesis [] 0))"
    by code_simp
  then show ?thesis by (auto simp: accepted_iff)
qed

definition toy_snapshot :: messaging_state_snapshot where
  "toy_snapshot = \<lparr>dmq_mqc_head = zero_hash @ [2, 7], relay_dispatch_queue_size = (1, 40),
     ingress_channels = [(5, \<lparr>ch_max_capacity = 8, ch_max_total_size = 100, ch_max_message_size = 50,
       ch_msg_count = 0, ch_total_size = 0, ch_mqc_head = Some (zero_hash @ [2, 8, 3, 9])\<rparr>)],
     egress_channels = [
       (3, \<lparr>ch_max_capacity = 8, ch_max_total_size = 100, ch_max_message_size = 50,
         ch_msg_count = 1, ch_total_size = 30, ch_mqc_head = Some []\<rparr>),
       (4, \<lparr>ch_max_capacity = 2, ch_max_total_size = 100, ch_max_message_size = 50,
         ch_msg_count = 2, ch_total_size = 60, ch_mqc_head = Some []\<rparr>)]\<rparr>"

lemma toy_snapshot_proven: "proven_snapshot toy_psys toy_inherent = Some toy_snapshot"
  by code_simp

text \<open>A state at the end of a block, with three upward messages waiting.\<close>

definition toy_host_configuration :: abridged_host_configuration where
  "toy_host_configuration = \<lparr>hc_max_code_size = 100, hc_max_head_data_size = 0, hc_max_upward_queue_count = 5,
     hc_max_upward_queue_size = 50, hc_max_upward_message_size = 20,
     hc_max_upward_message_num_per_candidate = 3, hc_hrmp_max_message_num_per_candidate = 1,
     hc_validation_upgrade_cooldown = 0, hc_validation_upgrade_delay = 0\<rparr>"

definition toy_filled :: "((bytes \<times> bytes) list, nat) psys_state" where
  "toy_filled = (psys_genesis [] 0)\<lparr>ValidationData := Some (validation_data toy_inherent),
     HostConfiguration := Some toy_host_configuration, RelevantMessagingState := Some toy_snapshot,
     PendingUpwardMessages := [replicate 4 1, replicate 5 2, replicate 3 3],
     AnnouncedHrmpMessagesPerCandidate := 2\<rparr>"

end
