(* ===== verification/Parachain_Messages.thy ===== *)
theory Parachain_Messages
  imports Example_Runtime
begin

text \<open>
  The messages of a block in the parachain system pallet: which upward messages leave, in which order the
  horizontal ones are handled, and that the inherent accepts exactly the messages the relay chain's state vouches for.
\<close>

section \<open>Upward messages\<close>

abbreviation total_size :: "bytes list \<Rightarrow> nat" where
  "total_size ms \<equiv> sum_list (map length ms)"

lemma count_fitting_bounds:
  "count_fitting cap sz up \<le> cap \<and> count_fitting cap sz up \<le> length up \<and>
   total_size (take (count_fitting cap sz up) up) \<le> sz"
proof (induction cap sz up rule: count_fitting.induct)
  case (2 cap sz msg up)
  show ?case
  proof (cases "1 \<le> cap \<and> length msg \<le> sz")
    case True
    then show ?thesis using 2 [OF True] by (simp, linarith)
  qed auto
qed simp

lemma count_fitting_maximal:
  "drop (count_fitting cap sz up) up = m # rest \<Longrightarrow>
     count_fitting cap sz up = cap \<or> sz < total_size (take (count_fitting cap sz up) up) + length m"
proof (induction cap sz up rule: count_fitting.induct)
  case (2 cap sz msg up)
  show ?case
  proof (cases "1 \<le> cap \<and> length msg \<le> sz")
    case True
    then show ?thesis using 2 by (simp, linarith)
  qed (use 2(2) in auto)
qed simp

lemma psys_on_finalize_returns:
  assumes "psys_on_finalize cfg s = Some s'" "HostConfiguration s = Some hc" "RelevantMessagingState s = Some st"
  shows "\<exists>ms w num s1. num = count_fitting (unat (available_capacity hc st)) (unat (available_size hc st)) (PendingUpwardMessages s) \<and>
     s1 = s\<lparr>DidSetValidationCode := False, UpgradeRestrictionSignal := None,
            UpwardMessages := take num (PendingUpwardMessages s), PendingUpwardMessages := drop num (PendingUpwardMessages s),
            AnnouncedHrmpMessagesPerCandidate := 0\<rparr> \<and>
     ps_take_outbound_messages cfg (unat (min (hc_hrmp_max_message_num_per_candidate hc)
        (AnnouncedHrmpMessagesPerCandidate s))) s1 = Some (ms, w) \<and>
     s' = s1\<lparr>HrmpOutboundMessages := map (\<lambda>(recipient, data). \<lparr>om_recipient = recipient, om_data = data\<rparr>) ms,
             psys_world := w\<rparr>"
  using assms by (auto simp: psys_on_finalize_def Let_def panic_simps)

lemma psys_on_finalize_upward:
  assumes "psys_on_finalize cfg s = Some s'" "HostConfiguration s = Some hc" "RelevantMessagingState s = Some st"
  shows "UpwardMessages s' @ PendingUpwardMessages s' = PendingUpwardMessages s"
    and "length (UpwardMessages s') \<le> unat (available_capacity hc st)"
    and "total_size (UpwardMessages s') \<le> unat (available_size hc st)"
    and "PendingUpwardMessages s' = m # rest \<Longrightarrow>
      length (UpwardMessages s') = unat (available_capacity hc st) \<or>
      unat (available_size hc st) < total_size (UpwardMessages s') + length m"
  using psys_on_finalize_returns [OF assms]
    count_fitting_bounds [of "unat (available_capacity hc st)" "unat (available_size hc st)" "PendingUpwardMessages s"]
    count_fitting_maximal [of "unat (available_capacity hc st)" "unat (available_size hc st)" "PendingUpwardMessages s"]
  by auto

lemma unat_available:
  assumes "relay_dispatch_queue_size st = (cnt, sz)"
  shows "unat (available_capacity hc st) =
      min (unat (hc_max_upward_queue_count hc) - unat cnt) (unat (hc_max_upward_message_num_per_candidate hc))"
    and "unat (available_size hc st) = unat (hc_max_upward_queue_size hc) - unat sz"
  by (simp_all add: available_capacity_def available_size_def assms min_def word_le_nat_alt unat_sat_sub)

text \<open>C13. The messages a block sends to the relay chain are a prefix of the ones that wait, and what is
  not sent stays in the queue in order; the candidate keeps within the number of messages per candidate
  and, with what the relay chain has queued, within the count and the total size of its queue; and a message
  is left behind only if it would break one of these three limits.  The size of a single message is not among them.\<close>

theorem upward_messages_of_block:
  assumes "psys_on_finalize cfg s = Some s'" "HostConfiguration s = Some hc"
    "RelevantMessagingState s = Some st" "relay_dispatch_queue_size st = (cnt, sz)"
  shows "UpwardMessages s' @ PendingUpwardMessages s' = PendingUpwardMessages s \<and>
     length (UpwardMessages s') \<le> unat (hc_max_upward_message_num_per_candidate hc) \<and>
     (UpwardMessages s' = [] \<or> unat cnt + length (UpwardMessages s') \<le> unat (hc_max_upward_queue_count hc)) \<and>
     (total_size (UpwardMessages s') = 0 \<or>
        unat sz + total_size (UpwardMessages s') \<le> unat (hc_max_upward_queue_size hc)) \<and>
     (\<forall>m rest. PendingUpwardMessages s' = m # rest \<longrightarrow>
        length (UpwardMessages s') = unat (hc_max_upward_message_num_per_candidate hc) \<or>
        unat (hc_max_upward_queue_count hc) \<le> unat cnt + length (UpwardMessages s') \<or>
        unat (hc_max_upward_queue_size hc) < unat sz + total_size (UpwardMessages s') + length m)"
proof -
  note up = psys_on_finalize_upward [OF assms(1-3)] and available = unat_available [OF assms(4)]
  show ?thesis
    using up(2,3) unfolding available
    by (intro conjI allI impI up(1), force, fastforce, fastforce) (frule up(4), unfold available, linarith)
qed


theorem upward_messages_of_block_witness:
  "\<exists>s'. psys_on_finalize toy_psys toy_filled = Some s' \<and>
     UpwardMessages s' @ PendingUpwardMessages s' = [replicate 4 1, replicate 5 2, replicate 3 3] \<and>
     total_size (UpwardMessages s') \<le> 10"
proof -
  have "case psys_on_finalize toy_psys toy_filled of Some s' \<Rightarrow> total_size (UpwardMessages s') \<le> 10 | _ \<Rightarrow> False"
    by code_simp
  then obtain s' where s': "psys_on_finalize toy_psys toy_filled = Some s'" "total_size (UpwardMessages s') \<le> 10"
    by (auto split: option.splits)
  have "UpwardMessages s' @ PendingUpwardMessages s' = PendingUpwardMessages toy_filled"
    using upward_messages_of_block [OF s'(1), of toy_host_configuration toy_snapshot 1 40]
    by (simp add: toy_filled_def toy_snapshot_def)
  then show ?thesis using s' by (auto simp: toy_filled_def)
qed



section \<open>The order of horizontal messages\<close>

text \<open>The messages of one sender, as its entry in the map has them.\<close>

definition contents_of :: "(para_id \<times> inbound_hrmp_message list) list \<Rightarrow> para_id \<Rightarrow> inbound_hrmp_message list" where
  "contents_of messages sender = (case map_of messages sender of None \<Rightarrow> [] | Some c \<Rightarrow> c)"

definition of_sender :: "para_id \<Rightarrow> (para_id \<times> 'm) list \<Rightarrow> 'm list" where
  "of_sender sender ms = map snd (filter (\<lambda>p. fst p = sender) ms)"

lemma of_sender_simps [simp]:
  "of_sender sender [] = []"
  "of_sender sender ((a, m) # ms) = (if a = sender then m # of_sender sender ms else of_sender sender ms)"
  "of_sender sender (xs @ ys) = of_sender sender xs @ of_sender sender ys"
  by (simp_all add: of_sender_def)

lemma of_sender_Pair [simp]: "of_sender sender (map (Pair a) ms) = (if a = sender then ms else [])"
  by (induction ms) auto

lemma of_sender_insort:
  "of_sender sender (insort_key (\<lambda>(a, m). (f m :: 'b::linorder, a)) (a, m) ps) =
     (if a = sender then insort_key f m (of_sender sender ps) else of_sender sender ps)"
  if "sorted (map (\<lambda>(a, m). (f m, a)) ps)"
  using that
proof (induction ps)
  case (Cons p ps)
  obtain b n where p: "p = (b, n)" by (cases p)
  have le: "f n \<le> f n'" if "n' \<in> set (of_sender sender ps)" for n'
    using that Cons.prems by (fastforce simp: of_sender_def p)
  then have "insort_key f m (of_sender sender ps) = m # of_sender sender ps" if "f m \<le> f n"
    by (intro insort_is_Cons) (use that in force)
  then show ?case
    using Cons by (auto simp: p less_le_not_le)
qed simp

lemma of_sender_sort:
  "of_sender sender (sort_key (\<lambda>(a, m). (f m :: 'b::linorder, a)) ps) = sort_key f (of_sender sender ps)"
  by (induction ps) (auto simp: of_sender_insort)

lemma of_sender_flat:
  "distinct (map fst messages) \<Longrightarrow>
     of_sender sender (concat (map (\<lambda>(a, contents). map (Pair a) contents) messages)) = contents_of messages sender"
proof (induction messages)
  case (Cons e es)
  have "contents_of es a = []" if "a \<notin> fst ` set es" for a
    using that by (simp add: contents_of_def map_of_eq_None_iff [THEN iffD2])
  then show ?case using Cons by (cases e) (auto simp: contents_of_def)
qed (simp add: contents_of_def)

lemma of_sender_order:
  "distinct (map fst messages) \<Longrightarrow>
     of_sender sender (order_horizontal messages) = sort_key hm_sent_at (contents_of messages sender)"
  by (simp add: order_horizontal_def of_sender_sort of_sender_flat)

text \<open>The horizontal messages of a block are handled in the order of the relay chain block they were
  sent at and, within a block, of their senders; none is lost or added, and the messages of one sender that
  the collator submits in the order of sending keep that order.\<close>

theorem horizontal_order:
  assumes "distinct (map fst messages)"
  shows "sorted (map (\<lambda>(sender, m). (hm_sent_at m, sender)) (order_horizontal messages)) \<and>
     mset (order_horizontal messages) =
       mset (concat (map (\<lambda>(sender, contents). map (Pair sender) contents) messages)) \<and>
     (\<forall>sender. sorted (map hm_sent_at (contents_of messages sender)) \<longrightarrow>
        of_sender sender (order_horizontal messages) = contents_of messages sender)"
  using of_sender_order [OF assms] sort_key_id_if_sorted [of hm_sent_at]
  by (auto simp: order_horizontal_def)

theorem horizontal_order_witness:
  "of_sender 5 (order_horizontal (horizontal_messages toy_inherent)) =
     [\<lparr>hm_sent_at = 2, hm_data = [8]\<rparr>, \<lparr>hm_sent_at = 3, hm_data = [9]\<rparr>]"
  using horizontal_order [of "horizontal_messages toy_inherent"]
  by (simp add: toy_inherent_def contents_of_def)

section \<open>The heads of the message queue chains\<close>

lemma entry_head_upd [simp]:
  "entry_head last_heads (running(a \<mapsto> h)) b = (if a = b then h else entry_head last_heads running b)"
  by (simp add: entry_head_def)

lemma track_messages_head:
  "track_messages H last_heads ms watermark running = (watermark', running') \<Longrightarrow>
     entry_head last_heads running' sender =
       foldl (extend_hrmp H) (entry_head last_heads running sender) (of_sender sender ms)"
  by (induction H last_heads ms watermark running rule: track_messages.induct) auto

lemma track_messages_dom:
  "track_messages H last_heads ms watermark running = (watermark', running') \<Longrightarrow>
     dom running' = dom running \<union> fst ` set ms"
  by (induction H last_heads ms watermark running rule: track_messages.induct) auto

lemma track_messages_watermark_Some:
  "track_messages H last_heads ms (Some w) running = (watermark', running') \<Longrightarrow>
     watermark' = Some (Max (insert w (hm_sent_at ` snd ` set ms)))"
proof (induction ms arbitrary: w running)
  case (Cons p ms)
  obtain a m where p: "p = (a, m)" by (cases p)
  have "Max (insert w (insert x A)) = Max (insert (if w < x then x else w) A)"
    if "finite A" for x :: relay_block_number and A
    using that by (cases "A = {}") (auto simp: Max_insert max_def)
  then show ?case using Cons by (auto simp: p split: if_splits)
qed auto

lemma track_messages_watermark:
  "track_messages H last_heads ms None running = (watermark', running') \<Longrightarrow>
     watermark' = (if ms = [] then None else Some (Max (hm_sent_at ` snd ` set ms)))"
  by (cases ms) (auto dest: track_messages_watermark_Some)

lemma check_heads_Cons:
  "check_heads last_heads ((a, channel) # channels) running = Some running' \<longleftrightarrow>
     entry_head last_heads running a = target_head channel \<and>
     check_heads last_heads channels (running(a \<mapsto> entry_head last_heads running a)) = Some running'"
  by (simp only: check_heads.simps Let_def target_head_def panic_simps) blast

lemma check_heads_Some:
  "check_heads last_heads channels running = Some running' \<longleftrightarrow>
     (\<forall>(a, channel) \<in> set channels. entry_head last_heads running a = target_head channel) \<and>
     running' = (\<lambda>a. if a \<in> fst ` set channels then Some (entry_head last_heads running a) else running a)"
proof (induction channels arbitrary: running)
  case (Cons p channels)
  obtain a channel where p: "p = (a, channel)" by (cases p)
  let ?r = "running(a \<mapsto> entry_head last_heads running a)"
  have eh: "entry_head last_heads ?r b = entry_head last_heads running b" for b by simp
  have "(\<lambda>b. if b \<in> fst ` set channels then Some (entry_head last_heads running b) else ?r b) =
      (\<lambda>b. if b \<in> fst ` set (p # channels) then Some (entry_head last_heads running b) else running b)"
    by (auto simp: p)
  then show ?case
    unfolding p check_heads_Cons Cons.IH [of ?r] eh by auto
qed auto

section \<open>The inherent, step by step\<close>

lemma process_downward_head:
  assumes "process_inbound_downward_messages cfg expected ms s = Some (w, s')"
    and "dmp_handler_pulls_all cfg" "length ms < 2 ^ 32"
  shows "foldl (extend_downward (ps_hasher cfg)) (LastDmqMqcHead s) ms = expected"
    and "LastDmqMqcHead s' = expected"
    and "ProcessedDownwardMessages s' = of_nat (length ms)"
proof -
  show "foldl (extend_downward (ps_hasher cfg)) (LastDmqMqcHead s) ms = expected"
    "LastDmqMqcHead s' = expected" "ProcessedDownwardMessages s' = of_nat (length ms)"
    using assms(1) pulls_all_take [OF assms(2), where f = "\<lambda>m. (dm_sent_at m, dm_msg m)" and ms = ms] of_nat_length_0 [OF assms(3)]
    by (auto simp: process_inbound_downward_messages_def Let_def panic_simps psys_deposit_event_def split: if_splits)
qed

lemma process_downward_frames:
  assumes "process_inbound_downward_messages cfg expected ms s = Some (w, s')" "psys_frames cfg"
  shows "LastHrmpMqcHeads s' = LastHrmpMqcHeads s"
proof -
  have "LastHrmpMqcHeads t' = LastHrmpMqcHeads t" if "ps_handle_dmp_messages cfg ms limit t = Some (n, u, t')"
    for ms limit n t u t'
    using psys_framesD(3) [OF assms(2) that] by (simp add: psys_private_def)
  then show ?thesis
    using assms(1)
    by (fastforce simp: process_inbound_downward_messages_def Let_def panic_simps psys_deposit_event_def
        split: if_splits)
qed

lemma process_horizontal_returns:
  assumes "process_inbound_horizontal_messages cfg ingress messages relay_parent s = Some (w, s')"
  shows "fst ` set messages \<subseteq> fst ` set ingress"
    and "(sender, channel) \<in> set ingress \<Longrightarrow>
      foldl (extend_hrmp (ps_hasher cfg)) (entry_head (LastHrmpMqcHeads s) Map.empty sender)
        (of_sender sender (order_horizontal messages)) = target_head channel"
    and "LastHrmpMqcHeads s' = map_of (map (\<lambda>(a, c). (a, target_head c)) ingress)"
    and "HrmpWatermark s' = (let ms = order_horizontal messages in
      if ms = [] then relay_parent else Max (hm_sent_at ` snd ` set ms))"
proof -
  obtain wm running s1 running' where
    open_channels: "list_all (\<lambda>(a, _). case binary_search_by_key fst ingress a of Inl _ \<Rightarrow> False | Inr _ \<Rightarrow> True) messages"
    and track: "track_messages (ps_hasher cfg) (LastHrmpMqcHeads s) (order_horizontal messages) None Map.empty = (wm, running)"
    and check: "check_heads (LastHrmpMqcHeads s) ingress running = Some running'"
    and s': "s' = s1\<lparr>LastHrmpMqcHeads := running', HrmpWatermark := (case wm of None \<Rightarrow> relay_parent | Some w \<Rightarrow> w)\<rparr>"
    using assms
    by (cases "track_messages (ps_hasher cfg) (LastHrmpMqcHeads s) (order_horizontal messages) None Map.empty")
      (auto simp: process_inbound_horizontal_messages_def Let_def panic_simps)
  show sub: "fst ` set messages \<subseteq> fst ` set ingress"
    using open_channels by (force simp: list_all_iff split: sum.splits dest: binary_search_Ok)
  note heads = check [unfolded check_heads_Some]
  show "foldl (extend_hrmp (ps_hasher cfg)) (entry_head (LastHrmpMqcHeads s) Map.empty sender)
      (of_sender sender (order_horizontal messages)) = target_head channel" if "(sender, channel) \<in> set ingress"
    using heads that track_messages_head [OF track, of sender] by auto
  have "fst ` set (order_horizontal messages) \<subseteq> fst ` set messages"
    by (force simp: order_horizontal_def)
  then have dom: "dom running \<subseteq> fst ` set ingress"
    using track_messages_dom [OF track] sub by auto
  show "LastHrmpMqcHeads s' = map_of (map (\<lambda>(a, c). (a, target_head c)) ingress)"
  proof
    fix a
    have "map_of (map (\<lambda>(a, c). (a, target_head c)) ingress) a =
        (if a \<in> fst ` set ingress then Some (entry_head (LastHrmpMqcHeads s) running a) else None)"
      using heads [THEN conjunct1] by (induction ingress) auto
    then show "LastHrmpMqcHeads s' a = map_of (map (\<lambda>(a, c). (a, target_head c)) ingress) a"
      using heads dom by (auto simp: s')
  qed
  show "HrmpWatermark s' = (let ms = order_horizontal messages in
      if ms = [] then relay_parent else Max (hm_sent_at ` snd ` set ms))"
    using track_messages_watermark [OF track] by (simp add: s' Let_def)
qed
section \<open>The inherent as a whole\<close>

lemma set_validation_data_Some_Inr:
  "set_validation_data cfg origin data s = Some (Inr (w, s')) \<longleftrightarrow>
     origin = NoneOrigin \<and> set_validation_data_body cfg data s = Some (w, s')"
  by (cases origin) (auto simp: set_validation_data_def ensure_none_def)

lemma set_validation_data_steps:
  assumes "set_validation_data cfg origin data s = Some (Inr (w, s'))"
  obtains signal s2 restriction hc snap s4 w1 s5 w2 where
    "origin = NoneOrigin" "ValidationData s = None"
    "validate_validation_data cfg (validation_data data) = Some ()"
    "ps_check_relay_number cfg (pvd_relay_parent_number (validation_data data)) (LastRelayChainBlockNumber s)"
    "proven_go_ahead cfg data = Some signal"
    "apply_go_ahead_signal cfg (pvd_relay_parent_number (validation_data data)) signal
       (s\<lparr>LastRelayChainBlockNumber := pvd_relay_parent_number (validation_data data)\<rparr>) = Some s2"
    "proven_snapshot cfg data = Some snap"
    "ps_on_validation_data cfg (validation_data data)
       (s2\<lparr>UpgradeRestrictionSignal := restriction, ValidationData := Some (validation_data data),
          RelayStateProof := Some (relay_chain_state data), RelevantMessagingState := Some snap,
          HostConfiguration := Some hc\<rparr>) = Some s4"
    "process_inbound_downward_messages cfg (dmq_mqc_head snap) (downward_messages data) s4 = Some (w1, s5)"
    "process_inbound_horizontal_messages cfg (ingress_channels snap) (horizontal_messages data)
       (pvd_relay_parent_number (validation_data data)) s5 = Some (w2, s')"
    "w = w1 + w2"
proof -
  have "set_validation_data_body cfg data s = Some (w, s')" "origin = NoneOrigin"
    using assms by (auto simp: set_validation_data_Some_Inr)
  then show thesis
    using that
    by (clarsimp simp: set_validation_data_body_def proven_go_ahead_def proven_snapshot_def Let_def
        panic_simps split: prod.splits)
qed

lemma apply_go_ahead_frames:
  assumes "psys_frames cfg" "apply_go_ahead_signal cfg n signal s = Some s'"
  shows "LastDmqMqcHead s' = LastDmqMqcHead s" "LastHrmpMqcHeads s' = LastHrmpMqcHeads s"
    "LastRelayChainBlockNumber s' = LastRelayChainBlockNumber s"
  using assms(2) psys_framesD(2) [OF assms(1)]
  by (fastforce simp: apply_go_ahead_signal_def psys_deposit_event_def psys_private_def Let_def panic_simps
      split: option.splits upgrade_go_ahead.splits)+

lemma process_downward_private:
  assumes "process_inbound_downward_messages cfg expected ms s = Some (w, s')" "psys_frames cfg"
  shows "psys_private (s'\<lparr>LastDmqMqcHead := h\<rparr>) = psys_private (s\<lparr>LastDmqMqcHead := h\<rparr>)"
proof -
  have "psys_private (t'\<lparr>LastDmqMqcHead := h\<rparr>) = psys_private (t\<lparr>LastDmqMqcHead := h\<rparr>)"
    if "ps_handle_dmp_messages cfg ms limit t = Some (n, u, t')" for ms limit n t u t'
    using psys_framesD(3) [OF assms(2) that] by (simp add: psys_private_def)
  then show ?thesis
    using assms(1)
    by (fastforce simp: process_inbound_downward_messages_def Let_def panic_simps psys_deposit_event_def
        psys_private_def split: if_splits)
qed

lemma process_horizontal_private:
  assumes "process_inbound_horizontal_messages cfg ingress messages n s = Some (w, s')" "psys_frames cfg"
  shows "psys_private (s'\<lparr>LastHrmpMqcHeads := hs\<rparr>) = psys_private (s\<lparr>LastHrmpMqcHeads := hs\<rparr>)"
proof -
  have "psys_private (t'\<lparr>LastHrmpMqcHeads := hs\<rparr>) = psys_private (t\<lparr>LastHrmpMqcHeads := hs\<rparr>)"
    if "ps_handle_xcmp_messages cfg ms limit t = Some (u, t')" for ms limit t u t'
    using psys_framesD(4) [OF assms(2) that] by (simp add: psys_private_def)
  then show ?thesis
    using assms(1)
    by (fastforce simp: process_inbound_horizontal_messages_def Let_def panic_simps psys_private_def
        split: prod.splits)
qed

lemma inherent_messages:
  assumes "set_validation_data cfg origin data s = Some (Inr (w, s'))" "psys_frames cfg"
    and "proven_snapshot cfg data = Some snap"
  obtains s4 w1 s5 w2 where
    "process_inbound_downward_messages cfg (dmq_mqc_head snap) (downward_messages data) s4 = Some (w1, s5)"
    "process_inbound_horizontal_messages cfg (ingress_channels snap) (horizontal_messages data)
       (pvd_relay_parent_number (validation_data data)) s5 = Some (w2, s')"
    "LastDmqMqcHead s4 = LastDmqMqcHead s" "LastHrmpMqcHeads s4 = LastHrmpMqcHeads s"
    "LastHrmpMqcHeads s5 = LastHrmpMqcHeads s"
    "ValidationData s4 = Some (validation_data data)" "RelevantMessagingState s4 = Some snap"
    "LastRelayChainBlockNumber s4 = pvd_relay_parent_number (validation_data data)"
proof (rule set_validation_data_steps [OF assms(1)])
  fix signal s2 restriction hc snap' s4 w1 s5 w2
  assume s2: "apply_go_ahead_signal cfg (pvd_relay_parent_number (validation_data data)) signal
      (s\<lparr>LastRelayChainBlockNumber := pvd_relay_parent_number (validation_data data)\<rparr>) = Some s2"
    and snap: "proven_snapshot cfg data = Some snap'"
    and s4: "ps_on_validation_data cfg (validation_data data)
       (s2\<lparr>UpgradeRestrictionSignal := restriction, ValidationData := Some (validation_data data),
          RelayStateProof := Some (relay_chain_state data), RelevantMessagingState := Some snap',
          HostConfiguration := Some hc\<rparr>) = Some s4"
    and s5: "process_inbound_downward_messages cfg (dmq_mqc_head snap') (downward_messages data) s4 = Some (w1, s5)"
    and s6: "process_inbound_horizontal_messages cfg (ingress_channels snap') (horizontal_messages data)
       (pvd_relay_parent_number (validation_data data)) s5 = Some (w2, s')"
  have eq: "snap' = snap" using snap assms(3) by simp
  note frames = psys_framesD(1) [OF assms(2) s4] apply_go_ahead_frames [OF assms(2) s2]
  show thesis
    using that [OF s5 [unfolded eq] s6 [unfolded eq]] frames process_downward_frames [OF s5 assms(2)]
    by (simp add: psys_private_def eq)
qed

text \<open>C2. The collator cannot alter, omit or add downward messages: if the inherent is accepted, the
  downward messages in it are exactly those of every sequence that leads from the head the parachain knows to
  the head in the relay chain's state, unless two different values hashed for the chains collide.\<close>

theorem downward_messages_genuine:
  assumes "set_validation_data cfg origin data s = Some (Inr (w, s'))"
    and "psys_frames cfg" "dmp_handler_pulls_all cfg" "length (downward_messages data) < 2 ^ 32"
    and "proven_snapshot cfg data = Some snap"
    and "foldl (extend_downward (ps_hasher cfg)) (LastDmqMqcHead s) genuine = dmq_mqc_head snap"
  shows "downward_messages data = genuine \<or>
    chain_collision (downward_link (ps_hasher cfg)) downward_payload (ps_hasher cfg) (LastDmqMqcHead s)
      (downward_messages data) genuine"
proof (rule inherent_messages [OF assms(1,2,5)])
  fix s4 w1 s5
  assume s5: "process_inbound_downward_messages cfg (dmq_mqc_head snap) (downward_messages data) s4 = Some (w1, s5)"
    and "LastDmqMqcHead s4 = LastDmqMqcHead s"
  then show ?thesis
    using process_downward_head(1) [OF s5 assms(3,4)] assms(6) by (intro dmq.head_determines_messages) simp
qed

theorem downward_messages_genuine_witness:
  "\<exists>w s'. set_validation_data toy_psys (NoneOrigin :: nat origin) toy_inherent (psys_genesis [] 0) =
       Some (Inr (w, s')) \<and>
     (downward_messages toy_inherent = [\<lparr>dm_sent_at = 2, dm_msg = [7]\<rparr>] \<or>
      chain_collision (downward_link toy_hasher) downward_payload toy_hasher zero_hash
        (downward_messages toy_inherent) [\<lparr>dm_sent_at = 2, dm_msg = [7]\<rparr>])"
proof -
  have "foldl (extend_downward (ps_hasher toy_psys))
      (LastDmqMqcHead (psys_genesis [] 0 :: ((bytes \<times> bytes) list, nat) psys_state))
      [\<lparr>dm_sent_at = 2, dm_msg = [7]\<rparr>] = dmq_mqc_head toy_snapshot"
    "length (downward_messages toy_inherent) < 2 ^ 32"
    by (code_simp, simp add: toy_inherent_def)
  then show ?thesis
    using toy_inherent_accepted downward_messages_genuine [OF _ toy_psys_ok _ toy_snapshot_proven]
    by (fastforce simp: example_psys_def psys_genesis_def)
qed

text \<open>C3. The same for horizontal messages: they come from senders with an open channel, and what the
  message handler is given from a sender is what leads from the known head of its channel to the head in the
  relay chain's state, unless the hash function collides.\<close>

theorem horizontal_messages_genuine:
  assumes "set_validation_data cfg origin data s = Some (Inr (w, s'))" "psys_frames cfg"
    and "proven_snapshot cfg data = Some snap" "(sender, channel) \<in> set (ingress_channels snap)"
    and "foldl (extend_hrmp (ps_hasher cfg)) (entry_head (LastHrmpMqcHeads s) Map.empty sender) genuine =
      target_head channel"
  shows "fst ` set (horizontal_messages data) \<subseteq> fst ` set (ingress_channels snap) \<and>
    (of_sender sender (order_horizontal (horizontal_messages data)) = genuine \<or>
     chain_collision (hrmp_link (ps_hasher cfg)) hrmp_payload (ps_hasher cfg)
       (entry_head (LastHrmpMqcHeads s) Map.empty sender)
       (of_sender sender (order_horizontal (horizontal_messages data))) genuine)"
proof (rule inherent_messages [OF assms(1-3)])
  fix s5 w2
  assume s6: "process_inbound_horizontal_messages cfg (ingress_channels snap) (horizontal_messages data)
       (pvd_relay_parent_number (validation_data data)) s5 = Some (w2, s')"
    and "LastHrmpMqcHeads s5 = LastHrmpMqcHeads s"
  then show ?thesis
    using process_horizontal_returns(1) [OF s6] process_horizontal_returns(2) [OF s6 assms(4)] assms(5)
    by (intro conjI hrmp_mqc.head_determines_messages) simp_all
qed

theorem horizontal_messages_genuine_witness:
  "\<exists>w s'. set_validation_data toy_psys (NoneOrigin :: nat origin) toy_inherent (psys_genesis [] 0) =
       Some (Inr (w, s')) \<and>
     fst ` set (horizontal_messages toy_inherent) \<subseteq> fst ` set (ingress_channels toy_snapshot)"
proof -
  have "foldl (extend_hrmp (ps_hasher toy_psys))
      (entry_head (LastHrmpMqcHeads (psys_genesis [] 0 :: ((bytes \<times> bytes) list, nat) psys_state)) Map.empty 5)
      [\<lparr>hm_sent_at = 2, hm_data = [8]\<rparr>, \<lparr>hm_sent_at = 3, hm_data = [9]\<rparr>] =
      target_head (snd (hd (ingress_channels toy_snapshot)))"
    by code_simp
  moreover have "(5, snd (hd (ingress_channels toy_snapshot))) \<in> set (ingress_channels toy_snapshot)"
    by (simp add: toy_snapshot_def)
  ultimately show ?thesis
    using toy_inherent_accepted horizontal_messages_genuine [OF _ toy_psys_ok(1) toy_snapshot_proven]
    by blast
qed

text \<open>After the inherent the parachain holds what the relay chain's state shows: the heads of the
  downward queue and of exactly the open inbound channels, the number of downward messages, and as
  watermark the latest block a message was sent at, or the relay parent when there was none.\<close>

theorem inherent_follows_relay:
  assumes "set_validation_data cfg origin data s = Some (Inr (w, s'))"
    and "psys_frames cfg" "dmp_handler_pulls_all cfg" "length (downward_messages data) < 2 ^ 32"
    and "proven_snapshot cfg data = Some snap"
  shows "ValidationData s' = Some (validation_data data) \<and>
    LastRelayChainBlockNumber s' = pvd_relay_parent_number (validation_data data) \<and>
    RelevantMessagingState s' = Some snap \<and>
    LastDmqMqcHead s' = dmq_mqc_head snap \<and>
    LastHrmpMqcHeads s' = map_of (map (\<lambda>(a, c). (a, target_head c)) (ingress_channels snap)) \<and>
    HrmpWatermark s' = (let ms = order_horizontal (horizontal_messages data) in
      if ms = [] then pvd_relay_parent_number (validation_data data) else Max (hm_sent_at ` snd ` set ms))"
proof (rule inherent_messages [OF assms(1,2,5)])
  fix s4 w1 s5 w2
  assume s5: "process_inbound_downward_messages cfg (dmq_mqc_head snap) (downward_messages data) s4 = Some (w1, s5)"
    and s6: "process_inbound_horizontal_messages cfg (ingress_channels snap) (horizontal_messages data)
       (pvd_relay_parent_number (validation_data data)) s5 = Some (w2, s')"
    and "ValidationData s4 = Some (validation_data data)" "RelevantMessagingState s4 = Some snap"
      "LastRelayChainBlockNumber s4 = pvd_relay_parent_number (validation_data data)"
  moreover note process_downward_private [OF s5 assms(2)] process_horizontal_private [OF s6 assms(2)]
  ultimately show ?thesis
    using process_downward_head(2) [OF s5 assms(3,4)] process_horizontal_returns(3,4) [OF s6]
    unfolding psys_private_def by simp
qed

theorem inherent_follows_relay_witness:
  "\<exists>w s'. set_validation_data toy_psys (NoneOrigin :: nat origin) toy_inherent (psys_genesis [] 0) =
       Some (Inr (w, s')) \<and>
     LastDmqMqcHead s' = zero_hash @ [2, 7] \<and> LastHrmpMqcHeads s' = [5 \<mapsto> zero_hash @ [2, 8, 3, 9]]"
proof -
  have "length (downward_messages toy_inherent) < 2 ^ 32" by (simp add: toy_inherent_def)
  then show ?thesis
    using toy_inherent_accepted inherent_follows_relay [OF _ toy_psys_ok _ toy_snapshot_proven]
    by (fastforce simp: toy_snapshot_def target_head_def)
qed

end
