(* ===== verification/Parachain_Blocks.thy ===== *)
theory Parachain_Blocks
  imports Parachain_Messages
begin

text \<open>
  Blocks of the parachain system pallet: its hooks around any sequence of its operations and steps of other pallets.  Shown here: one
  inherent per block and increasing relay parents, the life of a code upgrade, and what the pallet tells
  senders about their channels.
\<close>

section \<open>The calls of the pallet\<close>

definition psys_dispatch :: "('p, 'w) psys_config \<Rightarrow> 'acc origin \<Rightarrow> 'p psys_call \<Rightarrow> ('p, 'w) psys_state \<Rightarrow>
    (psys_error dispatch_error, ('p, 'w) psys_state) result option" where
  "psys_dispatch cfg origin call s =
     (case call of
        SetValidationData data \<Rightarrow> map_option (map_sum id snd) (set_validation_data cfg origin data s)
      | SudoSendUpwardMessage message \<Rightarrow> Some (sudo_send_upward_message origin message s)
      | AuthorizeUpgrade code_hash \<Rightarrow> Some (authorize_upgrade origin code_hash s)
      | EnactAuthorizedUpgrade code \<Rightarrow> Some (enact_authorized_upgrade cfg origin code s))"

text \<open>
  What can happen within a block, in any order: the calls of the pallet, with whatever origin, the functions of it that
  other pallets call, and whatever other pallets do to their own storage.  A failed operation leaves no trace.
\<close>

datatype ('acc, 'p, 'w) psys_op =
    Dispatch "'acc origin" "'p psys_call"
  | SetCode bytes
  | SendUpward bytes
  | SetCustomHead bytes
  | Elsewhere "'w \<Rightarrow> 'w"

definition run_op :: "('p, 'w) psys_config \<Rightarrow> ('acc, 'p, 'w) psys_op \<Rightarrow> ('p, 'w) psys_state \<Rightarrow>
    ('p, 'w) psys_state option" where
  "run_op cfg op s =
     (case op of
        Dispatch origin call \<Rightarrow>
          map_option (\<lambda>r. case r of Inl _ \<Rightarrow> s | Inr s' \<Rightarrow> s') (psys_dispatch cfg origin call s)
      | SetCode code \<Rightarrow> Some (case psys_set_code code s of Inl _ \<Rightarrow> s | Inr s' \<Rightarrow> s')
      | SendUpward message \<Rightarrow> Some (case send_upward_message message s of Inl _ \<Rightarrow> s | Inr (_, s') \<Rightarrow> s')
      | SetCustomHead head \<Rightarrow> Some (set_custom_validation_head_data head s)
      | Elsewhere f \<Rightarrow> Some (s\<lparr>psys_world := f (psys_world s)\<rparr>))"

fun run_ops :: "('p, 'w) psys_config \<Rightarrow> ('acc, 'p, 'w) psys_op list \<Rightarrow> ('p, 'w) psys_state \<Rightarrow>
    ('p, 'w) psys_state option" where
  "run_ops cfg [] s = Some s"
| "run_ops cfg (op # ops) s = Option.bind (run_op cfg op s) (run_ops cfg ops)"

definition run_block :: "('p, 'w) psys_config \<Rightarrow> ('acc, 'p, 'w) psys_op list \<Rightarrow> ('p, 'w) psys_state \<Rightarrow>
    ('p, 'w) psys_state option" where
  "run_block cfg ops s = Option.bind (run_ops cfg ops (snd (psys_on_initialize cfg s))) (psys_on_finalize cfg)"

fun run_blocks :: "('p, 'w) psys_config \<Rightarrow> ('acc, 'p, 'w) psys_op list list \<Rightarrow> ('p, 'w) psys_state \<Rightarrow>
    ('p, 'w) psys_state option" where
  "run_blocks cfg [] s = Some s"
| "run_blocks cfg (ops # blocks) s = Option.bind (run_block cfg ops s) (run_blocks cfg blocks)"

text \<open>The inherents of a block: the data of the unsigned calls of \<^verbatim>\<open>set_validation_data\<close>.\<close>

fun inherents :: "('acc, 'p, 'w) psys_op list \<Rightarrow> 'p parachain_inherent_data list" where
  "inherents [] = []"
| "inherents (Dispatch NoneOrigin (SetValidationData data) # ops) = data # inherents ops"
| "inherents (_ # ops) = inherents ops"

section \<open>Operations other than the inherent\<close>

lemma schedule_code_upgrade_Inr:
  "schedule_code_upgrade code s = Inr s' \<longleftrightarrow>
     ValidationData s \<noteq> None \<and> UpgradeRestrictionSignal s = None \<and> PendingValidationCode s = None \<and>
     (\<exists>hc. HostConfiguration s = Some hc \<and> length code \<le> unat (hc_max_code_size hc)) \<and>
     s' = s\<lparr>NewValidationCode := Some code, DidSetValidationCode := True, PendingValidationCode := Some code,
       psys_events := psys_events s @ [ValidationFunctionStored]\<rparr>"
  by (auto simp: schedule_code_upgrade_def result_simps notify_polkadot_of_pending_upgrade_def psys_deposit_event_def)

lemma inherents_Cons:
  "inherents (op # ops) = inherents [op] @ inherents ops"
  by (cases "op # ops" rule: inherents.cases) auto

lemma inherents_singleton: "inherents [op] = data # ds \<Longrightarrow> ds = [] \<and> op = Dispatch NoneOrigin (SetValidationData data)"
  by (cases "[op]" rule: inherents.cases) auto

lemmas operation_defs = sudo_send_upward_message_def send_upward_message_def authorize_upgrade_def
  enact_authorized_upgrade_def psys_set_code_def set_custom_validation_head_data_def schedule_code_upgrade_Inr
  psys_deposit_event_def

lemma run_op_inherent:
  assumes "run_op cfg (Dispatch NoneOrigin (SetValidationData data)) s = Some s'"
  shows "\<exists>w. set_validation_data cfg NoneOrigin data s = Some (Inr (w, s'))"
  using assms by (cases "set_validation_data_body cfg data s")
    (auto simp: run_op_def psys_dispatch_def set_validation_data_def ensure_none_def)

lemma run_op_other:
  assumes "run_op cfg op s = Some s'" "inherents [op] = []"
  shows "psys_private s' = psys_private s \<and>
    (ValidationData s = None \<longrightarrow> PendingValidationCode s' = PendingValidationCode s) \<and>
    prefix (PendingUpwardMessages s) (PendingUpwardMessages s')"
proof -
  have bad: "set_validation_data cfg origin data s = Some (Inl BadOrigin)"
    if "op = Dispatch origin (SetValidationData data)" for origin data
    using assms(2) that by (cases origin) (auto simp: set_validation_data_def ensure_none_def)
  show ?thesis
    using assms(1) bad
    by (auto simp: run_op_def psys_dispatch_def operation_defs result_simps psys_private_def
        split: psys_op.splits psys_call.splits sum.splits prod.splits if_splits option.splits)
qed

section \<open>One inherent per block\<close>

lemma inherent_guard:
  assumes "set_validation_data cfg origin data s = Some (Inr (w, s'))" "psys_frames cfg"
  shows "ValidationData s = None" "ValidationData s' = Some (validation_data data)"
    "ps_check_relay_number cfg (pvd_relay_parent_number (validation_data data)) (LastRelayChainBlockNumber s)"
    "LastRelayChainBlockNumber s' = pvd_relay_parent_number (validation_data data)"
proof -
  from assms(1) show "ValidationData s = None"
    "ps_check_relay_number cfg (pvd_relay_parent_number (validation_data data)) (LastRelayChainBlockNumber s)"
    by (auto elim: set_validation_data_steps)
  obtain snap where "proven_snapshot cfg data = Some snap"
    using assms(1) by (auto elim: set_validation_data_steps)
  from assms(1,2) this have "ValidationData s' = Some (validation_data data) \<and>
      LastRelayChainBlockNumber s' = pvd_relay_parent_number (validation_data data)"
  proof (rule inherent_messages)
    fix s4 w1 s5 w2
    assume s5: "process_inbound_downward_messages cfg (dmq_mqc_head snap) (downward_messages data) s4 = Some (w1, s5)"
      and s6: "process_inbound_horizontal_messages cfg (ingress_channels snap) (horizontal_messages data)
         (pvd_relay_parent_number (validation_data data)) s5 = Some (w2, s')"
      and "ValidationData s4 = Some (validation_data data)"
        "LastRelayChainBlockNumber s4 = pvd_relay_parent_number (validation_data data)"
    then show ?thesis
      using process_downward_private [OF s5 assms(2)] process_horizontal_private [OF s6 assms(2)]
      unfolding psys_private_def by simp
  qed
  then show "ValidationData s' = Some (validation_data data)"
    "LastRelayChainBlockNumber s' = pvd_relay_parent_number (validation_data data)" by simp_all
qed

lemma run_ops_after_inherent:
  "run_ops cfg ops s = Some s' \<Longrightarrow> psys_frames cfg \<Longrightarrow> ValidationData s \<noteq> None \<Longrightarrow>
     inherents ops = [] \<and> psys_private s' = psys_private s"
  for ops :: "('acc, 'p, 'w) psys_op list"
proof (induction ops arbitrary: s)
  case (Cons op ops)
  obtain s1 where s1: "run_op cfg op s = Some s1" "run_ops cfg ops s1 = Some s'"
    using Cons.prems(1) by (auto simp: panic_simps)
  have none: "inherents [op] = []"
  proof (cases "inherents [op]")
    case (Cons data ds)
    then obtain w where "set_validation_data cfg (NoneOrigin :: 'acc origin) data s = Some (Inr (w, s1))"
      using run_op_inherent s1(1) by (metis inherents_singleton)
    from inherent_guard(1) [OF this] Cons.prems(2,3) show ?thesis by simp
  qed simp
  have "psys_private s1 = psys_private s" using run_op_other [OF s1(1) none] by simp
  then show ?case
    using Cons.IH [OF s1(2) Cons.prems(2)] Cons.prems(3) none inherents_Cons [of op ops]
    by (simp add: psys_private_def)
qed auto

lemma run_ops_before_inherent:
  "run_ops cfg ops s = Some s' \<Longrightarrow> psys_frames cfg \<Longrightarrow> ValidationData s = None \<Longrightarrow> ValidationData s' \<noteq> None \<Longrightarrow>
     \<exists>data t t' w. inherents ops = [data] \<and>
       set_validation_data cfg (NoneOrigin :: 'acc origin) data t = Some (Inr (w, t')) \<and>
       psys_private t = psys_private s \<and> PendingValidationCode t = PendingValidationCode s \<and>
       psys_private s' = psys_private t'"
  for ops :: "('acc, 'p, 'w) psys_op list"
proof (induction ops arbitrary: s)
  case (Cons op ops)
  obtain s1 where s1: "run_op cfg op s = Some s1" "run_ops cfg ops s1 = Some s'"
    using Cons.prems(1) by (auto simp: panic_simps)
  show ?case
  proof (cases "inherents [op]")
    case Nil
    note other = run_op_other [OF s1(1) Nil]
    then have "ValidationData s1 = None" using Cons.prems(3) by (simp add: psys_private_def)
    from Cons.IH [OF s1(2) Cons.prems(2) this Cons.prems(4)] other show ?thesis
      using Nil inherents_Cons [of op ops] Cons.prems(3) by auto
  next
    case (Cons data ds)
    then obtain w where "set_validation_data cfg (NoneOrigin :: 'acc origin) data s = Some (Inr (w, s1))"
      using run_op_inherent s1(1) by (metis inherents_singleton)
    moreover have "ValidationData s1 \<noteq> None"
      using inherent_guard(2) [OF calculation Cons.prems(2)] by simp
    moreover note run_ops_after_inherent [OF s1(2) Cons.prems(2) calculation(2)]
    ultimately show ?thesis
      using Cons inherents_Cons [of op ops] inherents_singleton [of op data ds] by auto
  qed
qed simp

lemma psys_on_initialize_clears:
  "ValidationData (snd (psys_on_initialize cfg s)) = None"
  "LastRelayChainBlockNumber (snd (psys_on_initialize cfg s)) = LastRelayChainBlockNumber s"
  "PendingValidationCode (snd (psys_on_initialize cfg s)) = PendingValidationCode s"
  "psys_code (snd (psys_on_initialize cfg s)) = psys_code s"
  by (simp_all add: psys_on_initialize_def Let_def split: prod.split)

lemma psys_on_finalize_keeps:
  assumes "psys_on_finalize cfg s = Some s'"
  shows "ValidationData s \<noteq> None" "LastRelayChainBlockNumber s' = LastRelayChainBlockNumber s"
    "psys_code s' = psys_code s" "ValidationData s' = ValidationData s"
  using assms by (auto simp: psys_on_finalize_def Let_def panic_simps split: option.splits)

lemma run_block_inherent:
  fixes ops :: "('acc, 'p, 'w) psys_op list"
  assumes "run_block cfg ops s = Some s'" "psys_frames cfg"
  obtains data t w t' where "inherents ops = [data]"
    "set_validation_data cfg (NoneOrigin :: 'acc origin) data t = Some (Inr (w, t'))"
    "LastRelayChainBlockNumber t = LastRelayChainBlockNumber s" "psys_code t = psys_code s"
    "PendingValidationCode t = PendingValidationCode s"
    "LastRelayChainBlockNumber s' = LastRelayChainBlockNumber t'" "psys_code s' = psys_code t'"
proof -
  obtain s1 where s1: "run_ops cfg ops (snd (psys_on_initialize cfg s)) = Some s1" "psys_on_finalize cfg s1 = Some s'"
    using assms(1) by (auto simp: run_block_def panic_simps)
  from run_ops_before_inherent [OF s1(1) assms(2) psys_on_initialize_clears(1) psys_on_finalize_keeps(1) [OF s1(2)]]
  show thesis
    using that psys_on_initialize_clears [of cfg s] psys_on_finalize_keeps [OF s1(2)]
    by (auto simp: psys_private_def)
qed

definition relay_numbers :: "('acc, 'p, 'w) psys_op list list \<Rightarrow> relay_block_number list" where
  "relay_numbers blocks = map (pvd_relay_parent_number \<circ> validation_data) (concat (map inherents blocks))"

lemma run_blocks_relay_numbers:
  "run_blocks cfg blocks s = Some s' \<Longrightarrow> psys_frames cfg \<Longrightarrow> ps_check_relay_number cfg = relay_number_strictly_increases \<Longrightarrow>
     length (relay_numbers blocks) = length blocks \<and>
     sorted_wrt (<) (LastRelayChainBlockNumber s # relay_numbers blocks)"
proof (induction blocks arbitrary: s)
  case (Cons ops blocks)
  obtain s1 where s1: "run_block cfg ops s = Some s1" "run_blocks cfg blocks s1 = Some s'"
    using Cons.prems(1) by (auto simp: panic_simps)
  show ?case
  proof (rule run_block_inherent [OF s1(1) Cons.prems(2)])
    fix data t w t'
    assume data: "inherents ops = [data]"
      and inh: "set_validation_data cfg NoneOrigin data t = Some (Inr (w, t'))"
      and last: "LastRelayChainBlockNumber t = LastRelayChainBlockNumber s"
        "LastRelayChainBlockNumber s1 = LastRelayChainBlockNumber t'"
    note guard = inherent_guard(3,4) [OF inh Cons.prems(2)]
    show ?thesis
      using Cons.IH [OF s1(2) Cons.prems(2,3)] guard last
      by (auto simp: relay_numbers_def data Cons.prems(3) relay_number_strictly_increases_def not_le intro: less_trans)
  qed
qed (simp add: relay_numbers_def)

text \<open>C15. Every block that is not rejected carries exactly one inherent and, with the check
  \<^verbatim>\<open>RelayNumberStrictlyIncreases\<close>, the relay parents of the blocks of a chain have strictly increasing
  numbers, whatever else the blocks do.\<close>

theorem relay_parents_increase:
  assumes "run_blocks cfg blocks s = Some s'" "psys_frames cfg"
    and "ps_check_relay_number cfg = relay_number_strictly_increases"
  shows "length (relay_numbers blocks) = length blocks \<and>
    sorted_wrt (<) (LastRelayChainBlockNumber s # relay_numbers blocks)"
  using run_blocks_relay_numbers [OF assms] .

text \<open>A second block of the example: the relay chain has moved on and gives the go-ahead.\<close>

definition toy_inherent_2 :: "(bytes \<times> bytes) list parachain_inherent_data" where
  "toy_inherent_2 = toy_inherent\<lparr>
     validation_data := (validation_data toy_inherent)\<lparr>pvd_relay_parent_number := 12\<rparr>,
     relay_chain_state := ([8, 9], [1]) # toy_proof,
     downward_messages := [], horizontal_messages := []\<rparr>"

definition toy_blocks :: "(nat, (bytes \<times> bytes) list, nat) psys_op list list" where
  "toy_blocks =
     [[SendUpward [1], Elsewhere Suc, Dispatch NoneOrigin (SetValidationData toy_inherent), SetCode [42], SendUpward [2, 3]],
      [Dispatch NoneOrigin (SetValidationData toy_inherent_2), SetCode [43]]]"

lemma toy_blocks_run:
  "\<exists>s'. run_blocks toy_psys toy_blocks (psys_genesis [41] 0) = Some s' \<and> psys_code s' = [42]"
proof -
  have "case run_blocks toy_psys toy_blocks (psys_genesis [41] 0) of Some s' \<Rightarrow> psys_code s' = [42] | _ \<Rightarrow> False"
    by code_simp
  then show ?thesis by (auto split: option.splits)
qed

theorem relay_parents_increase_witness:
  "sorted_wrt (<) ((0 :: relay_block_number) # relay_numbers toy_blocks) \<and> length (relay_numbers toy_blocks) = 2"
proof -
  obtain s' where "run_blocks toy_psys toy_blocks (psys_genesis [41] 0) = Some s'"
    using toy_blocks_run by blast
  from relay_parents_increase [OF this toy_psys_ok(1)] show ?thesis
    by (simp add: psys_genesis_def toy_blocks_def example_psys_def)
qed

section \<open>Code upgrades\<close>

lemma apply_go_ahead_code:
  assumes "apply_go_ahead_signal cfg n signal s = Some s'" "psys_frames cfg"
  shows "case signal of
      Some GoAhead \<Rightarrow> PendingValidationCode s \<noteq> None \<and> psys_code s' = the (PendingValidationCode s)
    | _ \<Rightarrow> psys_code s' = psys_code s"
  using assms(1) psys_framesD(2) [OF assms(2)]
  by (fastforce simp: apply_go_ahead_signal_def psys_deposit_event_def psys_private_def Let_def panic_simps
      split: option.splits upgrade_go_ahead.splits)

lemma inherent_code:
  assumes "set_validation_data cfg origin data s = Some (Inr (w, s'))" "psys_frames cfg"
  shows "case proven_go_ahead cfg data of
      Some (Some GoAhead) \<Rightarrow> PendingValidationCode s \<noteq> None \<and> psys_code s' = the (PendingValidationCode s)
    | _ \<Rightarrow> psys_code s' = psys_code s"
proof (rule set_validation_data_steps [OF assms(1)])
  fix signal s2 restriction hc snap s4 w1 s5 w2
  assume s2: "apply_go_ahead_signal cfg (pvd_relay_parent_number (validation_data data)) signal
      (s\<lparr>LastRelayChainBlockNumber := pvd_relay_parent_number (validation_data data)\<rparr>) = Some s2"
    and signal: "proven_go_ahead cfg data = Some signal"
    and s4: "ps_on_validation_data cfg (validation_data data)
       (s2\<lparr>UpgradeRestrictionSignal := restriction, ValidationData := Some (validation_data data),
          RelayStateProof := Some (relay_chain_state data), RelevantMessagingState := Some snap,
          HostConfiguration := Some hc\<rparr>) = Some s4"
    and s5: "process_inbound_downward_messages cfg (dmq_mqc_head snap) (downward_messages data) s4 = Some (w1, s5)"
    and s6: "process_inbound_horizontal_messages cfg (ingress_channels snap) (horizontal_messages data)
       (pvd_relay_parent_number (validation_data data)) s5 = Some (w2, s')"
  have "psys_code s' = psys_code s2"
    using process_downward_private [OF s5 assms(2)] process_horizontal_private [OF s6 assms(2)]
      psys_framesD(1) [OF assms(2) s4]
    by (simp add: psys_private_def)
  then show ?thesis
    using apply_go_ahead_code [OF s2 assms(2)]
    by (simp add: signal split: option.splits upgrade_go_ahead.splits)
qed

text \<open>C16. The code of the runtime changes only in a block whose relay parent gives the go-ahead, and then to
  the code that was scheduled before the block: without one the go-ahead rejects the block, and what is
  scheduled within the block is never applied in it.\<close>

theorem code_changes_on_go_ahead:
  assumes "run_block cfg ops s = Some s'" "psys_frames cfg"
  shows "\<exists>data. inherents ops = [data] \<and>
    (case proven_go_ahead cfg data of
       Some (Some GoAhead) \<Rightarrow> PendingValidationCode s \<noteq> None \<and> psys_code s' = the (PendingValidationCode s)
     | _ \<Rightarrow> psys_code s' = psys_code s)"
proof (rule run_block_inherent [OF assms])
  fix data t w t'
  assume "inherents ops = [data]" and inh: "set_validation_data cfg NoneOrigin data t = Some (Inr (w, t'))"
    and "psys_code t = psys_code s" "PendingValidationCode t = PendingValidationCode s" "psys_code s' = psys_code t'"
  then show ?thesis using inherent_code [OF inh assms(2)]
    by (simp split: option.splits upgrade_go_ahead.splits)
qed

theorem code_changes_on_go_ahead_witness:
  "\<exists>s s'. run_blocks toy_psys [toy_blocks ! 0] (psys_genesis [41] 0) = Some s \<and>
     run_block toy_psys (toy_blocks ! 1) s = Some s' \<and> psys_code s' = [42] \<and> PendingValidationCode s = Some [42]"
proof -
  have first: "case run_block toy_psys (toy_blocks ! 0) (psys_genesis [41] 0) of
      Some s \<Rightarrow> PendingValidationCode s = Some [42] \<and> (case run_block toy_psys (toy_blocks ! 1) s of Some _ \<Rightarrow> True | _ \<Rightarrow> False)
    | _ \<Rightarrow> False"
    by code_simp
  then obtain s s' where s: "run_block toy_psys (toy_blocks ! 0) (psys_genesis [41] 0) = Some s"
      "PendingValidationCode s = Some [42]" "run_block toy_psys (toy_blocks ! 1) s = Some s'"
    by (auto split: option.splits)
  have go: "proven_go_ahead toy_psys toy_inherent_2 = Some (Some GoAhead)" by code_simp
  have "inherents (toy_blocks ! 1) = [toy_inherent_2]" by (simp add: toy_blocks_def)
  then have "psys_code s' = [42]"
    using code_changes_on_go_ahead [OF s(3) toy_psys_ok(1)] go s(2) by auto
  then show ?thesis using s by auto
qed

text \<open>An authorized upgrade is enacted exactly when the code has the authorized hash, the inherent of the
  block has run, the relay chain does not forbid it, no upgrade is pending and the code is not too big; it
  then is pending and announced to the relay chain, and the authorization is used up.\<close>

theorem enact_authorized_upgrade_once:
  "(enact_authorized_upgrade cfg origin code s = Inr s' \<longleftrightarrow>
     AuthorizedUpgrade s = Some (ps_code_hash cfg code) \<and> ValidationData s \<noteq> None \<and>
     UpgradeRestrictionSignal s = None \<and> PendingValidationCode s = None \<and>
     (\<exists>hc. HostConfiguration s = Some hc \<and> length code \<le> unat (hc_max_code_size hc)) \<and>
     s' = s\<lparr>NewValidationCode := Some code, DidSetValidationCode := True, PendingValidationCode := Some code,
       AuthorizedUpgrade := None, psys_events := psys_events s @ [ValidationFunctionStored]\<rparr>) \<and>
   enact_authorized_upgrade cfg origin' code'
     (s\<lparr>AuthorizedUpgrade := None\<rparr>) = Inl (Module NothingAuthorized) \<and>
   ((\<exists>v. psys_validate_unsigned cfg (EnactAuthorizedUpgrade code) s = Inr v) \<longleftrightarrow>
     AuthorizedUpgrade s = Some (ps_code_hash cfg code))"
  by (auto simp: enact_authorized_upgrade_def validate_authorized_upgrade_def schedule_code_upgrade_Inr result_simps
      Let_def psys_validate_unsigned_def split: sum.splits option.splits)

section \<open>Channel information\<close>

text \<open>
  The invariants of the relay chain's channels: the lists are in ascending order of the other end, a channel
  holds no more than its total size, and the count of messages is below the largest \<^verbatim>\<open>u32\<close>.
\<close>

definition channels_ok :: "(para_id \<times> abridged_hrmp_channel) list \<Rightarrow> bool" where
  "channels_ok channels \<longleftrightarrow> sorted (map fst channels) \<and> distinct (map fst channels) \<and>
     list_all (\<lambda>(_, c). ch_total_size c \<le> ch_max_total_size c \<and> ch_msg_count c \<noteq> - 1) channels"

fun status_of_channel :: "abridged_hrmp_channel option \<Rightarrow> channel_status" where
  "status_of_channel None = Closed"
| "status_of_channel (Some c) =
     (if unat (ch_max_capacity c) \<le> unat (ch_msg_count c) then Full
      else Ready (unat (ch_max_total_size c) - unat (ch_total_size c)) (unat (ch_max_message_size c)))"

lemma status_of_channel_words:
  assumes "ch_total_size c \<le> ch_max_total_size c" "ch_msg_count c \<noteq> - 1"
  shows "(if ch_msg_count c + 1 > ch_max_capacity c then Full
      else Ready (unat (ch_max_total_size c - ch_total_size c)) (unat (ch_max_message_size c))) = status_of_channel (Some c)"
proof -
  have "ch_msg_count c < - 1" using assms(2) word_order.not_eq_extremum by blast
  from word_Suc_le(1) [OF this] show ?thesis
    using assms(1) by (auto simp: word_less_nat_alt unat_sub Suc_le_eq not_le)
qed

lemma channel_lookup:
  assumes "RelevantMessagingState s = Some d" "channels_ok (egress_channels d)"
  shows "get_channel_status s recipient = status_of_channel (map_of (egress_channels d) recipient)"
    and "get_channel_max s recipient =
      map_option (\<lambda>c. unat (ch_max_message_size c)) (map_of (egress_channels d) recipient)"
proof -
  let ?found = "binary_search_by_key fst (egress_channels d) recipient"
  have lookup: "(case ?found of Inl _ \<Rightarrow> None | Inr i \<Rightarrow> Some (snd (egress_channels d ! i))) =
      map_of (egress_channels d) recipient"
    using assms(2) by (intro binary_search_map_of) (simp_all add: channels_ok_def)
  have "get_channel_status s recipient = status_of_channel (map_of (egress_channels d) recipient) \<and>
    get_channel_max s recipient =
      map_option (\<lambda>c. unat (ch_max_message_size c)) (map_of (egress_channels d) recipient)"
  proof (cases ?found)
    case (Inl i)
    with lookup show ?thesis by (simp add: get_channel_status_def get_channel_max_def assms(1) flip: lookup)
  next
    case (Inr i)
    have "egress_channels d ! i \<in> set (egress_channels d)" using binary_search_Ok(1) [OF Inr] by simp
    then have "ch_total_size (snd (egress_channels d ! i)) \<le> ch_max_total_size (snd (egress_channels d ! i))"
      "ch_msg_count (snd (egress_channels d ! i)) \<noteq> - 1"
      using assms(2) by (force simp: channels_ok_def list_all_iff)+
    from status_of_channel_words [OF this] lookup show ?thesis
      by (simp only: get_channel_status_def get_channel_max_def assms(1) Inr option.case sum.case Let_def
          option.map flip: lookup)
  qed
  then show "get_channel_status s recipient = status_of_channel (map_of (egress_channels d) recipient)"
    "get_channel_max s recipient =
      map_option (\<lambda>c. unat (ch_max_message_size c)) (map_of (egress_channels d) recipient)" by simp_all
qed

text \<open>The state of an outbound channel that the binary search finds is that of the channel the relay
  chain's list maps the recipient to, computed without wrap-around: closed when there is none, full at
  its capacity, and otherwise ready for what is left of its total size.\<close>

theorem get_channel_status_lookup:
  assumes "RelevantMessagingState s = Some d" "channels_ok (egress_channels d)"
  shows "get_channel_status s recipient = status_of_channel (map_of (egress_channels d) recipient) \<and>
    get_channel_max s recipient =
      map_option (\<lambda>c. unat (ch_max_message_size c)) (map_of (egress_channels d) recipient)"
  using channel_lookup [OF assms] by simp

theorem get_channel_status_lookup_witness:
  "get_channel_status toy_filled 3 = Ready 70 50 \<and> get_channel_status toy_filled 4 = Full \<and>
   get_channel_status toy_filled 5 = Closed"
proof -
  have "RelevantMessagingState toy_filled = Some toy_snapshot" "channels_ok (egress_channels toy_snapshot)"
    by (simp add: toy_filled_def, code_simp)
  note lookup = get_channel_status_lookup [OF this]
  show ?thesis
    using lookup [of 3] lookup [of 4] lookup [of 5] by (simp add: toy_snapshot_def)
qed

end
