(* ===== verification/Validate_Block.thy ===== *)
theory Validate_Block
  imports Parachain_Blocks
begin

text \<open>
  Validation of a block on the relay chain, \<^verbatim>\<open>src/pallets/parachain-system/src/validate_block\<close>: the
  validation function, its agreement with what the collator reports, and the storage host functions it installs.
\<close>

section \<open>Block data\<close>

record ('hdr, 'ext, 'pf) parachain_block_data =
  pbd_header :: 'hdr
  pbd_extrinsics :: "'ext list"
  pbd_storage_proof :: 'pf

definition block_data_new :: "'hdr \<Rightarrow> 'ext list \<Rightarrow> 'pf \<Rightarrow> ('hdr, 'ext, 'pf) parachain_block_data" where
  "block_data_new header extrinsics storage_proof =
     \<lparr>pbd_header = header, pbd_extrinsics = extrinsics, pbd_storage_proof = storage_proof\<rparr>"

definition into_block :: "('hdr, 'ext, 'pf) parachain_block_data \<Rightarrow> 'hdr \<times> 'ext list" where
  "into_block d = (pbd_header d, pbd_extrinsics d)"

definition deconstruct :: "('hdr, 'ext, 'pf) parachain_block_data \<Rightarrow> 'hdr \<times> 'ext list \<times> 'pf" where
  "deconstruct d = (pbd_header d, pbd_extrinsics d, pbd_storage_proof d)"

record validation_result =
  vr_head_data :: bytes
  vr_new_validation_code :: "bytes option"
  vr_upward_messages :: "bytes list"
  vr_processed_downward_messages :: u32
  vr_horizontal_messages :: "outbound_hrmp_message list"
  vr_hrmp_watermark :: relay_block_number

text \<open>
  What a runtime brings to the validation of its blocks: the codec and accessors of headers and extrinsics, the
  storage that a compact proof gives under a root, the check of the inherents and the execution of a block,
  which is given the configuration of the pallet with the validation parameters set.
\<close>

record ('p, 'w, 'hdr, 'ext, 'pf) vb_config =
  vb_decode_block_data :: "bytes \<Rightarrow> ('hdr, 'ext, 'pf) parachain_block_data option"
  vb_decode_header :: "bytes \<Rightarrow> 'hdr option"
  vb_encode_header :: "'hdr \<Rightarrow> bytes"
  vb_hash :: "'hdr \<Rightarrow> bytes"
  vb_parent_hash :: "'hdr \<Rightarrow> bytes"
  vb_state_root :: "'hdr \<Rightarrow> bytes"
  vb_backend :: "'pf \<Rightarrow> bytes \<Rightarrow> ('p, 'w) psys_state option"
  vb_is_signed :: "'ext \<Rightarrow> bool option"
  vb_call :: "'ext \<Rightarrow> 'p psys_call option"
  vb_check_inherents :: "'hdr \<times> 'ext list \<Rightarrow> relay_chain_state_proof \<Rightarrow> ('p, 'w) psys_state \<Rightarrow> bool"
  vb_execute_block :: "('p, 'w) psys_config \<Rightarrow> 'hdr \<times> 'ext list \<Rightarrow> ('p, 'w) psys_state \<Rightarrow> ('p, 'w) psys_state option"

section \<open>Validation\<close>

definition unsigned_ext :: "('p, 'w, 'hdr, 'ext, 'pf) vb_config \<Rightarrow> 'ext \<Rightarrow> bool" where
  "unsigned_ext vb e = (\<not> (case vb_is_signed vb e of None \<Rightarrow> True | Some b \<Rightarrow> b))"

fun inherent_of_call :: "'p psys_call \<Rightarrow> 'p parachain_inherent_data option" where
  "inherent_of_call (SetValidationData data) = Some data"
| "inherent_of_call _ = None"

definition find_inherent :: "('p, 'w, 'hdr, 'ext, 'pf) vb_config \<Rightarrow> 'ext list \<Rightarrow> 'p parachain_inherent_data option" where
  "find_inherent vb extrinsics =
     (case List.map_filter inherent_of_call (List.map_filter (vb_call vb) (takeWhile (unsigned_ext vb) extrinsics)) of
        [] \<Rightarrow> None | data # _ \<Rightarrow> Some data)"

definition validate_block :: "('p, 'w) psys_config \<Rightarrow> ('p, 'w, 'hdr, 'ext, 'pf) vb_config \<Rightarrow> validation_params \<Rightarrow>
    validation_result option" where
  "validate_block cfg vb params = do {
     block_data \<leftarrow> vb_decode_block_data vb (vp_block_data params);
     parent_head \<leftarrow> vb_decode_header vb (vp_parent_head params);
     let (header, extrinsics, storage_proof) = deconstruct block_data;
     let head_data = vb_encode_header vb header;
     let block = (header, extrinsics);
     _ \<leftarrow> assert_that (vb_hash vb parent_head = vb_parent_hash vb header);
     s \<leftarrow> vb_backend vb storage_proof (vb_state_root vb parent_head);
     inherent_data \<leftarrow> find_inherent vb extrinsics;
     relay_chain_proof \<leftarrow> expect (relay_proof_new (ps_backend cfg) (ps_self_para_id cfg)
       (pvd_relay_parent_storage_root (validation_data inherent_data)) (relay_chain_state inherent_data));
     _ \<leftarrow> assert_that (vb_check_inherents vb block relay_chain_proof s);
     s' \<leftarrow> vb_execute_block vb (cfg\<lparr>ps_validation_params := Some params\<rparr>) block s;
     Some \<lparr>
       vr_head_data = (case CustomValidationHeadData s' of Some custom \<Rightarrow> custom | None \<Rightarrow> head_data),
       vr_new_validation_code = NewValidationCode s',
       vr_upward_messages = UpwardMessages s',
       vr_processed_downward_messages = ProcessedDownwardMessages s',
       vr_horizontal_messages = HrmpOutboundMessages s',
       vr_hrmp_watermark = HrmpWatermark s'\<rparr>
   }"

section \<open>Agreement with the collator\<close>

text \<open>What the collator commits to, as the validation result it claims.\<close>

definition result_of_collation :: "collation_info \<Rightarrow> validation_result" where
  "result_of_collation ci = \<lparr>
     vr_head_data = ci_head_data ci,
     vr_new_validation_code = ci_new_validation_code ci,
     vr_upward_messages = ci_upward_messages ci,
     vr_processed_downward_messages = ci_processed_downward_messages ci,
     vr_horizontal_messages = ci_horizontal_messages ci,
     vr_hrmp_watermark = ci_hrmp_watermark ci\<rparr>"

lemma validate_block_steps:
  assumes "validate_block cfg vb params = Some res"
  obtains d parent s data p s' where
    "vb_decode_block_data vb (vp_block_data params) = Some d"
    "vb_decode_header vb (vp_parent_head params) = Some parent"
    "vb_hash vb parent = vb_parent_hash vb (pbd_header d)"
    "vb_backend vb (pbd_storage_proof d) (vb_state_root vb parent) = Some s"
    "find_inherent vb (pbd_extrinsics d) = Some data"
    "relay_proof_new (ps_backend cfg) (ps_self_para_id cfg)
       (pvd_relay_parent_storage_root (validation_data data)) (relay_chain_state data) = Inr p"
    "vb_check_inherents vb (into_block d) p s"
    "vb_execute_block vb (cfg\<lparr>ps_validation_params := Some params\<rparr>) (into_block d) s = Some s'"
    "res = result_of_collation (collect_collation_info (vb_encode_header vb) (pbd_header d) s')"
  using assms
  by (auto simp: validate_block_def deconstruct_def into_block_def Let_def panic_simps result_of_collation_def
      collect_collation_info_def split: prod.splits)

text \<open>
  The block executor: it runs the hooks of the pallet around the operations of the extrinsics, among steps of the other
  pallets, which neither write the storage of this pallet nor the code of the runtime; before its first and after its last
  hook only other pallets and the log of events change.  The unsigned extrinsics are dispatched with no origin, in order.
\<close>

definition unsigned_inherents :: "('p, 'w, 'hdr, 'ext, 'pf) vb_config \<Rightarrow> 'ext list \<Rightarrow> 'p parachain_inherent_data list" where
  "unsigned_inherents vb extrinsics =
     List.map_filter inherent_of_call (List.map_filter (vb_call vb) (filter (unsigned_ext vb) extrinsics))"

definition same_pallet :: "('p, 'w) psys_state \<Rightarrow> ('p, 'w) psys_state \<Rightarrow> bool" where
  "same_pallet s t \<longleftrightarrow> (\<exists>events world. t = s\<lparr>psys_events := events, psys_world := world\<rparr>)"

lemma same_pallet_intros [intro]: "same_pallet s s" "same_pallet s (s\<lparr>psys_events := events\<rparr>)"
  unfolding same_pallet_def
  by (rule exI [of _ "psys_events s"] exI [of _ events], rule exI [of _ "psys_world s"], simp)+

definition executes_pallet :: "('p, 'w, 'hdr, 'ext, 'pf) vb_config \<Rightarrow> 'acc itself \<Rightarrow> bool" where
  "executes_pallet vb acc \<longleftrightarrow>
     (\<forall>cfg header extrinsics s s'. vb_execute_block vb cfg (header, extrinsics) s = Some s' \<longrightarrow>
        (\<exists>(ops :: ('acc, 'p, 'w) psys_op list) t t'. subseq (unsigned_inherents vb extrinsics) (inherents ops) \<and>
           same_pallet s t \<and> run_block cfg ops t = Some t' \<and> same_pallet t' s'))"

lemma unsigned_inherents_prefix:
  assumes "find_inherent vb extrinsics = Some data"
  shows "\<exists>ds. unsigned_inherents vb extrinsics = data # ds"
proof -
  have "filter (unsigned_ext vb) extrinsics =
      takeWhile (unsigned_ext vb) extrinsics @ filter (unsigned_ext vb) (dropWhile (unsigned_ext vb) extrinsics)"
    by (induction extrinsics) auto
  then show ?thesis
    using assms by (auto simp: unsigned_inherents_def find_inherent_def List.map_filter_def split: list.splits)
qed

text \<open>An example: headers are numbers, extrinsics are calls of the pallet, all unsigned; another pallet counts something before the
  extrinsics and the events are cleared after them.\<close>

definition toy_vb :: "((bytes \<times> bytes) list, nat, nat, (bytes \<times> bytes) list psys_call, unit) vb_config" where
  "toy_vb = \<lparr>
     vb_decode_block_data = (\<lambda>_. Some (block_data_new 1 [SetValidationData toy_inherent] ())),
     vb_decode_header = (\<lambda>bs. Some (length bs)),
     vb_encode_header = (\<lambda>h. [of_nat h]),
     vb_hash = (\<lambda>h. [of_nat h]), vb_parent_hash = (\<lambda>h. [of_nat (h - 1)]), vb_state_root = (\<lambda>_. []),
     vb_backend = (\<lambda>_ _. Some (psys_genesis [41] 0)),
     vb_is_signed = (\<lambda>_. Some False), vb_call = Some,
     vb_check_inherents = (\<lambda>_ _ _. True),
     vb_execute_block = (\<lambda>cfg (_, exts) s. map_option (\<lambda>t. t\<lparr>psys_events := []\<rparr>)
       (run_block cfg (Elsewhere Suc # map (Dispatch (NoneOrigin :: nat origin)) exts) s))\<rparr>"

definition toy_params :: validation_params where
  "toy_params = \<lparr>vp_parent_head = [], vp_block_data = [], vp_relay_parent_number = 10,
     vp_relay_parent_storage_root = [1]\<rparr>"

lemma toy_vb_executes: "executes_pallet toy_vb TYPE(nat)"
proof -
  let ?ops = "\<lambda>exts. Elsewhere Suc # map (Dispatch (NoneOrigin :: nat origin)) exts"
  have inh: "inherents (?ops exts) = unsigned_inherents toy_vb exts" for exts
  proof (induction exts)
    case (Cons e es)
    then show ?case
      by (cases e) (simp_all add: unsigned_inherents_def unsigned_ext_def toy_vb_def List.map_filter_def)
  qed (simp add: unsigned_inherents_def List.map_filter_def)
  show ?thesis
    unfolding executes_pallet_def
  proof (intro allI impI)
    fix cfg :: "((bytes \<times> bytes) list, nat) psys_config" and header :: nat and exts s s'
    assume "vb_execute_block toy_vb cfg (header, exts) s = Some s'"
    then obtain t where "run_block cfg (?ops exts) s = Some t" "s' = t\<lparr>psys_events := []\<rparr>" by (auto simp: toy_vb_def)
    then have "subseq (unsigned_inherents toy_vb exts) (inherents (?ops exts)) \<and> same_pallet s s \<and>
        run_block cfg (?ops exts) s = Some t \<and> same_pallet t s'"
      unfolding inh by auto
    then show "\<exists>(ops :: (nat, _, _) psys_op list) t t'. subseq (unsigned_inherents toy_vb exts) (inherents ops) \<and>
        same_pallet s t \<and> run_block cfg ops t = Some t' \<and> same_pallet t' s'" by blast
  qed
qed

lemma toy_block_validates: "\<exists>res. validate_block toy_psys toy_vb toy_params = Some res"
proof -
  have "case validate_block toy_psys toy_vb toy_params of Some _ \<Rightarrow> True | _ \<Rightarrow> False" by code_simp
  then show ?thesis by (auto split: option.splits)
qed

text \<open>C8. A validated block is bound to the relay parent of its candidate: it has exactly one inherent,
  that inherent is the one whose proof the inherents are checked against, and its parent head, relay parent number
  and storage root are those of the validation parameters, a root the proof contains.\<close>

theorem validate_block_binds_relay_parent:
  assumes "validate_block cfg vb params = Some res" "executes_pallet vb TYPE('acc)" "psys_frames cfg"
  shows "\<exists>d data. vb_decode_block_data vb (vp_block_data params) = Some d \<and>
    find_inherent vb (pbd_extrinsics d) = Some data \<and> unsigned_inherents vb (pbd_extrinsics d) = [data] \<and>
    pvd_parent_head (validation_data data) = vp_parent_head params \<and>
    pvd_relay_parent_number (validation_data data) = vp_relay_parent_number params \<and>
    pvd_relay_parent_storage_root (validation_data data) = vp_relay_parent_storage_root params \<and>
    rb_contains_root (ps_backend cfg) (relay_chain_state data) (vp_relay_parent_storage_root params)"
proof (rule validate_block_steps [OF assms(1)])
  fix d data p s s'
  let ?cfg = "cfg\<lparr>ps_validation_params := Some params\<rparr>"
  assume d: "vb_decode_block_data vb (vp_block_data params) = Some d"
    and data: "find_inherent vb (pbd_extrinsics d) = Some data"
    and p: "relay_proof_new (ps_backend cfg) (ps_self_para_id cfg)
       (pvd_relay_parent_storage_root (validation_data data)) (relay_chain_state data) = Inr p"
    and exec: "vb_execute_block vb ?cfg (into_block d) s = Some s'"
  obtain ops :: "('acc, _, _) psys_op list" and u u' where
    ops: "subseq (unsigned_inherents vb (pbd_extrinsics d)) (inherents ops)" "run_block ?cfg ops u = Some u'"
    using assms(2) exec unfolding executes_pallet_def into_block_def by blast
  have frames: "psys_frames ?cfg" using assms(3) by (simp add: psys_frames_def)
  obtain data' t w t' where
    one: "inherents ops = [data']" and inh: "set_validation_data ?cfg (NoneOrigin :: 'acc origin) data' t = Some (Inr (w, t'))"
    using run_block_inherent [OF ops(2) frames] by metis
  have "unsigned_inherents vb (pbd_extrinsics d) = [data']" and "data' = data"
    using unsigned_inherents_prefix [OF data] ops(1) by (auto simp: one subseq_Cons2_iff split: if_splits)
  moreover have "validate_validation_data ?cfg (validation_data data') = Some ()"
    using inh by (rule set_validation_data_steps)
  ultimately show ?thesis
    using d data p
    by (auto simp: validate_validation_data_def panic_simps relay_proof_new_def split: if_splits)
qed

theorem validate_block_binds_relay_parent_witness:
  "\<exists>res d. validate_block toy_psys toy_vb toy_params = Some res \<and> vb_decode_block_data toy_vb (vp_block_data toy_params) = Some d \<and>
     unsigned_inherents toy_vb (pbd_extrinsics d) = [toy_inherent] \<and>
     pvd_parent_head (validation_data toy_inherent) = vp_parent_head toy_params \<and>
     pvd_relay_parent_number (validation_data toy_inherent) = vp_relay_parent_number toy_params \<and>
     pvd_relay_parent_storage_root (validation_data toy_inherent) = vp_relay_parent_storage_root toy_params"
proof -
  obtain res where res: "validate_block toy_psys toy_vb toy_params = Some res"
    using toy_block_validates by blast
  from validate_block_binds_relay_parent [OF this toy_vb_executes toy_psys_ok(1)]
  obtain d data where d: "vb_decode_block_data toy_vb (vp_block_data toy_params) = Some d"
    "unsigned_inherents toy_vb (pbd_extrinsics d) = [data]"
    "pvd_parent_head (validation_data data) = vp_parent_head toy_params"
    "pvd_relay_parent_number (validation_data data) = vp_relay_parent_number toy_params"
    "pvd_relay_parent_storage_root (validation_data data) = vp_relay_parent_storage_root toy_params"
    by blast
  moreover have "data = toy_inherent"
    using d(1,2) by (auto simp: toy_vb_def block_data_new_def unsigned_inherents_def unsigned_ext_def List.map_filter_def)
  ultimately show ?thesis using res by blast
qed

section \<open>Host functions\<close>

text \<open>
  The storage host functions that replace those of the client while a block is validated.  The externalities they
  forward to are a parameter; \<open>None\<close> in place of them is an environment in which they are not set, on
  which every host function panics.
\<close>

record ('x, 'k) externalities =
  ext_storage :: "bytes \<Rightarrow> 'x \<Rightarrow> bytes option"
  ext_exists_storage :: "bytes \<Rightarrow> 'x \<Rightarrow> bool"
  ext_place_storage :: "bytes \<Rightarrow> bytes option \<Rightarrow> 'x \<Rightarrow> 'x"
  ext_storage_root :: "u8 \<Rightarrow> 'x \<Rightarrow> bytes \<times> 'x"
  ext_clear_prefix :: "bytes \<Rightarrow> u32 option \<Rightarrow> 'x \<Rightarrow> 'k \<times> 'x"
  ext_storage_append :: "bytes \<Rightarrow> bytes \<Rightarrow> 'x \<Rightarrow> 'x"
  ext_next_storage_key :: "bytes \<Rightarrow> 'x \<Rightarrow> bytes option"
  ext_start_transaction :: "'x \<Rightarrow> 'x"
  ext_rollback_transaction :: "'x \<Rightarrow> 'x option"
  ext_commit_transaction :: "'x \<Rightarrow> 'x option"
  ext_child_storage :: "bytes \<Rightarrow> bytes \<Rightarrow> 'x \<Rightarrow> bytes option"
  ext_exists_child_storage :: "bytes \<Rightarrow> bytes \<Rightarrow> 'x \<Rightarrow> bool"
  ext_place_child_storage :: "bytes \<Rightarrow> bytes \<Rightarrow> bytes option \<Rightarrow> 'x \<Rightarrow> 'x"
  ext_kill_child_storage :: "bytes \<Rightarrow> u32 option \<Rightarrow> 'x \<Rightarrow> 'k \<times> 'x"
  ext_clear_child_prefix :: "bytes \<Rightarrow> bytes \<Rightarrow> u32 option \<Rightarrow> 'x \<Rightarrow> 'k \<times> 'x"
  ext_child_storage_root :: "bytes \<Rightarrow> u8 \<Rightarrow> 'x \<Rightarrow> bytes \<times> 'x"
  ext_next_child_storage_key :: "bytes \<Rightarrow> bytes \<Rightarrow> 'x \<Rightarrow> bytes option"

definition with_externalities :: "('x \<Rightarrow> 'r) \<Rightarrow> 'x option \<Rightarrow> 'r option" where
  "with_externalities f x = map_option f x"

text \<open>Copying a value into the caller's buffer from an offset: the value's length and the buffer.\<close>

definition read_into :: "bytes option \<Rightarrow> bytes \<Rightarrow> u32 \<Rightarrow> u32 option \<times> bytes" where
  "read_into value value_out value_offset =
     (case value of
        Some value \<Rightarrow>
          let data = drop (min (unat value_offset) (length value)) value;
            written = min (length data) (length value_out)
          in (Some (of_nat (length value)), take written data @ drop written value_out)
      | None \<Rightarrow> (None, value_out))"

definition host_storage_read where
  "host_storage_read E key value_out value_offset x =
     map_option (\<lambda>value. read_into value value_out value_offset) (with_externalities (ext_storage E key) x)"

definition host_storage_set where
  "host_storage_set E key value x = with_externalities (ext_place_storage E key (Some value)) x"

definition host_storage_get where
  "host_storage_get E key x = with_externalities (ext_storage E key) x"

definition host_storage_exists where
  "host_storage_exists E key x = with_externalities (ext_exists_storage E key) x"

definition host_storage_clear where
  "host_storage_clear E key x = with_externalities (ext_place_storage E key None) x"

definition host_storage_root where
  "host_storage_root E version x = with_externalities (ext_storage_root E version) x"

definition host_storage_clear_prefix where
  "host_storage_clear_prefix E pre limit x = with_externalities (ext_clear_prefix E pre limit) x"

definition host_storage_append where
  "host_storage_append E key value x = with_externalities (ext_storage_append E key value) x"

definition host_storage_next_key where
  "host_storage_next_key E key x = with_externalities (ext_next_storage_key E key) x"

definition host_storage_start_transaction where
  "host_storage_start_transaction E x = with_externalities (ext_start_transaction E) x"

definition host_storage_rollback_transaction where
  "host_storage_rollback_transaction E x = Option.bind (with_externalities (ext_rollback_transaction E) x) id"

definition host_storage_commit_transaction where
  "host_storage_commit_transaction E x = Option.bind (with_externalities (ext_commit_transaction E) x) id"

definition host_default_child_storage_get where
  "host_default_child_storage_get E storage_key key x = with_externalities (ext_child_storage E storage_key key) x"

definition host_default_child_storage_read where
  "host_default_child_storage_read E storage_key key value_out value_offset x =
     map_option (\<lambda>value. read_into value value_out value_offset)
       (with_externalities (ext_child_storage E storage_key key) x)"

definition host_default_child_storage_set where
  "host_default_child_storage_set E storage_key key value x =
     with_externalities (ext_place_child_storage E storage_key key (Some value)) x"

definition host_default_child_storage_clear where
  "host_default_child_storage_clear E storage_key key x =
     with_externalities (ext_place_child_storage E storage_key key None) x"

definition host_default_child_storage_storage_kill where
  "host_default_child_storage_storage_kill E storage_key limit x =
     with_externalities (ext_kill_child_storage E storage_key limit) x"

definition host_default_child_storage_exists where
  "host_default_child_storage_exists E storage_key key x =
     with_externalities (ext_exists_child_storage E storage_key key) x"

definition host_default_child_storage_clear_prefix where
  "host_default_child_storage_clear_prefix E storage_key pre limit x =
     with_externalities (ext_clear_child_prefix E storage_key pre limit) x"

definition host_default_child_storage_root where
  "host_default_child_storage_root E storage_key version x =
     with_externalities (ext_child_storage_root E storage_key version) x"

definition host_default_child_storage_next_key where
  "host_default_child_storage_next_key E storage_key key x =
     with_externalities (ext_next_child_storage_key E storage_key key) x"

definition host_offchain_index_set where
  "host_offchain_index_set (_ :: bytes) (_ :: bytes) x = x"

definition host_offchain_index_clear where
  "host_offchain_index_clear (_ :: bytes) x = x"

text \<open>A caller that fetches a value piece by piece: a buffer of \<open>n\<close> bytes filled from each multiple of
  \<open>n\<close>, of which the part below the end of the value is kept.\<close>

definition read_piece :: "('x, 'k) externalities \<Rightarrow> bytes \<Rightarrow> nat \<Rightarrow> 'x \<Rightarrow> nat \<Rightarrow> bytes" where
  "read_piece E key n x i =
     (case host_storage_read E key (replicate n 0) (of_nat (i * n)) (Some x) of
        Some (Some len, buffer) \<Rightarrow> take (unat len - i * n) buffer
      | _ \<Rightarrow> [])"

lemma concat_pieces: "concat (map (\<lambda>i. take n (drop (i * n) v)) [0..<k]) = take (k * n) v"
proof (induction k)
  case (Suc k)
  then show ?case by (simp add: take_add [of "k * n" n, symmetric] add.commute)
qed simp

lemma read_piece_eq:
  assumes "ext_storage E key x = Some v" "length v < 2 ^ 32" "i * n < 2 ^ 32"
  shows "read_piece E key n x i = take n (drop (i * n) v)"
proof -
  have "unat (of_nat (i * n) :: u32) = i * n" "unat (of_nat (length v) :: u32) = length v"
    by (rule unat_of_nat_u32 [OF assms(3)], rule unat_of_nat_u32 [OF assms(2)])
  then show ?thesis
    by (auto simp: read_piece_def host_storage_read_def with_externalities_def read_into_def Let_def assms(1) min_def
        simp del: of_nat_mult)
qed

text \<open>A value written through the host functions is read back in full by reading pieces of any size,
  as long as the pieces reach the end of the value; externalities that return what was placed last suffice.\<close>

theorem host_storage_read_back:
  assumes "\<And>x. ext_storage E key (ext_place_storage E key (Some v) x) = Some v"
    and "host_storage_set E key v (Some x) = Some x'"
    and "length v \<le> k * n" "length v < 2 ^ 32" "k * n \<le> 2 ^ 32" "0 < n"
  shows "concat (map (read_piece E key n x') [0..<k]) = v"
proof -
  have x': "ext_storage E key x' = Some v"
    using assms(1,2) by (auto simp: host_storage_set_def with_externalities_def)
  have "i * n < 2 ^ 32" if "i < k" for i
    using that assms(5,6) by (meson less_le_trans mult_less_mono1)
  then have "map (read_piece E key n x') [0..<k] = map (\<lambda>i. take n (drop (i * n) v)) [0..<k]"
    using read_piece_eq [OF x' assms(4)] by simp
  then show ?thesis using assms(3) by (simp only: concat_pieces take_all)
qed

definition toy_ext :: "(bytes \<rightharpoonup> bytes, nat) externalities" where
  "toy_ext = \<lparr>ext_storage = (\<lambda>k x. x k), ext_exists_storage = (\<lambda>k x. x k \<noteq> None),
     ext_place_storage = (\<lambda>k v x. x(k := v)), ext_storage_root = (\<lambda>_ x. ([], x)),
     ext_clear_prefix = (\<lambda>_ _ x. (0, x)), ext_storage_append = (\<lambda>_ _ x. x), ext_next_storage_key = (\<lambda>_ _. None),
     ext_start_transaction = id, ext_rollback_transaction = (\<lambda>_. None), ext_commit_transaction = (\<lambda>_. None),
     ext_child_storage = (\<lambda>_ _ _. None), ext_exists_child_storage = (\<lambda>_ _ _. False),
     ext_place_child_storage = (\<lambda>_ _ _ x. x), ext_kill_child_storage = (\<lambda>_ _ x. (0, x)),
     ext_clear_child_prefix = (\<lambda>_ _ _ x. (0, x)), ext_child_storage_root = (\<lambda>_ _ x. ([], x)),
     ext_next_child_storage_key = (\<lambda>_ _ _. None)\<rparr>"

theorem host_storage_read_back_witness:
  "\<exists>x'. host_storage_set toy_ext [1] [5, 6, 7, 8, 9] (Some Map.empty) = Some x' \<and>
     concat (map (read_piece toy_ext [1] 2 x') [0..<3]) = [5, 6, 7, 8, 9]"
proof -
  have set: "host_storage_set toy_ext [1] [5, 6, 7, 8, 9] (Some Map.empty) = Some [[1] \<mapsto> [5, 6, 7, 8, 9]]"
    by (simp add: host_storage_set_def with_externalities_def toy_ext_def)
  then show ?thesis
    using host_storage_read_back [OF _ set, of 3 2] by (simp add: toy_ext_def)
qed

end
