(* ===== verification/Collator_Selection.thy ===== *)
theory Collator_Selection
  imports Xcm_Interface "HOL-Library.Monad_Syntax"
begin

text \<open>
  The collator selection pallet, \<^verbatim>\<open>src/pallets/collator-selection/src/lib.rs\<close>: invulnerables and
  candidates, the calls that change them, the removal of stale candidates at a session change and the
  reward of authors.  The currency, the session keys and the weights are fields of \<open>cs_config\<close>.
\<close>

section \<open>Data\<close>

type_synonym balance = "128 word"
type_synonym block_number = u32

record 'acc candidate_info =
  cand_who :: 'acc
  cand_deposit :: balance

datatype 'acc cs_event =
    NewInvulnerables "'acc list"
  | NewDesiredCandidates u32
  | NewCandidacyBond balance
  | CandidateAdded 'acc balance
  | CandidateRemoved 'acc

datatype cs_error =
    TooManyCandidates
  | TooFewCandidates
  | UnknownError
  | PermissionError
  | AlreadyCandidate
  | NotCandidate
  | TooManyInvulnerables
  | AlreadyInvulnerable
  | NoAssociatedValidatorId
  | ValidatorNotRegistered

text \<open>The storage, with the current block number, the weights registered for the block, the events and the
  rest of the runtime, which holds the balances and the session keys.\<close>

record ('acc, 'w) cs_state =
  Invulnerables :: "'acc list"
  Candidates :: "'acc candidate_info list"
  LastAuthoredBlock :: "'acc \<rightharpoonup> block_number"
  DesiredCandidates :: u32
  CandidacyBond :: balance
  cs_block_number :: block_number
  cs_extra_weight :: "weight list"
  cs_events :: "'acc cs_event list"
  cs_world :: 'w

record ('acc, 'v, 'w) cs_config =
  cs_reserve :: "'acc \<Rightarrow> balance \<Rightarrow> 'w \<Rightarrow> (cs_error dispatch_error, 'w) result"
  cs_unreserve :: "'acc \<Rightarrow> balance \<Rightarrow> 'w \<Rightarrow> 'w"
  cs_transfer :: "'acc \<Rightarrow> 'acc \<Rightarrow> balance \<Rightarrow> 'w \<Rightarrow> (cs_error dispatch_error, 'w) result"
  cs_free_balance :: "'acc \<Rightarrow> 'w \<Rightarrow> balance"
  cs_minimum_balance :: balance
  cs_update_origin :: "'acc origin \<Rightarrow> bool"
  cs_pot :: 'acc
  cs_max_candidates :: u32
  cs_min_candidates :: u32
  cs_max_invulnerables :: u32
  cs_kick_threshold :: block_number
  cs_validator_id_of :: "'acc \<Rightarrow> 'w \<Rightarrow> 'v option"
  cs_is_registered :: "'v \<Rightarrow> 'w \<Rightarrow> bool"
  cs_weight_register :: "u32 \<Rightarrow> weight"
  cs_weight_leave :: "u32 \<Rightarrow> weight"
  cs_weight_note_author :: weight
  cs_weight_new_session :: "u32 \<Rightarrow> u32 \<Rightarrow> weight"

definition identity_collator :: "'t \<Rightarrow> 't option" where
  "identity_collator t = Some t"

definition cs_deposit_event :: "'acc cs_event \<Rightarrow> ('acc, 'w) cs_state \<Rightarrow> ('acc, 'w) cs_state" where
  "cs_deposit_event e s = s\<lparr>cs_events := cs_events s @ [e]\<rparr>"

definition last_authored :: "('acc, 'w) cs_state \<Rightarrow> 'acc \<Rightarrow> block_number" where
  "last_authored s who = (case LastAuthoredBlock s who of None \<Rightarrow> 0 | Some n \<Rightarrow> n)"

definition cs_ensure_update :: "('acc, 'v, 'w) cs_config \<Rightarrow> 'acc origin \<Rightarrow> (cs_error dispatch_error, unit) result" where
  "cs_ensure_update cfg origin = ensure (cs_update_origin cfg origin) BadOrigin"

section \<open>Genesis\<close>

definition cs_genesis_build :: "('acc, 'v, 'w) cs_config \<Rightarrow> 'acc list \<Rightarrow> balance \<Rightarrow> u32 \<Rightarrow> 'w \<Rightarrow>
    ('acc, 'w) cs_state option" where
  "cs_genesis_build cfg invulnerables bond desired w = do {
     _ \<leftarrow> assert_that (distinct invulnerables);
     _ \<leftarrow> assert_that (length invulnerables \<le> unat (cs_max_invulnerables cfg));
     _ \<leftarrow> assert_that (cs_max_candidates cfg \<ge> desired);
     Some \<lparr>Invulnerables = invulnerables, Candidates = [], LastAuthoredBlock = Map.empty,
       DesiredCandidates = desired, CandidacyBond = bond, cs_block_number = 0, cs_extra_weight = [],
       cs_events = [], cs_world = w\<rparr>
   }"

section \<open>Calls\<close>

definition check_validator :: "('acc, 'v, 'w) cs_config \<Rightarrow> 'w \<Rightarrow> 'acc \<Rightarrow> (cs_error dispatch_error, unit) result" where
  "check_validator cfg w account_id =
     rbind (ok_or (cs_validator_id_of cfg account_id w) (Module NoAssociatedValidatorId)) (\<lambda>validator_key.
       ensure (cs_is_registered cfg validator_key w) (Module ValidatorNotRegistered))"

fun check_validators :: "('acc, 'v, 'w) cs_config \<Rightarrow> 'w \<Rightarrow> 'acc list \<Rightarrow> (cs_error dispatch_error, unit) result" where
  "check_validators cfg w [] = Inr ()"
| "check_validators cfg w (account_id # accounts) =
     rbind (check_validator cfg w account_id) (\<lambda>_. check_validators cfg w accounts)"

definition set_invulnerables :: "('acc, 'v, 'w) cs_config \<Rightarrow> 'acc origin \<Rightarrow> 'acc list \<Rightarrow> ('acc, 'w) cs_state \<Rightarrow>
    (cs_error dispatch_error, ('acc, 'w) cs_state) result" where
  "set_invulnerables cfg origin new s =
     rbind (cs_ensure_update cfg origin) (\<lambda>_.
     rbind (ensure (length new \<le> unat (cs_max_invulnerables cfg)) (Module TooManyInvulnerables)) (\<lambda>_.
     rbind (check_validators cfg (cs_world s) new) (\<lambda>_.
     Inr (cs_deposit_event (NewInvulnerables new) (s\<lparr>Invulnerables := new\<rparr>)))))"

definition set_desired_candidates :: "('acc, 'v, 'w) cs_config \<Rightarrow> 'acc origin \<Rightarrow> u32 \<Rightarrow> ('acc, 'w) cs_state \<Rightarrow>
    (cs_error dispatch_error, ('acc, 'w) cs_state) result" where
  "set_desired_candidates cfg origin desired s =
     rbind (cs_ensure_update cfg origin) (\<lambda>_.
     Inr (cs_deposit_event (NewDesiredCandidates desired) (s\<lparr>DesiredCandidates := desired\<rparr>)))"

definition set_candidacy_bond :: "('acc, 'v, 'w) cs_config \<Rightarrow> 'acc origin \<Rightarrow> balance \<Rightarrow> ('acc, 'w) cs_state \<Rightarrow>
    (cs_error dispatch_error, ('acc, 'w) cs_state) result" where
  "set_candidacy_bond cfg origin bond s =
     rbind (cs_ensure_update cfg origin) (\<lambda>_.
     Inr (cs_deposit_event (NewCandidacyBond bond) (s\<lparr>CandidacyBond := bond\<rparr>)))"

definition register_as_candidate :: "('acc, 'v, 'w) cs_config \<Rightarrow> 'acc origin \<Rightarrow> ('acc, 'w) cs_state \<Rightarrow>
    (cs_error dispatch_error, weight \<times> ('acc, 'w) cs_state) result" where
  "register_as_candidate cfg origin s =
     rbind (ensure_signed origin) (\<lambda>who.
     rbind (ensure ((of_nat (length (Candidates s)) :: u32) < DesiredCandidates s) (Module TooManyCandidates)) (\<lambda>_.
     rbind (ensure (who \<notin> set (Invulnerables s)) (Module AlreadyInvulnerable)) (\<lambda>_.
     rbind (check_validator cfg (cs_world s) who) (\<lambda>_.
     let deposit = CandidacyBond s; incoming = \<lparr>cand_who = who, cand_deposit = deposit\<rparr> in
     rbind (ensure (\<not> list_ex (\<lambda>candidate. cand_who candidate = who) (Candidates s)) (Module AlreadyCandidate)) (\<lambda>_.
     rbind (cs_reserve cfg who deposit (cs_world s)) (\<lambda>w.
     rbind (ensure (length (Candidates s) < unat (cs_max_candidates cfg)) (Module TooManyCandidates)) (\<lambda>_.
     let candidates = Candidates s @ [incoming];
       s1 = s\<lparr>Candidates := candidates, cs_world := w,
         LastAuthoredBlock := (LastAuthoredBlock s)(who \<mapsto> cs_block_number s + cs_kick_threshold cfg)\<rparr>
     in Inr (cs_weight_register cfg (of_nat (length candidates)),
          cs_deposit_event (CandidateAdded who deposit) s1))))))))"

definition try_remove_candidate :: "('acc, 'v, 'w) cs_config \<Rightarrow> 'acc \<Rightarrow> ('acc, 'w) cs_state \<Rightarrow>
    (cs_error dispatch_error, nat \<times> ('acc, 'w) cs_state) result" where
  "try_remove_candidate cfg who s =
     rbind (ok_or (position (\<lambda>candidate. cand_who candidate = who) (Candidates s)) (Module NotCandidate)) (\<lambda>index.
     let candidate = Candidates s ! index;
       candidates = remove_at index (Candidates s);
       s1 = s\<lparr>Candidates := candidates, cs_world := cs_unreserve cfg who (cand_deposit candidate) (cs_world s),
         LastAuthoredBlock := (LastAuthoredBlock s)(who := None)\<rparr>
     in Inr (length candidates, cs_deposit_event (CandidateRemoved who) s1))"

definition leave_intent :: "('acc, 'v, 'w) cs_config \<Rightarrow> 'acc origin \<Rightarrow> ('acc, 'w) cs_state \<Rightarrow>
    (cs_error dispatch_error, weight \<times> ('acc, 'w) cs_state) result" where
  "leave_intent cfg origin s =
     rbind (ensure_signed origin) (\<lambda>who.
     rbind (ensure ((of_nat (length (Candidates s)) :: u32) > cs_min_candidates cfg) (Module TooFewCandidates)) (\<lambda>_.
     rbind (try_remove_candidate cfg who s) (\<lambda>(current_count, s1).
     Inr (cs_weight_leave cfg (of_nat current_count), s1))))"

section \<open>Sessions and authorship\<close>

definition assemble_collators :: "('acc, 'w) cs_state \<Rightarrow> 'acc list \<Rightarrow> 'acc list" where
  "assemble_collators s candidates = Invulnerables s @ candidates"

fun kick_stale_candidates :: "('acc, 'v, 'w) cs_config \<Rightarrow> 'acc candidate_info list \<Rightarrow> ('acc, 'w) cs_state \<Rightarrow>
    'acc list \<times> ('acc, 'w) cs_state" where
  "kick_stale_candidates cfg [] s = ([], s)"
| "kick_stale_candidates cfg (c # candidates) s =
     (let last_block = last_authored s (cand_who c);
        since_last = sat_sub (cs_block_number s) last_block
      in if since_last < cs_kick_threshold cfg \<or>
            (of_nat (length (Candidates s)) :: u32) \<le> cs_min_candidates cfg
         then (let (kept, s') = kick_stale_candidates cfg candidates s in (cand_who c # kept, s'))
         else kick_stale_candidates cfg candidates
           (case try_remove_candidate cfg (cand_who c) s of Inl _ \<Rightarrow> s | Inr (_, s1) \<Rightarrow> s1))"

definition cs_note_author :: "('acc, 'v, 'w) cs_config \<Rightarrow> 'acc \<Rightarrow> ('acc, 'w) cs_state \<Rightarrow> ('acc, 'w) cs_state" where
  "cs_note_author cfg author s =
     (let free = cs_free_balance cfg (cs_pot cfg) (cs_world s);
        reward = (if cs_minimum_balance cfg \<le> free then free - cs_minimum_balance cfg else 0) div 2;
        w = (case cs_transfer cfg (cs_pot cfg) author reward (cs_world s) of Inl _ \<Rightarrow> cs_world s | Inr w \<Rightarrow> w)
      in s\<lparr>cs_world := w, LastAuthoredBlock := (LastAuthoredBlock s)(author \<mapsto> cs_block_number s),
           cs_extra_weight := cs_extra_weight s @ [cs_weight_note_author cfg]\<rparr>)"

definition new_session :: "('acc, 'v, 'w) cs_config \<Rightarrow> ('acc, 'w) cs_state \<Rightarrow> 'acc list option \<times> ('acc, 'w) cs_state" where
  "new_session cfg s =
     (let candidates = Candidates s;
        candidates_len_before = length candidates;
        (active_candidates, s1) = kick_stale_candidates cfg candidates s;
        removed = candidates_len_before - length active_candidates;
        result = assemble_collators s1 active_candidates
      in (Some result, s1\<lparr>cs_extra_weight := cs_extra_weight s1 @
            [cs_weight_new_session cfg (of_nat candidates_len_before) (of_nat removed)]\<rparr>))"

section \<open>Removing a candidate\<close>

lemma try_remove_candidate_found:
  assumes "Candidates s = pre @ c # cs" "cand_who c \<notin> cand_who ` set pre"
  shows "try_remove_candidate cfg (cand_who c) s =
    Inr (length (pre @ cs), cs_deposit_event (CandidateRemoved (cand_who c))
      (s\<lparr>Candidates := pre @ cs, cs_world := cs_unreserve cfg (cand_who c) (cand_deposit c) (cs_world s),
         LastAuthoredBlock := (LastAuthoredBlock s)(cand_who c := None)\<rparr>))"
proof -
  have "position (\<lambda>candidate. cand_who candidate = cand_who c) (Candidates s) = Some (length pre)"
    unfolding assms(1) using assms(2) by (intro position_split) (auto simp: image_iff)
  then show ?thesis by (simp add: try_remove_candidate_def assms(1))
qed

lemma try_remove_candidate_Inr:
  assumes "try_remove_candidate cfg who s = Inr (n, s')"
  obtains pre c cs where "Candidates s = pre @ c # cs" "cand_who c = who" "who \<notin> cand_who ` set pre"
    "s' = cs_deposit_event (CandidateRemoved who)
      (s\<lparr>Candidates := pre @ cs, cs_world := cs_unreserve cfg who (cand_deposit c) (cs_world s),
         LastAuthoredBlock := (LastAuthoredBlock s)(who := None)\<rparr>)" "n = length (pre @ cs)"
proof -
  have "\<exists>c \<in> set (Candidates s). cand_who c = who"
    using assms by (cases "position (\<lambda>candidate. cand_who candidate = who) (Candidates s) = None")
      (auto simp: try_remove_candidate_def)
  from split_list_first_prop [OF this]
  obtain pre c' cs where split: "Candidates s = pre @ c' # cs" "cand_who c' = who" "who \<notin> cand_who ` set pre"
    by (auto simp: image_iff) metis
  then show thesis
    using assms try_remove_candidate_found [of s pre c' cs cfg] that by auto
qed

section \<open>Kicking stale candidates\<close>

definition stale :: "('acc, 'v, 'w) cs_config \<Rightarrow> ('acc, 'w) cs_state \<Rightarrow> 'acc candidate_info \<Rightarrow> bool" where
  "stale cfg s c \<longleftrightarrow> cs_kick_threshold cfg \<le> sat_sub (cs_block_number s) (last_authored s (cand_who c))"

text \<open>The reference: the first stale candidates, as many as leave the minimum.\<close>

definition kicked :: "('acc, 'v, 'w) cs_config \<Rightarrow> ('acc, 'w) cs_state \<Rightarrow> nat \<Rightarrow> 'acc candidate_info list \<Rightarrow>
    'acc candidate_info list" where
  "kicked cfg s n cs = take (n - unat (cs_min_candidates cfg)) (filter (stale cfg s) cs)"

definition unreserve_all :: "('acc, 'v, 'w) cs_config \<Rightarrow> 'acc candidate_info list \<Rightarrow> 'w \<Rightarrow> 'w" where
  "unreserve_all cfg cs w = fold (\<lambda>c. cs_unreserve cfg (cand_who c) (cand_deposit c)) cs w"

lemma set_kicked: "set (kicked cfg s n cs) \<subseteq> {c \<in> set cs. stale cfg s c}"
  by (auto simp: kicked_def dest!: in_set_takeD)

lemma kicked_Cons_kept:
  "\<not> (stale cfg s c \<and> unat (cs_min_candidates cfg) < n) \<Longrightarrow> kicked cfg s n (c # cs) = kicked cfg s n cs"
  by (auto simp: kicked_def)

text \<open>The state after a candidate has been removed.\<close>

abbreviation without_candidate :: "('acc, 'v, 'w) cs_config \<Rightarrow> 'acc candidate_info \<Rightarrow> 'acc candidate_info list \<Rightarrow> ('acc, 'w) cs_state \<Rightarrow> ('acc, 'w) cs_state" where
  "without_candidate cfg c cs s \<equiv> cs_deposit_event (CandidateRemoved (cand_who c))
     (s\<lparr>Candidates := cs, cs_world := cs_unreserve cfg (cand_who c) (cand_deposit c) (cs_world s),
        LastAuthoredBlock := (LastAuthoredBlock s)(cand_who c := None)\<rparr>)"

lemma kicked_Cons_removed:
  assumes "distinct (map cand_who (pre @ c # cs))" "stale cfg s c" "unat (cs_min_candidates cfg) < length (pre @ c # cs)"
  shows "kicked cfg s (length (pre @ c # cs)) (c # cs) = c # kicked cfg (without_candidate cfg c (pre @ cs) s) (length (pre @ cs)) cs"
proof -
  have "filter (stale cfg (without_candidate cfg c (pre @ cs) s)) cs = filter (stale cfg s) cs"
    using assms(1) by (intro filter_cong refl) (auto simp: stale_def last_authored_def cs_deposit_event_def image_iff)
  then show ?thesis using assms(2,3) by (auto simp: kicked_def Suc_diff_le)
qed

lemma kick_stale_candidates_eq:
  "Candidates s = pre @ cs \<Longrightarrow> distinct (map cand_who (pre @ cs)) \<Longrightarrow> length (pre @ cs) < 2 ^ 32 \<Longrightarrow>
     kick_stale_candidates cfg cs s = (kept, s') \<Longrightarrow>
     kept = map cand_who (filter (\<lambda>c. c \<notin> set (kicked cfg s (length (pre @ cs)) cs)) cs) \<and>
     Candidates s' = pre @ filter (\<lambda>c. c \<notin> set (kicked cfg s (length (pre @ cs)) cs)) cs \<and>
     cs_world s' = unreserve_all cfg (kicked cfg s (length (pre @ cs)) cs) (cs_world s) \<and>
     Invulnerables s' = Invulnerables s \<and> cs_block_number s' = cs_block_number s \<and>
     (\<forall>c \<in> set pre. LastAuthoredBlock s' (cand_who c) = LastAuthoredBlock s (cand_who c)) \<and>
     (\<forall>c \<in> set cs - set (kicked cfg s (length (pre @ cs)) cs).
        LastAuthoredBlock s' (cand_who c) = LastAuthoredBlock s (cand_who c))"
proof (induction cs arbitrary: s pre kept)
  case Nil
  then show ?case by (simp add: kicked_def unreserve_all_def)
next
  case (Cons c cs)
  let ?n = "length (pre @ c # cs)"
  have n: "unat (of_nat (length (Candidates s)) :: u32) = ?n"
    unfolding Cons.prems(1) by (rule unat_of_nat_u32 [OF Cons.prems(3)])
  have above: "\<not> (of_nat (length (Candidates s)) :: u32) \<le> cs_min_candidates cfg \<longleftrightarrow> unat (cs_min_candidates cfg) < ?n"
    unfolding word_le_nat_alt n by auto
  have c_new: "c \<notin> set cs" using Cons.prems(2) by auto
  show ?case
  proof (cases "stale cfg s c \<and> unat (cs_min_candidates cfg) < ?n")
    case False
    obtain kept' where k: "kick_stale_candidates cfg cs s = (kept', s')" "kept = cand_who c # kept'"
      using Cons.prems(4) False above
      by (auto simp: Let_def stale_def not_le [symmetric] split: prod.splits if_splits)
    have same: "kicked cfg s ?n (c # cs) = kicked cfg s (length ((pre @ [c]) @ cs)) cs"
      using kicked_Cons_kept [OF False] by simp
    have "c \<notin> set (kicked cfg s ?n cs)" using set_kicked c_new by fast
    with Cons.IH [of s "pre @ [c]" kept'] Cons.prems(1-3) k same show ?thesis by auto
  next
    case True
    let ?s1 = "without_candidate cfg c (pre @ cs) s"
    have "try_remove_candidate cfg (cand_who c) s = Inr (length (pre @ cs), ?s1)"
      using Cons.prems(1,2) by (intro try_remove_candidate_found) auto
    then have k: "kick_stale_candidates cfg cs ?s1 = (kept, s')"
      using Cons.prems(4) True above by (auto simp: Let_def stale_def not_le [symmetric])
    have same: "kicked cfg s ?n (c # cs) = c # kicked cfg ?s1 (length (pre @ cs)) cs"
      using True by (intro kicked_Cons_removed [OF Cons.prems(2)]) simp_all
    have other: "cand_who d \<noteq> cand_who c" if "d \<in> set pre \<union> set cs" for d
      using that Cons.prems(2) by (auto simp: image_iff)
    define ks where "ks = kicked cfg ?s1 (length (pre @ cs)) cs"
    have flt: "filter (\<lambda>d. d \<notin> set (c # ks)) (c # cs) = filter (\<lambda>d. d \<notin> set ks) cs"
      using c_new by (auto intro!: filter_cong)
    have IH: "kept = map cand_who (filter (\<lambda>d. d \<notin> set ks) cs) \<and> Candidates s' = pre @ filter (\<lambda>d. d \<notin> set ks) cs \<and>
        cs_world s' = unreserve_all cfg ks (cs_world ?s1) \<and> Invulnerables s' = Invulnerables ?s1 \<and>
        cs_block_number s' = cs_block_number ?s1 \<and>
        (\<forall>d \<in> set pre. LastAuthoredBlock s' (cand_who d) = LastAuthoredBlock ?s1 (cand_who d)) \<and>
        (\<forall>d \<in> set cs - set ks. LastAuthoredBlock s' (cand_who d) = LastAuthoredBlock ?s1 (cand_who d))"
      unfolding ks_def using Cons.prems(2,3) by (intro Cons.IH [OF _ _ _ k]) (auto simp: cs_deposit_event_def)
    show ?thesis
      unfolding same ks_def [symmetric] flt
      using IH other by (auto simp: cs_deposit_event_def unreserve_all_def)
  qed
qed

section \<open>The invariant\<close>

definition cs_inv :: "('acc, 'v, 'w) cs_config \<Rightarrow> ('acc, 'w) cs_state \<Rightarrow> bool" where
  "cs_inv cfg s \<longleftrightarrow>
     length (Candidates s) \<le> unat (cs_max_candidates cfg) \<and> distinct (map cand_who (Candidates s)) \<and>
     length (Invulnerables s) \<le> unat (cs_max_invulnerables cfg) \<and>
     list_all (\<lambda>c. LastAuthoredBlock s (cand_who c) \<noteq> None) (Candidates s)"

lemma cs_inv_small: "cs_inv cfg s \<Longrightarrow> length (Candidates s) < 2 ^ 32"
  unfolding cs_inv_def using unsigned_less [of "cs_max_candidates cfg", where 'a = nat] by simp

lemma kick_stale_candidates_result:
  assumes "cs_inv cfg s" "kick_stale_candidates cfg (Candidates s) s = (kept, s')"
  defines "ks \<equiv> kicked cfg s (length (Candidates s)) (Candidates s)"
  shows "kept = map cand_who (Candidates s')" "Candidates s' = filter (\<lambda>c. c \<notin> set ks) (Candidates s)"
    "cs_world s' = unreserve_all cfg ks (cs_world s)" "Invulnerables s' = Invulnerables s"
    "c \<in> set (Candidates s') \<Longrightarrow> LastAuthoredBlock s' (cand_who c) = LastAuthoredBlock s (cand_who c)"
  using kick_stale_candidates_eq [of s "[]" "Candidates s" cfg kept s'] assms cs_inv_small [OF assms(1)]
  by (auto simp: cs_inv_def)

lemma try_remove_candidate_inv:
  assumes "try_remove_candidate cfg who s = Inr (n, s')" "cs_inv cfg s"
  shows "cs_inv cfg s'"
proof (rule try_remove_candidate_Inr [OF assms(1)])
  fix pre c cs
  assume "Candidates s = pre @ c # cs" "cand_who c = who"
    "s' = cs_deposit_event (CandidateRemoved who)
      (s\<lparr>Candidates := pre @ cs, cs_world := cs_unreserve cfg who (cand_deposit c) (cs_world s),
         LastAuthoredBlock := (LastAuthoredBlock s)(who := None)\<rparr>)"
  then show ?thesis using assms(2) by (auto simp: cs_inv_def cs_deposit_event_def list_all_iff image_iff)
qed

lemma new_session_inv:
  assumes "cs_inv cfg s" "new_session cfg s = (collators, s')"
  shows "cs_inv cfg s'"
proof -
  obtain kept s1 where k: "kick_stale_candidates cfg (Candidates s) s = (kept, s1)" by fastforce
  then have s': "s' = s1\<lparr>cs_extra_weight := cs_extra_weight s'\<rparr>"
    using assms(2) by (auto simp: new_session_def Let_def)
  note result = kick_stale_candidates_result [OF assms(1) k]
  have "length (Candidates s1) \<le> length (Candidates s)" "set (Candidates s1) \<subseteq> set (Candidates s)"
    by (auto simp: result(2))
  then have "cs_inv cfg s1"
    using assms(1) result(2,4,5) 
    by (auto simp: cs_inv_def list_all_iff distinct_map_filter intro: order_trans [OF length_filter_le])
  then show ?thesis by (subst s') (simp add: cs_inv_def)
qed

text \<open>
  The states of the pallet: from genesis by its calls, sessions and authored blocks, while time passes and the
  rest of the runtime changes.
\<close>

inductive cs_reachable :: "('acc, 'v, 'w) cs_config \<Rightarrow> ('acc, 'w) cs_state \<Rightarrow> bool" for cfg where
  cs_start: "cs_genesis_build cfg invulnerables bond desired w = Some s \<Longrightarrow> cs_reachable cfg s"
| cs_invulnerables: "cs_reachable cfg s \<Longrightarrow> set_invulnerables cfg origin new s = Inr s' \<Longrightarrow> cs_reachable cfg s'"
| cs_desired: "cs_reachable cfg s \<Longrightarrow> set_desired_candidates cfg origin desired s = Inr s' \<Longrightarrow> cs_reachable cfg s'"
| cs_bond: "cs_reachable cfg s \<Longrightarrow> set_candidacy_bond cfg origin bond s = Inr s' \<Longrightarrow> cs_reachable cfg s'"
| cs_register: "cs_reachable cfg s \<Longrightarrow> register_as_candidate cfg origin s = Inr (weight, s') \<Longrightarrow> cs_reachable cfg s'"
| cs_leave: "cs_reachable cfg s \<Longrightarrow> leave_intent cfg origin s = Inr (weight, s') \<Longrightarrow> cs_reachable cfg s'"
| cs_author: "cs_reachable cfg s \<Longrightarrow> cs_reachable cfg (cs_note_author cfg author s)"
| cs_session: "cs_reachable cfg s \<Longrightarrow> new_session cfg s = (collators, s') \<Longrightarrow> cs_reachable cfg s'"
| cs_environment: "cs_reachable cfg s \<Longrightarrow> cs_reachable cfg (s\<lparr>cs_block_number := n, cs_world := w\<rparr>)"

lemmas cs_call_defs = cs_genesis_build_def set_invulnerables_def set_desired_candidates_def set_candidacy_bond_def
  register_as_candidate_def leave_intent_def cs_note_author_def cs_deposit_event_def

lemma register_as_candidate_Inr:
  "register_as_candidate cfg origin s = Inr (weight, s') \<longleftrightarrow>
     (\<exists>who w. origin = Signed who \<and> (of_nat (length (Candidates s)) :: u32) < DesiredCandidates s \<and>
        who \<notin> set (Invulnerables s) \<and> check_validator cfg (cs_world s) who = Inr () \<and>
        who \<notin> cand_who ` set (Candidates s) \<and> cs_reserve cfg who (CandidacyBond s) (cs_world s) = Inr w \<and>
        length (Candidates s) < unat (cs_max_candidates cfg) \<and>
        weight = cs_weight_register cfg (of_nat (Suc (length (Candidates s)))) \<and>
        s' = cs_deposit_event (CandidateAdded who (CandidacyBond s))
          (s\<lparr>Candidates := Candidates s @ [\<lparr>cand_who = who, cand_deposit = CandidacyBond s\<rparr>], cs_world := w,
             LastAuthoredBlock := (LastAuthoredBlock s)(who \<mapsto> cs_block_number s + cs_kick_threshold cfg)\<rparr>))"
  by (auto simp: register_as_candidate_def result_simps Let_def list_ex_iff image_iff)

lemma cs_reachable_inv: "cs_reachable cfg s \<Longrightarrow> cs_inv cfg s"
proof (induction rule: cs_reachable.induct)
  case (cs_register s origin weight s')
  then show ?case by (auto simp: register_as_candidate_Inr cs_inv_def cs_deposit_event_def list_all_iff)
next
  case (cs_leave s origin weight s')
  then show ?case by (auto simp: leave_intent_def result_simps intro: try_remove_candidate_inv)
next
  case (cs_session s collators s')
  then show ?case by (simp add: new_session_inv)
qed (auto simp: cs_call_defs cs_inv_def result_simps cs_ensure_update_def panic_simps Let_def list_all_iff)

text \<open>C27. In every reachable state the candidates and the invulnerables are within their bounds, no account is a
  candidate twice, and every candidate has a recorded block to count staleness from.\<close>

theorem cs_invariant:
  assumes "cs_reachable cfg s"
  shows "length (Candidates s) \<le> unat (cs_max_candidates cfg) \<and>
    length (Invulnerables s) \<le> unat (cs_max_invulnerables cfg) \<and>
    distinct (map cand_who (Candidates s)) \<and>
    list_all (\<lambda>c. LastAuthoredBlock s (cand_who c) \<noteq> None) (Candidates s)"
  using cs_reachable_inv [OF assms] by (simp add: cs_inv_def)

text \<open>Balances to evaluate with: accounts and validators are numbers, a deposit can always be reserved.\<close>

definition toy_cs :: "(nat, nat, nat \<Rightarrow> balance) cs_config" where
  "toy_cs = \<lparr>cs_reserve = (\<lambda>who amount w. Inr (w(who := w who + amount))),
     cs_unreserve = (\<lambda>who amount w. w(who := w who - amount)),
     cs_transfer = (\<lambda>_ _ _ w. Inr w), cs_free_balance = (\<lambda>_ _. 0), cs_minimum_balance = 1,
     cs_update_origin = (\<lambda>origin. origin = Root), cs_pot = 0, cs_max_candidates = 5, cs_min_candidates = 1,
     cs_max_invulnerables = 3, cs_kick_threshold = 10, cs_validator_id_of = (\<lambda>who _. Some who),
     cs_is_registered = (\<lambda>_ _. True), cs_weight_register = (\<lambda>_. 0), cs_weight_leave = (\<lambda>_. 0),
     cs_weight_note_author = 0, cs_weight_new_session = (\<lambda>_ _. 0)\<rparr>"

text \<open>Accounts 1 and 2 register in a chain with account 7 invulnerable and a bond of 20.\<close>

definition toy_cs_start :: "(nat, nat \<Rightarrow> balance) cs_state" where
  "toy_cs_start = \<lparr>Invulnerables = [7], Candidates = [], LastAuthoredBlock = Map.empty, DesiredCandidates = 4,
     CandidacyBond = 20, cs_block_number = 0, cs_extra_weight = [], cs_events = [], cs_world = (\<lambda>_. 0)\<rparr>"

definition toy_cs_state :: "(nat, nat \<Rightarrow> balance) cs_state" where
  "toy_cs_state = snd (projr (register_as_candidate toy_cs (Signed 2)
     (snd (projr (register_as_candidate toy_cs (Signed 1) toy_cs_start)))))"

lemma toy_cs_registers:
  "\<exists>r. register_as_candidate toy_cs (Signed 1) toy_cs_start = Inr r"
  "\<exists>r. register_as_candidate toy_cs (Signed 2) (snd (projr (register_as_candidate toy_cs (Signed 1) toy_cs_start))) = Inr r"
proof -
  have ok: "check_validator toy_cs w who = Inr ()" for w who
    by (simp add: check_validator_def toy_cs_def)
  show "\<exists>r. register_as_candidate toy_cs (Signed 1) toy_cs_start = Inr r"
    by (simp add: register_as_candidate_def ok toy_cs_start_def Let_def) (simp add: toy_cs_def)
  show "\<exists>r. register_as_candidate toy_cs (Signed 2) (snd (projr (register_as_candidate toy_cs (Signed 1) toy_cs_start))) = Inr r"
    by (simp add: register_as_candidate_def ok toy_cs_start_def Let_def cs_deposit_event_def)
      (simp add: toy_cs_def)
qed

lemma toy_cs_state_reachable: "cs_reachable toy_cs toy_cs_state"
proof -
  have "cs_reachable toy_cs toy_cs_start"
    by (rule cs_start [of _ "[7]" 20 4 "\<lambda>_. 0"]) (simp add: cs_genesis_build_def toy_cs_def toy_cs_start_def)
  then show ?thesis
    using toy_cs_registers cs_register unfolding toy_cs_state_def by (metis prod.collapse sum.sel(2))
qed

theorem cs_invariant_witness:
  "length (Candidates toy_cs_state) \<le> unat (cs_max_candidates toy_cs) \<and> distinct (map cand_who (Candidates toy_cs_state))"
  using cs_invariant [OF toy_cs_state_reachable] by simp

text \<open>C19. At a session change exactly the first stale candidates are removed, as many as leave the minimum
  number, and their deposits are returned; the new collators are the invulnerables and the remaining
  candidates, in their order.\<close>

theorem new_session_kicks:
  assumes "cs_reachable cfg s"
  defines "ks \<equiv> take (length (Candidates s) - unat (cs_min_candidates cfg)) (filter (stale cfg s) (Candidates s))"
  shows "\<exists>s'. new_session cfg s = (Some (Invulnerables s @ map cand_who (Candidates s')), s') \<and>
    Candidates s' = filter (\<lambda>c. c \<notin> set ks) (Candidates s) \<and>
    cs_world s' = fold (\<lambda>c. cs_unreserve cfg (cand_who c) (cand_deposit c)) ks (cs_world s) \<and>
    min (length (Candidates s)) (unat (cs_min_candidates cfg)) \<le> length (Candidates s')"
proof -
  obtain kept s1 where k: "kick_stale_candidates cfg (Candidates s) s = (kept, s1)" by fastforce
  note inv = cs_reachable_inv [OF assms(1)]
  note result = kick_stale_candidates_result [OF inv k, folded ks_def kicked_def, unfolded kicked_def, folded ks_def]
  have "distinct (Candidates s)" using inv by (simp add: cs_inv_def distinct_map)
  then have "length (Candidates s) = card (set (Candidates s))" "length (Candidates s1) = card (set (Candidates s1))"
    using distinct_card [of "Candidates s"] distinct_card [of "Candidates s1"] by (simp_all add: result(2))
  moreover have "card (set ks) \<le> length (Candidates s) - unat (cs_min_candidates cfg)"
    by (rule order_trans [OF card_length]) (simp add: ks_def)
  moreover have "card (set (Candidates s)) - card (set ks) \<le> card (set (Candidates s1))"
    by (simp add: result(2) set_diff_eq [symmetric] diff_card_le_card_Diff)
  ultimately have "min (length (Candidates s)) (unat (cs_min_candidates cfg)) \<le> length (Candidates s1)"
    by linarith
  then show ?thesis
    using k result(1-4) by (simp add: new_session_def Let_def assemble_collators_def unreserve_all_def)
qed

theorem new_session_kicks_witness:
  "\<exists>s'. new_session toy_cs (toy_cs_state\<lparr>cs_block_number := 30, cs_world := cs_world toy_cs_state\<rparr>) =
     (Some ([7] @ map cand_who (Candidates s')), s') \<and> map cand_who (Candidates s') = [2]"
proof -
  let ?s = "toy_cs_state\<lparr>cs_block_number := 30, cs_world := cs_world toy_cs_state\<rparr>"
  have inv: "Invulnerables ?s = [7]" by code_simp
  have "map cand_who (filter (\<lambda>c. c \<notin> set (take (length (Candidates ?s) - unat (cs_min_candidates toy_cs))
      (filter (stale toy_cs ?s) (Candidates ?s)))) (Candidates ?s)) = [2]" by code_simp
  then show ?thesis
    using new_session_kicks [OF cs_environment [OF toy_cs_state_reachable, where n = 30 and w = "cs_world toy_cs_state"]] inv
    by fastforce
qed

text \<open>Invulnerability and candidacy are not kept apart: an update can make a candidate invulnerable and
  leaves it among the candidates, and the next session then has it as collator twice while it is not stale.\<close>

theorem set_invulnerables_duplicates_collator:
  assumes "cs_reachable cfg s" "set_invulnerables cfg origin new s = Inr s1" "c \<in> set (Candidates s)"
    and "cand_who c \<in> set new" "\<not> stale cfg s c" "new_session cfg s1 = (Some collators, s2)"
  shows "\<not> distinct collators"
proof -
  have s1: "Invulnerables s1 = new" "Candidates s1 = Candidates s" "stale cfg s1 c = stale cfg s c"
    using assms(2) by (auto simp: set_invulnerables_def result_simps cs_ensure_update_def cs_deposit_event_def
        stale_def last_authored_def)
  have "cs_inv cfg s1" using cs_reachable_inv cs_invulnerables [OF assms(1,2)] by blast
  obtain kept s' where k: "kick_stale_candidates cfg (Candidates s1) s1 = (kept, s')" by fastforce
  note result = kick_stale_candidates_result [OF \<open>cs_inv cfg s1\<close> k]
  have "c \<notin> set (kicked cfg s1 (length (Candidates s1)) (Candidates s1))"
    using set_kicked [of cfg s1 "length (Candidates s1)" "Candidates s1"] assms(5) s1(3) by auto
  then have "cand_who c \<in> set kept" using result(1,2) assms(3) s1(2) by auto
  moreover have "collators = new @ kept"
    using assms(6) k result(4) s1(1) by (auto simp: new_session_def Let_def assemble_collators_def)
  ultimately show ?thesis using assms(4) by auto
qed

theorem set_invulnerables_duplicates_collator_witness:
  "\<exists>s1 s2 collators. set_invulnerables toy_cs Root [2, 7] toy_cs_state = Inr s1 \<and>
     new_session toy_cs s1 = (Some collators, s2) \<and> \<not> distinct collators"
proof -
  define s1 where "s1 = cs_deposit_event (NewInvulnerables [2, 7]) (toy_cs_state\<lparr>Invulnerables := [2, 7]\<rparr>)"
  have s1: "set_invulnerables toy_cs Root [2, 7] toy_cs_state = Inr s1"
    by (simp add: set_invulnerables_def cs_ensure_update_def check_validator_def toy_cs_def s1_def)
  obtain collators s2 where s2: "new_session toy_cs s1 = (Some collators, s2)"
    by (cases "new_session toy_cs s1") (auto simp: new_session_def Let_def split: prod.splits)
  have "\<lparr>cand_who = 2, cand_deposit = 20\<rparr> \<in> set (Candidates toy_cs_state)" by code_simp
  moreover have "\<not> stale toy_cs toy_cs_state \<lparr>cand_who = 2, cand_deposit = 20\<rparr>" by code_simp
  ultimately have "\<not> distinct collators"
    using set_invulnerables_duplicates_collator [OF toy_cs_state_reachable s1 _ _ _ s2] by fastforce
  then show ?thesis using s1 s2 by blast
qed

end
