(* ===== verification/Solo_To_Para.thy ===== *)
theory Solo_To_Para
  imports Parachain_Blocks
begin

text \<open>
  The pallet that moves a solo chain to a parachain, \<^verbatim>\<open>src/pallets/solo-to-para/src/lib.rs\<close>.  It runs over
  the parachain system: its storage is in the world of that pallet's state, and its hook is the hook of
  \<open>psys_config\<close> for applied code.
\<close>

section \<open>Operations\<close>

datatype solo_event = CustomValidationHeadDataStored | CustomValidationHeadDataApplied

record 'w solo_state =
  PendingCustomValidationHeadData :: "bytes option"
  solo_events :: "solo_event list"
  solo_world :: 'w

definition solo_update :: "('w solo_state \<Rightarrow> 'w solo_state) \<Rightarrow> ('p, 'w solo_state) psys_state \<Rightarrow>
    ('p, 'w solo_state) psys_state" where
  "solo_update f s = s\<lparr>psys_world := f (psys_world s)\<rparr>"

definition store_pending_custom_validation_head_data :: "bytes \<Rightarrow> ('p, 'w solo_state) psys_state \<Rightarrow>
    ('p, 'w solo_state) psys_state" where
  "store_pending_custom_validation_head_data head_data s =
     solo_update (\<lambda>t. t\<lparr>PendingCustomValidationHeadData := Some head_data,
       solo_events := solo_events t @ [CustomValidationHeadDataStored]\<rparr>) s"

definition schedule_migration :: "'acc origin \<Rightarrow> bytes \<Rightarrow> bytes \<Rightarrow> ('p, 'w solo_state) psys_state \<Rightarrow>
    (psys_error dispatch_error, ('p, 'w solo_state) psys_state) result" where
  "schedule_migration origin code head_data s =
     rbind (ensure_root origin) (\<lambda>_.
     rbind (schedule_code_upgrade code s) (\<lambda>s1.
     Inr (store_pending_custom_validation_head_data head_data s1)))"

definition set_pending_custom_validation_head_data :: "('p, 'w solo_state) psys_state \<Rightarrow>
    ('p, 'w solo_state) psys_state" where
  "set_pending_custom_validation_head_data s =
     (case PendingCustomValidationHeadData (psys_world s) of
        Some head_data \<Rightarrow>
          solo_update (\<lambda>t. t\<lparr>solo_events := solo_events t @ [CustomValidationHeadDataApplied]\<rparr>)
            (set_custom_validation_head_data head_data
               (solo_update (\<lambda>t. t\<lparr>PendingCustomValidationHeadData := None\<rparr>) s))
      | None \<Rightarrow> s)"

definition solo_on_validation_data :: "persisted_validation_data \<Rightarrow> ('p, 'w solo_state) psys_state \<Rightarrow>
    ('p, 'w solo_state) psys_state option" where
  "solo_on_validation_data _ s = Some s"

definition solo_on_validation_code_applied :: "('p, 'w solo_state) psys_state \<Rightarrow>
    ('p, 'w solo_state) psys_state option" where
  "solo_on_validation_code_applied s = Some (set_pending_custom_validation_head_data s)"

datatype signed_validity_error = BadSigner

definition check_sudo_validate :: "'acc option \<Rightarrow> 'acc \<Rightarrow> weight \<Rightarrow> (signed_validity_error, valid_transaction) result" where
  "check_sudo_validate sudo_key who call_weight =
     (case sudo_key of
        None \<Rightarrow> Inl BadSigner
      | Some root_account \<Rightarrow>
          if who = root_account then
            Inr (default_valid_transaction\<lparr>tx_priority := call_weight, tx_longevity := - 1, tx_propagate := True\<rparr>)
          else Inl BadSigner)"

definition check_sudo_pre_dispatch :: "'acc option \<Rightarrow> 'acc \<Rightarrow> weight \<Rightarrow> (signed_validity_error, unit) result" where
  "check_sudo_pre_dispatch sudo_key who call_weight =
     rbind (check_sudo_validate sudo_key who call_weight) (\<lambda>_. Inr ())"

section \<open>What the hook and the handlers keep\<close>

text \<open>A parachain system with this pallet's hooks whose message handlers leave the pallet's storage and the
  custom head data alone.\<close>

definition solo_runtime :: "('p, 'w solo_state) psys_config \<Rightarrow> bool" where
  "solo_runtime cfg \<longleftrightarrow>
     ps_on_validation_data cfg = solo_on_validation_data \<and>
     ps_on_validation_code_applied cfg = solo_on_validation_code_applied \<and>
     (\<forall>ms limit s n w s'. ps_handle_dmp_messages cfg ms limit s = Some (n, w, s') \<longrightarrow>
        CustomValidationHeadData s' = CustomValidationHeadData s \<and>
        PendingCustomValidationHeadData (psys_world s') = PendingCustomValidationHeadData (psys_world s)) \<and>
     (\<forall>ms limit s w s'. ps_handle_xcmp_messages cfg ms limit s = Some (w, s') \<longrightarrow>
        CustomValidationHeadData s' = CustomValidationHeadData s \<and>
        PendingCustomValidationHeadData (psys_world s') = PendingCustomValidationHeadData (psys_world s))"

lemma solo_runtimeD:
  assumes "solo_runtime cfg"
  shows "ps_on_validation_data cfg = solo_on_validation_data"
    and "ps_on_validation_code_applied cfg = solo_on_validation_code_applied"
    and "ps_handle_dmp_messages cfg ms limit s = Some (n, w, s') \<Longrightarrow>
      CustomValidationHeadData s' = CustomValidationHeadData s \<and>
      PendingCustomValidationHeadData (psys_world s') = PendingCustomValidationHeadData (psys_world s)"
    and "ps_handle_xcmp_messages cfg hms limit s = Some (w, s') \<Longrightarrow>
      CustomValidationHeadData s' = CustomValidationHeadData s \<and>
      PendingCustomValidationHeadData (psys_world s') = PendingCustomValidationHeadData (psys_world s)"
  using assms unfolding solo_runtime_def by blast+

definition head_data_of :: "('p, 'w solo_state) psys_state \<Rightarrow> bytes option \<times> bytes option" where
  "head_data_of s = (CustomValidationHeadData s, PendingCustomValidationHeadData (psys_world s))"

lemma process_downward_head_data:
  assumes "solo_runtime cfg" "process_inbound_downward_messages cfg expected ms s = Some (w, s')"
  shows "head_data_of s' = head_data_of s"
  using assms(2) solo_runtimeD(3) [OF assms(1)]
  by (fastforce simp: process_inbound_downward_messages_def Let_def panic_simps psys_deposit_event_def head_data_of_def
      split: if_splits)

lemma process_horizontal_head_data:
  assumes "solo_runtime cfg" "process_inbound_horizontal_messages cfg ingress ms n s = Some (w, s')"
  shows "head_data_of s' = head_data_of s"
  using assms(2) solo_runtimeD(4) [OF assms(1)]
  by (fastforce simp: process_inbound_horizontal_messages_def Let_def panic_simps head_data_of_def split: prod.splits)

lemma inherent_head_data:
  assumes "solo_runtime cfg" "set_validation_data cfg origin data s = Some (Inr (w, s'))"
  shows "head_data_of s' =
    (case (proven_go_ahead cfg data, PendingCustomValidationHeadData (psys_world s)) of
       (Some (Some GoAhead), Some h) \<Rightarrow> (Some h, None)
     | _ \<Rightarrow> head_data_of s)"
proof (rule set_validation_data_steps [OF assms(2)])
  fix signal s2 restriction hc snap s4 w1 s5 w2
  assume s2: "apply_go_ahead_signal cfg (pvd_relay_parent_number (validation_data data)) signal
      (s\<lparr>LastRelayChainBlockNumber := pvd_relay_parent_number (validation_data data)\<rparr>) = Some s2"
    and signal: "proven_go_ahead cfg data = Some signal"
    and s4: "ps_on_validation_data cfg (validation_data data)
       (s2\<lparr>UpgradeRestrictionSignal := restriction, ValidationData := Some (validation_data data),
          RelayStateProof := Some (relay_chain_state data), RelevantMessagingState := Some snap,
          HostConfiguration := Some hc\<rparr>) = Some s4"
    and s5: "process_inbound_downward_messages cfg (dmq_mqc_head snap) (downward_messages data) s4 = Some (w1, s5)"
    and s6: "process_inbound_horizontal_messages cfg (ingress_channels snap) (horizontal_messages data)
       (pvd_relay_parent_number (validation_data data)) s5 = Some (w2, s')"
  have "head_data_of s4 = head_data_of s2"
    using s4 by (auto simp: solo_runtimeD(1) [OF assms(1)] solo_on_validation_data_def head_data_of_def)
  then have "head_data_of s' = head_data_of s2"
    using process_horizontal_head_data [OF assms(1) s6] process_downward_head_data [OF assms(1) s5] by simp
  then show ?thesis
    using s2 unfolding signal
    by (auto simp: apply_go_ahead_signal_def solo_runtimeD(2) [OF assms(1)] solo_on_validation_code_applied_def
        set_pending_custom_validation_head_data_def set_custom_validation_head_data_def solo_update_def
        psys_deposit_event_def head_data_of_def panic_simps Let_def
        split: option.splits upgrade_go_ahead.splits)
qed

section \<open>An example\<close>

definition toy_solo :: "((bytes \<times> bytes) list, nat solo_state) psys_config" where
  "toy_solo = example_psys\<lparr>ps_on_validation_data := solo_on_validation_data,
     ps_on_validation_code_applied := solo_on_validation_code_applied\<rparr>"

definition toy_solo_start :: "((bytes \<times> bytes) list, nat solo_state) psys_state" where
  "toy_solo_start =
     (psys_genesis [41] \<lparr>PendingCustomValidationHeadData = None, solo_events = [], solo_world = 0\<rparr>)
       \<lparr>ValidationData := Some (validation_data toy_inherent), HostConfiguration := Some toy_host_configuration\<rparr>"

definition toy_signal :: "u8 \<Rightarrow> (bytes \<times> bytes) list parachain_inherent_data" where
  "toy_signal b = toy_inherent\<lparr>relay_chain_state := ([8, 9], [b]) # toy_proof\<rparr>"

lemma toy_solo_ok: "solo_runtime toy_solo" "psys_frames toy_solo"
proof -
  show "solo_runtime toy_solo" by (simp add: solo_runtime_def toy_solo_def example_psys_def)
  show "psys_frames toy_solo"
    by (auto simp: psys_frames_def toy_solo_def example_psys_def solo_on_validation_data_def
        solo_on_validation_code_applied_def set_pending_custom_validation_head_data_def
        set_custom_validation_head_data_def solo_update_def psys_private_def split: option.splits)
qed

lemma toy_signals:
  "proven_go_ahead toy_solo (toy_signal 1) = Some (Some GoAhead)"
  "proven_go_ahead toy_solo (toy_signal 0) = Some (Some Abort)"
  by code_simp+

section \<open>The migration\<close>

text \<open>A scheduled migration switches code and head together: the block whose relay parent gives the go-ahead
  runs with the scheduled code from then on and returns the scheduled head data, once.\<close>

theorem solo_migration_switches_head:
  assumes "solo_runtime cfg" "psys_frames cfg"
    and "schedule_migration origin code head s = Inr s1"
    and "PendingValidationCode t = PendingValidationCode s1" "psys_world t = psys_world s1"
    and "proven_go_ahead cfg data = Some (Some GoAhead)"
    and "set_validation_data cfg origin' data t = Some (Inr (w, t'))"
  shows "psys_code t' = code \<and> ci_head_data (collect_collation_info enc header t') = head \<and>
    PendingCustomValidationHeadData (psys_world t') = None"
proof -
  have pending: "PendingValidationCode t = Some code" "PendingCustomValidationHeadData (psys_world t) = Some head"
    using assms(3-5) by (auto simp: schedule_migration_def result_simps schedule_code_upgrade_Inr
        store_pending_custom_validation_head_data_def solo_update_def)
  show ?thesis
    using inherent_head_data [OF assms(1,7)] inherent_code [OF assms(7,2)] assms(6) pending
    by (simp add: head_data_of_def collect_collation_info_def)
qed

theorem solo_migration_switches_head_witness:
  "\<exists>s1 t'. schedule_migration (Root :: nat origin) [42] [9, 9] toy_solo_start = Inr s1 \<and>
     (\<exists>w. set_validation_data toy_solo (NoneOrigin :: nat origin) (toy_signal 1) (s1\<lparr>ValidationData := None\<rparr>) =
        Some (Inr (w, t'))) \<and>
     psys_code t' = [42] \<and> ci_head_data (collect_collation_info (\<lambda>h. h) [1] t') = [9, 9]"
proof -
  have "case schedule_migration (Root :: nat origin) [42] [9, 9] toy_solo_start of
      Inr s1 \<Rightarrow> accepted (set_validation_data toy_solo (NoneOrigin :: nat origin) (toy_signal 1) (s1\<lparr>ValidationData := None\<rparr>))
    | Inl _ \<Rightarrow> False" by code_simp
  then obtain s1 w t' where s1: "schedule_migration (Root :: nat origin) [42] [9, 9] toy_solo_start = Inr s1"
    and t': "set_validation_data toy_solo (NoneOrigin :: nat origin) (toy_signal 1) (s1\<lparr>ValidationData := None\<rparr>) =
      Some (Inr (w, t'))"
    by (auto simp: accepted_iff split: sum.splits)
  have "psys_code t' = [42] \<and> ci_head_data (collect_collation_info (\<lambda>h. h) [1] t') = [9, 9] \<and>
      PendingCustomValidationHeadData (psys_world t') = None"
    by (rule solo_migration_switches_head [OF toy_solo_ok s1 _ _ toy_signals(1) t']) simp_all
  then show ?thesis using s1 t' by blast
qed

text \<open>When the relay chain aborts the upgrade of a migration, the head data stays scheduled: the next
  upgrade that gets the go-ahead, whatever its code, replaces the head with it.\<close>

theorem solo_abort_keeps_head:
  assumes "solo_runtime cfg" "psys_frames cfg"
    and "PendingCustomValidationHeadData (psys_world s) = Some head"
    and "proven_go_ahead cfg data = Some (Some Abort)" "set_validation_data cfg origin data s = Some (Inr (w, s1))"
    and "PendingCustomValidationHeadData (psys_world t) = PendingCustomValidationHeadData (psys_world s1)"
    and "PendingValidationCode t = Some other_code"
    and "proven_go_ahead cfg data' = Some (Some GoAhead)" "set_validation_data cfg origin' data' t = Some (Inr (w', t'))"
  shows "psys_code t' = other_code \<and> ci_head_data (collect_collation_info enc header t') = head"
proof -
  have "PendingCustomValidationHeadData (psys_world t) = Some head"
    using inherent_head_data [OF assms(1,5)] assms(3,4,6) by (simp add: head_data_of_def)
  then show ?thesis
    using inherent_head_data [OF assms(1,9)] inherent_code [OF assms(9,2)] assms(7,8)
    by (simp add: head_data_of_def collect_collation_info_def)
qed

theorem solo_abort_keeps_head_witness:
  "\<exists>t'. psys_code t' = [43] \<and> ci_head_data (collect_collation_info (\<lambda>h. h) [1] t') = [9, 9] \<and>
     (\<exists>s1 s2 w w'. schedule_migration (Root :: nat origin) [42] [9, 9] toy_solo_start = Inr s1 \<and>
        set_validation_data toy_solo (NoneOrigin :: nat origin) (toy_signal 0) (s1\<lparr>ValidationData := None\<rparr>) =
          Some (Inr (w, s2)) \<and>
        set_validation_data toy_solo (NoneOrigin :: nat origin) (toy_signal 1)
          (toy_solo_start\<lparr>ValidationData := None, PendingValidationCode := Some [43], psys_world := psys_world s2\<rparr>) =
          Some (Inr (w', t')))"
proof -
  let ?t = "\<lambda>s2. toy_solo_start\<lparr>ValidationData := None, PendingValidationCode := Some [43], psys_world := psys_world s2\<rparr>"
  have "case schedule_migration (Root :: nat origin) [42] [9, 9] toy_solo_start of
      Inr s1 \<Rightarrow> PendingCustomValidationHeadData (psys_world s1) = Some [9, 9] \<and>
       (let r = set_validation_data toy_solo (NoneOrigin :: nat origin) (toy_signal 0) (s1\<lparr>ValidationData := None\<rparr>) in
        accepted r \<and>
        accepted (set_validation_data toy_solo (NoneOrigin :: nat origin) (toy_signal 1) (?t (snd (projr (the r))))))
    | Inl _ \<Rightarrow> False" by code_simp
  then obtain s1 w s2 w' t' where s1: "schedule_migration (Root :: nat origin) [42] [9, 9] toy_solo_start = Inr s1"
      "PendingCustomValidationHeadData (psys_world (s1\<lparr>ValidationData := None\<rparr>)) = Some [9, 9]"
    and s2: "set_validation_data toy_solo (NoneOrigin :: nat origin) (toy_signal 0) (s1\<lparr>ValidationData := None\<rparr>) =
      Some (Inr (w, s2))"
    and t': "set_validation_data toy_solo (NoneOrigin :: nat origin) (toy_signal 1) (?t s2) = Some (Inr (w', t'))"
    by (auto simp: accepted_iff Let_def split: sum.splits)
  have "psys_code t' = [43] \<and> ci_head_data (collect_collation_info (\<lambda>h. h) [1] t') = [9, 9]"
    by (rule solo_abort_keeps_head [OF toy_solo_ok s1(2) toy_signals(2) s2 _ _ toy_signals(1) t']) simp_all
  then show ?thesis using s1 s2 t' by blast
qed

end
