(* ===== verification/Asset_Trader.thy ===== *)
theory Asset_Trader
  imports Xcm_Interface
begin

text \<open>
  \<^verbatim>\<open>src/primitives/utility/src/lib.rs\<close>: the router that sends messages for the relay chain upward, and
  the trader that sells execution weight for the first asset of a payment and refunds what is not used.
\<close>

section \<open>The router\<close>

definition contains_parents_only :: "u8 \<Rightarrow> multi_location \<Rightarrow> bool" where
  "contains_parents_only n loc = (case loc of MultiLocation parents interior \<Rightarrow> interior = [] \<and> parents = n)"

definition parent_as_ump :: "(multi_location \<Rightarrow> 'm \<Rightarrow> 's \<Rightarrow> 'u option \<times> 's) \<Rightarrow> ('u \<Rightarrow> bytes) \<Rightarrow>
    (bytes \<Rightarrow> 's \<Rightarrow> (message_send_error, u32 \<times> 's) result) \<Rightarrow> multi_location \<Rightarrow> 'm \<Rightarrow> 's \<Rightarrow>
    ((multi_location, 'm) send_error, unit) result \<times> 's" where
  "parent_as_ump wrap_version encode send dest msg s =
     (if contains_parents_only 1 dest then
        (case wrap_version dest msg s of
           (None, s1) \<Rightarrow> (Inl DestinationUnsupported, s1)
         | (Some versioned_xcm, s1) \<Rightarrow>
             (case send (encode versioned_xcm) s1 of
                Inl e \<Rightarrow> (Inl (Transport (message_send_error_str e)), s1)
              | Inr (_, s2) \<Rightarrow> (Inr (), s2)))
      else (Inl (CannotReachDestination dest msg), s))"

section \<open>The trader\<close>

type_synonym u128 = "128 word"

datatype fungibility = Fungible u128 | NonFungible nat

record 'i multi_asset =
  asset_id :: 'i
  asset_fun :: fungibility

record 'i asset_trader_refunder =
  weight_outstanding :: weight
  outstanding_concrete_asset :: "'i multi_asset"

type_synonym 'i trader = "'i asset_trader_refunder option"

text \<open>
  \<open>'i\<close> is the id of an asset in XCM, \<open>'a\<close> its local id, \<open>'b\<close> a balance and
  \<open>'h\<close> a holding of assets.
\<close>

record ('i, 'a, 'b, 'h) trader_config =
  tr_assets_of :: "'h \<Rightarrow> 'i multi_asset list"
  tr_checked_sub :: "'h \<Rightarrow> 'i multi_asset \<Rightarrow> 'h option"
  tr_matches_fungibles :: "'i multi_asset \<Rightarrow> ('a \<times> 'b) option"
  tr_charge :: "'a \<Rightarrow> weight \<Rightarrow> (xcm_error, 'b) result"
  tr_minimum_balance :: "'a \<Rightarrow> 'b"

definition try_into_u128 :: "'b::len word \<Rightarrow> u128 option" where
  "try_into_u128 b = (if uint b < 2 ^ 128 then Some (ucast b) else None)"

definition saturated_into_u128 :: "'b::len word \<Rightarrow> u128" where
  "saturated_into_u128 b = (if uint b < 2 ^ 128 then ucast b else - 1)"

definition trader_new :: "'i trader" where
  "trader_new = None"

definition buy_weight :: "('i, 'a, 'b::len word, 'h) trader_config \<Rightarrow> weight \<Rightarrow> 'h \<Rightarrow> 'i trader \<Rightarrow>
    (xcm_error, 'h \<times> 'i trader) result" where
  "buy_weight cfg weight payment self =
     rbind (ensure (self = None) NotWithdrawable) (\<lambda>_.
     rbind (ok_or (case tr_assets_of cfg payment of [] \<Rightarrow> None | a # _ \<Rightarrow> Some a) AssetNotFound) (\<lambda>first.
     rbind (ok_or (tr_matches_fungibles cfg first) AssetNotFound) (\<lambda>(local_asset_id, _).
     rbind (tr_charge cfg local_asset_id weight) (\<lambda>amount.
     let minimum_balance = tr_minimum_balance cfg local_asset_id;
       charged = (if amount < minimum_balance then minimum_balance else amount) in
     rbind (ok_or (try_into_u128 charged) XcmOverflow) (\<lambda>asset_balance.
     let required = \<lparr>asset_id = asset_id first, asset_fun = Fungible asset_balance\<rparr> in
     rbind (ok_or (tr_checked_sub cfg payment required) TooExpensive) (\<lambda>unused.
     Inr (unused, Some \<lparr>weight_outstanding = weight, outstanding_concrete_asset = required\<rparr>)))))))"

definition refund_weight :: "('i, 'a, 'b::len word, 'h) trader_config \<Rightarrow> weight \<Rightarrow> 'i trader \<Rightarrow>
    'i multi_asset option \<times> 'i trader" where
  "refund_weight cfg weight self =
     (case self of
        None \<Rightarrow> (None, None)
      | Some r \<Rightarrow>
          let outstanding = outstanding_concrete_asset r;
            weight = min weight (weight_outstanding r) in
          case tr_matches_fungibles cfg outstanding of
            None \<Rightarrow> (None, self)
          | Some (local_asset_id, outstanding_balance) \<Rightarrow>
              let minimum_balance = tr_minimum_balance cfg local_asset_id in
              case tr_charge cfg local_asset_id weight of
                Inl _ \<Rightarrow> (None, self)
              | Inr charge \<Rightarrow>
                  let (asset_balance, left) =
                        (if sat_sub outstanding_balance charge > minimum_balance
                         then (charge, sat_sub outstanding_balance charge)
                         else (sat_sub outstanding_balance minimum_balance, minimum_balance));
                    left = saturated_into_u128 left;
                    asset_balance = saturated_into_u128 asset_balance;
                    self' = Some \<lparr>weight_outstanding = sat_sub (weight_outstanding r) weight,
                      outstanding_concrete_asset = \<lparr>asset_id = asset_id outstanding, asset_fun = Fungible left\<rparr>\<rparr>
                  in (if asset_balance > 0
                      then Some \<lparr>asset_id = asset_id outstanding, asset_fun = Fungible asset_balance\<rparr>
                      else None, self'))"

text \<open>What the trader hands to the receiver of revenue when it is dropped.\<close>

definition trader_drop :: "'i trader \<Rightarrow> 'i multi_asset option" where
  "trader_drop self = map_option outstanding_concrete_asset self"

definition take_revenue :: "('i multi_asset \<Rightarrow> 'acc \<Rightarrow> 'w \<Rightarrow> 'w option) \<Rightarrow> 'acc option \<Rightarrow> 'i multi_asset \<Rightarrow> 'w \<Rightarrow> 'w" where
  "take_revenue deposit_asset receiver revenue w =
     (case receiver of
        None \<Rightarrow> w
      | Some acc \<Rightarrow> (case deposit_asset revenue acc w of None \<Rightarrow> w | Some w' \<Rightarrow> w'))"

section \<open>What is bought is refunded or revenue\<close>

text \<open>How much there is of the asset with an id.\<close>

fun amount_of :: "'i \<Rightarrow> 'i multi_asset option \<Rightarrow> nat" where
  "amount_of i None = 0"
| "amount_of i (Some a) = (if asset_id a = i then case asset_fun a of Fungible n \<Rightarrow> unat n | NonFungible _ \<Rightarrow> 0 else 0)"

text \<open>A sequence of refunds, with what was refunded in total of the asset with an id.\<close>

fun refunds :: "('i, 'a, 'b::len word, 'h) trader_config \<Rightarrow> 'i \<Rightarrow> weight list \<Rightarrow> 'i trader \<Rightarrow> nat \<times> 'i trader" where
  "refunds cfg i [] self = (0, self)"
| "refunds cfg i (w # ws) self =
     (case refund_weight cfg w self of (a, self') \<Rightarrow>
        case refunds cfg i ws self' of (n, self'') \<Rightarrow> (amount_of i a + n, self''))"

text \<open>A matcher gives the local id by the asset's id alone and the amount unchanged.\<close>

definition matcher_exact :: "('i, 'a, u128, 'h) trader_config \<Rightarrow> bool" where
  "matcher_exact cfg \<longleftrightarrow>
     (\<forall>a. tr_matches_fungibles cfg a =
        (case asset_fun a of
           Fungible n \<Rightarrow> map_option (\<lambda>(l, _). (l, n)) (tr_matches_fungibles cfg \<lparr>asset_id = asset_id a, asset_fun = Fungible 0\<rparr>)
         | NonFungible _ \<Rightarrow> None))"

definition trader_inv :: "('i, 'a, u128, 'h) trader_config \<Rightarrow> 'i trader \<Rightarrow> bool" where
  "trader_inv cfg self = (case self of
      None \<Rightarrow> True
    | Some r \<Rightarrow> (case asset_fun (outstanding_concrete_asset r) of
        Fungible n \<Rightarrow> (case tr_matches_fungibles cfg (outstanding_concrete_asset r) of
           Some (l, _) \<Rightarrow> tr_minimum_balance cfg l \<le> n | None \<Rightarrow> True)
      | NonFungible _ \<Rightarrow> False))"

lemma u128_into [simp]: "try_into_u128 (b :: u128) = Some b" "saturated_into_u128 (b :: u128) = b"
  using uint_lt2p [of b] by (simp_all add: try_into_u128_def saturated_into_u128_def)

lemma matcher_exactD:
  assumes "matcher_exact cfg" "tr_matches_fungibles cfg \<lparr>asset_id = i, asset_fun = Fungible n\<rparr> = Some (l, b)"
  shows "b = n" "tr_matches_fungibles cfg \<lparr>asset_id = i, asset_fun = Fungible m\<rparr> = Some (l, m)"
proof -
  have eq: "tr_matches_fungibles cfg \<lparr>asset_id = i, asset_fun = Fungible k\<rparr> =
      map_option (\<lambda>(l, _). (l, k)) (tr_matches_fungibles cfg \<lparr>asset_id = i, asset_fun = Fungible 0\<rparr>)" for k
    using assms(1) unfolding matcher_exact_def by (metis fungibility.case(1) multi_asset.select_convs)
  show "b = n" using assms(2) eq [of n] by auto
  show "tr_matches_fungibles cfg \<lparr>asset_id = i, asset_fun = Fungible m\<rparr> = Some (l, m)"
    using assms(2) eq [of n] eq [of m] by auto
qed

lemma buy_weight_inv:
  assumes "matcher_exact cfg" "buy_weight cfg w payment self = Inr (unused, self')"
  shows "trader_inv cfg self'"
proof -
  obtain first l b amount where first: "tr_matches_fungibles cfg first = Some (l, b)"
    and self': "self' = Some \<lparr>weight_outstanding = w, outstanding_concrete_asset = \<lparr>asset_id = asset_id first,
      asset_fun = Fungible (if amount < tr_minimum_balance cfg l then tr_minimum_balance cfg l else amount)\<rparr>\<rparr>"
    using assms(2) by (auto simp: buy_weight_def result_simps Let_def split: prod.splits)
  obtain n where "first = \<lparr>asset_id = asset_id first, asset_fun = Fungible n\<rparr>"
    using assms(1) first unfolding matcher_exact_def by (metis (mono_tags) fungibility.case(2) fungibility.exhaust
        multi_asset.surjective old.unit.exhaust option.distinct(1))
  then have "tr_matches_fungibles cfg \<lparr>asset_id = asset_id first, asset_fun = Fungible m\<rparr> = Some (l, m)" for m
    using matcher_exactD(2) [OF assms(1)] first by metis
  then show ?thesis by (simp add: trader_inv_def self' not_less)
qed

lemma refund_split:
  fixes m o' c :: "'a::len word"
  assumes "m \<le> o'"
    and "(a, left) = (if sat_sub o' c > m then (c, sat_sub o' c) else (sat_sub o' m, m))"
  shows "unat a + unat left = unat o'" "m \<le> left"
proof -
  have "unat m \<le> unat o'" using assms(1) by (simp add: word_le_nat_alt)
  moreover have "unat c < unat o'" if "sat_sub o' c > m"
    using that by (simp add: word_less_nat_alt unat_sat_sub)
  ultimately show "unat a + unat left = unat o'" "m \<le> left"
    using assms by (auto simp: unat_sat_sub word_less_nat_alt word_le_nat_alt split: if_splits)
qed

lemma refund_weight_conserves:
  assumes "matcher_exact cfg" "trader_inv cfg self" "refund_weight cfg w self = (a, self')"
  shows "amount_of j a + amount_of j (trader_drop self') = amount_of j (trader_drop self) \<and> trader_inv cfg self'"
proof (cases self)
  case (Some r)
  obtain i n where out: "outstanding_concrete_asset r = \<lparr>asset_id = i, asset_fun = Fungible n\<rparr>"
    using assms(2) by (cases "outstanding_concrete_asset r") (auto simp: trader_inv_def Some split: fungibility.splits)
  show ?thesis
  proof (cases "tr_matches_fungibles cfg (outstanding_concrete_asset r)")
    case None
    then show ?thesis using assms Some by (auto simp: refund_weight_def Let_def)
  next
    case match: (Some lb)
    then obtain l where l: "tr_matches_fungibles cfg \<lparr>asset_id = i, asset_fun = Fungible k\<rparr> = Some (l, k)" for k
      using matcher_exactD(2) [OF assms(1)] out by (metis surj_pair)
    have min: "tr_minimum_balance cfg l \<le> n"
      using assms(2) by (simp add: trader_inv_def Some out l)
    show ?thesis
    proof (cases "tr_charge cfg l (min w (weight_outstanding r))")
      case Inl
      then show ?thesis using assms Some by (auto simp: refund_weight_def Let_def out l)
    next
      case (Inr c)
      obtain b left where split: "(b, left) = (if sat_sub n c > tr_minimum_balance cfg l then (c, sat_sub n c)
          else (sat_sub n (tr_minimum_balance cfg l), tr_minimum_balance cfg l))"
        by (metis surj_pair)
      have "amount_of j a = (if j = i then unat b else 0)"
        and "\<exists>v. self' = Some \<lparr>weight_outstanding = v, outstanding_concrete_asset = \<lparr>asset_id = i, asset_fun = Fungible left\<rparr>\<rparr>"
        using assms(3) split Some Inr
        by (auto simp: refund_weight_def Let_def out l word_gt_0 split: if_splits)
      then show ?thesis
        using refund_split [OF min split] l [of left] by (auto simp: Some trader_drop_def out trader_inv_def)
    qed
  qed
qed (use assms in \<open>auto simp: refund_weight_def trader_drop_def trader_inv_def\<close>)

lemma refunds_conserve:
  "matcher_exact cfg \<Longrightarrow> trader_inv cfg self \<Longrightarrow> refunds cfg i ws self = (n, self') \<Longrightarrow>
     n + amount_of i (trader_drop self') = amount_of i (trader_drop self)"
proof (induction ws arbitrary: self n)
  case (Cons w ws)
  obtain a s1 where r: "refund_weight cfg w self = (a, s1)" by fastforce
  obtain k where k: "refunds cfg i ws s1 = (k, self')" "n = amount_of i a + k"
    using Cons.prems(3) r by (auto split: prod.splits)
  show ?case using refund_weight_conserves [OF Cons.prems(1,2) r, of i] Cons.IH [OF Cons.prems(1) _ k(1)] k(2) by simp
qed simp

text \<open>C21. Nothing of a payment for weight is lost: what is charged is what is missing from the payment, after any
  refunds the refunded amounts and the revenue taken when the trader is dropped add up to exactly what was
  charged, of every asset, and a second purchase is refused.\<close>

theorem trader_conserves_payment:
  assumes "matcher_exact cfg" "buy_weight cfg w payment trader_new = Inr (unused, self)"
    and "refunds cfg i ws self = (refunded, self')"
  shows "\<exists>required. trader_drop self = Some required \<and> tr_checked_sub cfg payment required = Some unused \<and>
    refunded + amount_of i (trader_drop self') = amount_of i (Some required) \<and>
    buy_weight cfg w' payment' self = Inl NotWithdrawable"
proof -
  have "trader_inv cfg self" using buy_weight_inv [OF assms(1,2)] .
  note total = refunds_conserve [OF assms(1) this assms(3)]
  obtain required where "trader_drop self = Some required" "tr_checked_sub cfg payment required = Some unused"
    using assms(2) by (auto simp: buy_weight_def result_simps Let_def trader_drop_def split: prod.splits)
  then show ?thesis using total by (auto simp: buy_weight_def trader_drop_def)
qed

text \<open>One asset, of which one unit pays for two units of weight, with a minimum balance of ten.\<close>

definition toy_trader :: "(nat, nat, u128, u128) trader_config" where
  "toy_trader = \<lparr>tr_assets_of = (\<lambda>h. [\<lparr>asset_id = 1, asset_fun = Fungible h\<rparr>]),
     tr_checked_sub = (\<lambda>h a. case asset_fun a of Fungible n \<Rightarrow> if n \<le> h then Some (h - n) else None | _ \<Rightarrow> None),
     tr_matches_fungibles = (\<lambda>a. case asset_fun a of Fungible n \<Rightarrow> Some (asset_id a, n) | _ \<Rightarrow> None),
     tr_charge = (\<lambda>_ w. Inr (ucast w div 2)), tr_minimum_balance = (\<lambda>_. 10)\<rparr>"

theorem trader_conserves_payment_witness:
  "\<exists>self self'. buy_weight toy_trader 100 80 trader_new = Inr (30, self) \<and>
     refunds toy_trader 1 [20, 90] self = (40, self') \<and> 40 + amount_of 1 (trader_drop self') = 50"
proof -
  let ?self = "Some \<lparr>weight_outstanding = 100, outstanding_concrete_asset = \<lparr>asset_id = 1, asset_fun = Fungible 50\<rparr>\<rparr>"
  let ?self' = "Some \<lparr>weight_outstanding = 0, outstanding_concrete_asset = \<lparr>asset_id = 1, asset_fun = Fungible 10\<rparr>\<rparr>"
  have exact: "matcher_exact toy_trader" by (auto simp: matcher_exact_def toy_trader_def split: fungibility.split)
  have buy: "buy_weight toy_trader 100 80 trader_new = Inr (30, ?self)" by code_simp
  have refund: "refunds toy_trader 1 [20, 90] ?self = (40, ?self')" by code_simp
  have "40 + amount_of 1 (trader_drop ?self') = 50"
    using trader_conserves_payment [OF exact buy refund] by (auto simp: trader_drop_def)
  with buy refund show ?thesis by blast
qed

end
