(* ===== verification/Runtime_Common.thy ===== *)
theory Runtime_Common
  imports Asset_Trader
begin

text \<open>
  What the parachain runtimes share: the barrier, filters and fee handlers of
  \<^verbatim>\<open>src/parachains/common/src/xcm_config.rs\<close> and \<^verbatim>\<open>impls.rs\<close>, and the pallet that stores the
  parachain's id, \<^verbatim>\<open>src/parachains/pallets/parachain-info\<close>.
\<close>

section \<open>Barriers\<close>

text \<open>The instructions the barrier looks at, with the location it looks at; the others are numbered.\<close>

datatype instruction =
    InitiateReserveWithdraw multi_location
  | DepositReserveAsset multi_location
  | TransferReserveAsset multi_location
  | ReserveAssetDeposited
  | OtherInstruction nat

text \<open>A barrier may change the message and the credit of weight it is given, also when it refuses.\<close>

type_synonym barrier = "multi_location \<Rightarrow> instruction list \<Rightarrow> u64 \<Rightarrow> u64 \<Rightarrow>
  (unit, unit) result \<times> instruction list \<times> u64"

definition deny_then_try :: "barrier \<Rightarrow> barrier \<Rightarrow> barrier" where
  "deny_then_try deny allow origin message max_weight weight_credit =
     (case deny origin message max_weight weight_credit of
        (Inl e, message', credit') \<Rightarrow> (Inl e, message', credit')
      | (Inr _, message', credit') \<Rightarrow> allow origin message' max_weight credit')"

definition relay_location :: multi_location where
  "relay_location = MultiLocation 1 []"

fun reserve_transfer_to_relay :: "instruction \<Rightarrow> bool" where
  "reserve_transfer_to_relay (InitiateReserveWithdraw reserve) = (reserve = MultiLocation 1 [])"
| "reserve_transfer_to_relay (DepositReserveAsset dest) = (dest = MultiLocation 1 [])"
| "reserve_transfer_to_relay (TransferReserveAsset dest) = (dest = MultiLocation 1 [])"
| "reserve_transfer_to_relay _ = False"

text \<open>The unexpected deposit from the relay chain is only logged.\<close>

definition deny_reserve_transfer_to_relay_chain :: barrier where
  "deny_reserve_transfer_to_relay_chain origin message max_weight weight_credit =
     (if list_ex reserve_transfer_to_relay message then Inl () else Inr (), message, weight_credit)"

lemma deny_then_try_reserve:
  "deny_then_try deny_reserve_transfer_to_relay_chain allow origin message max_weight credit =
     (if list_ex reserve_transfer_to_relay message then (Inl (), message, credit)
      else allow origin message max_weight credit)"
  by (simp add: deny_then_try_def deny_reserve_transfer_to_relay_chain_def)

text \<open>No permission overrules a denial: a message that passes has no reserve transfer to the relay chain.\<close>

lemma reserve_transfer_never_passes:
  assumes "deny_then_try deny_reserve_transfer_to_relay_chain allow origin message max_weight credit = (Inr u, m', c')"
    and "i \<in> set message"
  shows "i \<noteq> InitiateReserveWithdraw relay_location \<and> i \<noteq> DepositReserveAsset relay_location \<and>
    i \<noteq> TransferReserveAsset relay_location"
  using assms by (auto simp: deny_then_try_reserve list_ex_iff relay_location_def split: if_splits)

text \<open>Denials compose: denying twice is denying what either denies.\<close>

lemma deny_then_try_assoc:
  "deny_then_try (deny_then_try d1 d2) allow = deny_then_try d1 (deny_then_try d2 allow)"
  by (intro ext) (auto simp: deny_then_try_def split: prod.splits sum.splits)

section \<open>Filters of assets\<close>

datatype xcm_asset_id = Concrete multi_location | Abstract bytes

definition concrete_native_asset_from :: "multi_location \<Rightarrow> xcm_asset_id multi_asset \<Rightarrow> multi_location \<Rightarrow> bool" where
  "concrete_native_asset_from location asset origin =
     (case asset_id asset of Concrete i \<Rightarrow> i = origin \<and> origin = location | Abstract _ \<Rightarrow> False)"

text \<open>\<open>match_and_split\<close> is the one of \<^verbatim>\<open>xcm::latest::MultiLocation\<close>.\<close>

definition assets_from :: "(multi_location \<Rightarrow> multi_location \<Rightarrow> junction option) \<Rightarrow> multi_location \<Rightarrow>
    xcm_asset_id multi_asset \<Rightarrow> multi_location \<Rightarrow> bool" where
  "assets_from match_and_split loc asset origin =
     (loc = origin \<and>
      (case (asset_id asset, asset_fun asset) of
         (Concrete asset_loc, Fungible _) \<Rightarrow> match_and_split asset_loc loc \<noteq> None
       | _ \<Rightarrow> False))"

lemma concrete_native_asset_from_iff:
  "concrete_native_asset_from location asset origin \<longleftrightarrow> asset_id asset = Concrete location \<and> origin = location"
  by (auto simp: concrete_native_asset_from_def split: xcm_asset_id.splits)

lemma assets_from_origin:
  "assets_from f loc asset origin \<Longrightarrow> origin = loc \<and> (\<exists>l n. asset_id asset = Concrete l \<and> asset_fun asset = Fungible n)"
  by (auto simp: assets_from_def split: xcm_asset_id.splits fungibility.splits)

definition non_zero_issuance :: "('a \<Rightarrow> u128) \<Rightarrow> 'a \<Rightarrow> bool" where
  "non_zero_issuance total_issuance i = (total_issuance i \<noteq> 0)"

section \<open>Fees\<close>

definition charge_weight_in_fungibles :: "(weight \<Rightarrow> 'c) \<Rightarrow> ('c \<Rightarrow> 'a \<Rightarrow> ('e, 'b) result) \<Rightarrow> 'a \<Rightarrow> weight \<Rightarrow>
    (xcm_error, 'b) result" where
  "charge_weight_in_fungibles weight_to_fee to_asset_balance asset weight =
     (case to_asset_balance (weight_to_fee weight) asset of Inl _ \<Rightarrow> Inl TooExpensive | Inr asset_amount \<Rightarrow> Inr asset_amount)"

definition to_staking_pot :: "('acc \<Rightarrow> u128 \<Rightarrow> 'w \<Rightarrow> 'w) \<Rightarrow> 'acc \<Rightarrow> u128 \<Rightarrow> 'w \<Rightarrow> 'w" where
  "to_staking_pot resolve_creating staking_pot amount w = resolve_creating staking_pot amount w"

text \<open>The default \<^verbatim>\<open>OnUnbalanced::on_unbalanced\<close>: an imbalance of zero is dropped.\<close>

definition on_unbalanced :: "(u128 \<Rightarrow> 'w \<Rightarrow> 'w) \<Rightarrow> u128 \<Rightarrow> 'w \<Rightarrow> 'w" where
  "on_unbalanced on_nonzero amount w = (if amount = 0 then w else on_nonzero amount w)"

text \<open>Merging two negative imbalances saturates.\<close>

definition deal_with_fees :: "('acc \<Rightarrow> u128 \<Rightarrow> 'w \<Rightarrow> 'w) \<Rightarrow> 'acc \<Rightarrow> u128 list \<Rightarrow> 'w \<Rightarrow> 'w" where
  "deal_with_fees resolve_creating staking_pot fees_then_tips w =
     (case fees_then_tips of
        [] \<Rightarrow> w
      | fees # rest \<Rightarrow>
          let fees = (case rest of [] \<Rightarrow> fees | tips # _ \<Rightarrow> sat_add tips fees) in
          on_unbalanced (to_staking_pot resolve_creating staking_pot) fees w)"

text \<open>The pot receives fee and tip together, and nothing else changes when both are zero.\<close>

lemma sat_add_eq_0: "sat_add a b = 0 \<longleftrightarrow> a = 0 \<and> b = 0"
  for a b :: "'a::len word"
proof -
  have "sat_add a b = 0 \<longleftrightarrow> min (unat a + unat b) (2 ^ LENGTH('a) - 1) = 0"
    by (simp only: unat_sat_add [symmetric] unat_eq_zero)
  also have "\<dots> \<longleftrightarrow> unat a = 0 \<and> unat b = 0"
    using one_less_power [of "2 :: nat" "LENGTH('a)"] by (auto simp: min_def)
  finally show ?thesis by (simp only: unat_eq_zero)
qed

lemma deal_with_fees_pot:
  "deal_with_fees resolve pot (fees # tips # rest) w =
     (if fees = 0 \<and> tips = 0 then w else resolve pot (sat_add tips fees) w)"
  by (auto simp: deal_with_fees_def on_unbalanced_def to_staking_pot_def sat_add_eq_0)

text \<open>The credit goes to the author of the block; it is burned where there is none or the deposit fails.\<close>

definition assets_to_block_author :: "('acc \<Rightarrow> 'c \<Rightarrow> 'w \<Rightarrow> ('c, 'w) result) \<Rightarrow> ('c \<Rightarrow> 'w \<Rightarrow> 'w) \<Rightarrow> 'acc option \<Rightarrow>
    'c \<Rightarrow> 'w \<Rightarrow> 'w" where
  "assets_to_block_author resolve on_drop author credit w =
     (case author of
        None \<Rightarrow> on_drop credit w
      | Some a \<Rightarrow> (case resolve a credit w of Inl credit' \<Rightarrow> on_drop credit' w | Inr w' \<Rightarrow> w'))"

section \<open>The parachain's id\<close>

record parachain_info =
  ParachainId :: "para_id option"

definition default_for_parachain_id :: para_id where
  "default_for_parachain_id = 100"

definition parachain_info_genesis_default :: para_id where
  "parachain_info_genesis_default = 100"

definition parachain_info_build :: "para_id \<Rightarrow> parachain_info \<Rightarrow> parachain_info" where
  "parachain_info_build i s = s\<lparr>ParachainId := Some i\<rparr>"

definition parachain_id :: "parachain_info \<Rightarrow> para_id" where
  "parachain_id s = (case ParachainId s of None \<Rightarrow> default_for_parachain_id | Some i \<Rightarrow> i)"

text \<open>The default of the genesis configuration is what a chain without one reads.\<close>

lemma parachain_info_default:
  "parachain_id (parachain_info_build parachain_info_genesis_default s) = parachain_id \<lparr>ParachainId = None\<rparr>"
  by (simp add: parachain_id_def parachain_info_build_def parachain_info_genesis_default_def default_for_parachain_id_def)

end
