(* ===== verification/Cumulus_Xcm.thy ===== *)
theory Cumulus_Xcm
  imports Example_Executor
begin

text \<open>
  The XCM pallet of Cumulus, \<^verbatim>\<open>src/pallets/xcm/src/lib.rs\<close>: its origin and the two handlers of
  downward messages without a queue.
\<close>

section \<open>Origin\<close>

datatype cumulus_origin = Relay | SiblingParachain para_id

definition origin_from_para :: "para_id \<Rightarrow> cumulus_origin" where
  "origin_from_para p = SiblingParachain p"

text \<open>\<open>into\<close> is the conversion of the runtime's origin, which gives the origin back when it is
  not one of this pallet.\<close>

definition ensure_sibling_para :: "('o \<Rightarrow> ('o, cumulus_origin) result) \<Rightarrow> 'o \<Rightarrow> ('e dispatch_error, para_id) result" where
  "ensure_sibling_para into o' = (case into o' of Inr (SiblingParachain p) \<Rightarrow> Inr p | _ \<Rightarrow> Inl BadOrigin)"

definition ensure_relay :: "('o \<Rightarrow> ('o, cumulus_origin) result) \<Rightarrow> 'o \<Rightarrow> ('e dispatch_error, unit) result" where
  "ensure_relay into o' = (case into o' of Inr Relay \<Rightarrow> Inr () | _ \<Rightarrow> Inl BadOrigin)"

lemma ensure_sibling_para_Inr [simp]:
  "ensure_sibling_para into o' = Inr p \<longleftrightarrow> into o' = Inr (SiblingParachain p)"
  by (simp add: ensure_sibling_para_def split: sum.split cumulus_origin.split)

lemma ensure_relay_Inr [simp]: "ensure_relay into o' = Inr u \<longleftrightarrow> into o' = Inr Relay"
  by (simp add: ensure_relay_def split: sum.split cumulus_origin.split)

section \<open>Handlers of downward messages\<close>

datatype px_event =
    PxInvalidFormat bytes
  | PxUnsupportedVersion bytes
  | PxExecutedDownward bytes outcome

record 'w px_state =
  px_events :: "px_event list"
  px_world :: 'w

record ('v, 'x, 'w) px_config =
  px_execute_xcm :: "'x \<Rightarrow> u64 \<Rightarrow> 'w px_state \<Rightarrow> outcome \<times> 'w px_state"
  px_weight_used :: "outcome \<Rightarrow> u64"
  px_twox_64 :: "bytes \<Rightarrow> bytes"
  px_decode_all :: "bytes \<Rightarrow> 'v option"
  px_try_from :: "'v \<Rightarrow> 'x option"

definition px_deposit_event :: "px_event \<Rightarrow> 'w px_state \<Rightarrow> 'w px_state" where
  "px_deposit_event e s = s\<lparr>px_events := px_events s @ [e]\<rparr>"

text \<open>One message under the limit the loop gives it: the weight used so far and the state.\<close>

definition execute_downward :: "('v, 'x, 'w) px_config \<Rightarrow> weight \<Rightarrow> bytes \<Rightarrow> weight \<Rightarrow> 'w px_state \<Rightarrow>
    weight \<times> 'w px_state" where
  "execute_downward cfg message_limit data used s =
     (let msg_id = px_twox_64 cfg data in
      case map_option (px_try_from cfg) (px_decode_all cfg data) of
        None \<Rightarrow> (used, px_deposit_event (PxInvalidFormat msg_id) s)
      | Some None \<Rightarrow> (used, px_deposit_event (PxUnsupportedVersion msg_id) s)
      | Some (Some x) \<Rightarrow>
          (case px_execute_xcm cfg x message_limit s of
             (out, s1) \<Rightarrow> (used + px_weight_used cfg out, px_deposit_event (PxExecutedDownward msg_id out) s1)))"

fun unlimited_loop :: "('v, 'x, 'w) px_config \<Rightarrow> weight \<Rightarrow> (relay_block_number \<times> bytes) list \<Rightarrow> weight \<Rightarrow> 'w px_state \<Rightarrow>
    weight \<times> 'w px_state" where
  "unlimited_loop cfg limit [] used s = (used, s)"
| "unlimited_loop cfg limit ((_, data) # iter) used s =
     (case execute_downward cfg limit data used s of (used', s') \<Rightarrow> unlimited_loop cfg limit iter used' s')"

definition unlimited_handle_dmp_messages :: "('v, 'x, 'w) px_config \<Rightarrow> (relay_block_number \<times> bytes) list \<Rightarrow> weight \<Rightarrow>
    'w px_state \<Rightarrow> weight \<times> 'w px_state" where
  "unlimited_handle_dmp_messages cfg iter limit s = unlimited_loop cfg limit iter 0 s"

fun limit_and_drop_loop :: "('v, 'x, 'w) px_config \<Rightarrow> weight \<Rightarrow> (relay_block_number \<times> bytes) list \<Rightarrow> weight \<Rightarrow>
    'w px_state \<Rightarrow> weight \<times> 'w px_state" where
  "limit_and_drop_loop cfg limit [] used s = (used, s)"
| "limit_and_drop_loop cfg limit ((_, data) # iter) used s =
     (case execute_downward cfg (sat_sub limit used) data used s of
        (used', s') \<Rightarrow> limit_and_drop_loop cfg limit iter used' s')"

definition limit_and_drop_handle_dmp_messages :: "('v, 'x, 'w) px_config \<Rightarrow> (relay_block_number \<times> bytes) list \<Rightarrow>
    weight \<Rightarrow> 'w px_state \<Rightarrow> weight \<times> 'w px_state" where
  "limit_and_drop_handle_dmp_messages cfg iter limit s = limit_and_drop_loop cfg limit iter 0 s"

section \<open>Weight\<close>

definition px_executor_bounded :: "('v, 'x, 'w) px_config \<Rightarrow> bool" where
  "px_executor_bounded cfg \<longleftrightarrow>
     (\<forall>x limit s. px_weight_used cfg (fst (px_execute_xcm cfg x limit s)) \<le> limit)"

lemma execute_downward_weight:
  assumes "px_executor_bounded cfg" "execute_downward cfg limit data used s = (used', s')"
  shows "\<exists>w \<le> limit. used' = used + w"
proof -
  have "used' = used + 0 \<or> (\<exists>x. used' = used + px_weight_used cfg (fst (px_execute_xcm cfg x limit s)))"
    using assms(2) by (auto simp: execute_downward_def Let_def split: option.splits prod.splits) (metis fst_conv)
  then show ?thesis using assms(1) unfolding px_executor_bounded_def by (metis word_zero_le)
qed

lemma limit_and_drop_loop_bound:
  assumes "px_executor_bounded cfg"
  shows "limit_and_drop_loop cfg limit iter used s = (used', s') \<Longrightarrow> used \<le> limit \<Longrightarrow> used' \<le> limit"
proof (induction iter arbitrary: used s)
  case (Cons m iter)
  obtain u1 s1 where e: "execute_downward cfg (sat_sub limit used) (snd m) used s = (u1, s1)" by fastforce
  have "u1 \<le> limit" using execute_downward_weight [OF assms e] Cons.prems(2) by (blast intro: weight_bounds)
  then show ?case using Cons.IH [of u1 s1] Cons.prems(1) e by (cases m) simp
qed simp

interpretation limit_and_drop: weight_limited_total px_executor_bounded
  "\<lambda>cfg ms limit s. Some (limit_and_drop_handle_dmp_messages cfg ms limit s)" "\<lambda>cfg s. True"
proof unfold_locales
  fix cfg :: "('v, 'x, 'w) px_config" and ms limit s used s'
  assume "px_executor_bounded cfg" "Some (limit_and_drop_handle_dmp_messages cfg ms limit s) = Some (used, s')"
  then show "used \<le> limit"
    using limit_and_drop_loop_bound [of cfg limit ms 0 s used s'] by (simp add: limit_and_drop_handle_dmp_messages_def)
qed simp

text \<open>Without the limit for all messages together, the bound grows with their number.\<close>

lemma unlimited_loop_bound:
  assumes "px_executor_bounded cfg"
  shows "unlimited_loop cfg limit iter used s = (used', s') \<Longrightarrow> unat used + length iter * unat limit < 2 ^ 64 \<Longrightarrow>
    unat used' \<le> unat used + length iter * unat limit"
proof (induction iter arbitrary: used s)
  case (Cons m iter)
  obtain u1 s1 where e: "execute_downward cfg limit (snd m) used s = (u1, s1)" by fastforce
  obtain w where w: "w \<le> limit" "u1 = used + w" using execute_downward_weight [OF assms e] by blast
  have "unat used + unat w < 2 ^ 64" using Cons.prems(2) w(1) by (simp add: word_le_nat_alt)
  then have u1: "unat u1 = unat used + unat w" using w(2) unat_add_lem [of used w] by simp
  have "unat used' \<le> unat u1 + length iter * unat limit"
    using Cons.prems e u1 w(1) by (intro Cons.IH [of u1 s1]) (cases m, simp_all add: word_le_nat_alt)
  then show ?case using u1 w(1) by (simp add: word_le_nat_alt)
qed simp

end
