(* ===== verification/Ping.thy ===== *)
theory Ping
  imports Cumulus_Xcm
begin

text \<open>
  The ping pallet, \<^verbatim>\<open>src/parachains/pallets/ping/src/lib.rs\<close>: a list of targets, a ping to each of them at
  the end of every block, and the answers.  The router and the encoding of calls are parameters.
\<close>

datatype ping_call = PingCall u32 bytes | PongCall u32 bytes

record transact =
  tr_require_weight_at_most :: u64
  tr_call :: bytes

datatype 'e ping_event =
    PingSent para_id u32 bytes
  | Pinged para_id u32 bytes
  | PongSent para_id u32 bytes
  | Ponged para_id u32 bytes u32
  | ErrorSendingPing 'e para_id u32 bytes
  | ErrorSendingPong 'e para_id u32 bytes
  | UnknownPong para_id u32 bytes

datatype ping_error = TooManyTargets | PayloadTooLarge

record ('e, 'w) ping_state =
  Targets :: "(para_id \<times> bytes) list"
  PingCount :: u32
  Pings :: "u32 \<rightharpoonup> u32"
  ping_block_number :: u32
  ping_events :: "'e ping_event list"
  ping_world :: 'w

record ('o, 'e, 'w) ping_config =
  ping_send_xcm :: "multi_location \<Rightarrow> transact list \<Rightarrow> 'w \<Rightarrow> ('e, unit) result \<times> 'w"
  ping_encode_call :: "ping_call \<Rightarrow> bytes"
  ping_into :: "'o \<Rightarrow> ('o, cumulus_origin) result"

definition max_parachains :: u32 where
  "max_parachains = 100"

definition max_payload_size :: u32 where
  "max_payload_size = 1024"

definition ping_deposit_event :: "'e ping_event \<Rightarrow> ('e, 'w) ping_state \<Rightarrow> ('e, 'w) ping_state" where
  "ping_deposit_event e s = s\<lparr>ping_events := ping_events s @ [e]\<rparr>"

text \<open>The message that makes a sibling execute a call of this pallet.\<close>

definition send_call :: "('o, 'e, 'w) ping_config \<Rightarrow> para_id \<Rightarrow> ping_call \<Rightarrow> ('e, 'w) ping_state \<Rightarrow>
    ('e, unit) result \<times> ('e, 'w) ping_state" where
  "send_call cfg para call s =
     (case ping_send_xcm cfg (MultiLocation 1 [Parachain para])
        [\<lparr>tr_require_weight_at_most = 1000, tr_call = ping_encode_call cfg call\<rparr>] (ping_world s) of
        (r, w) \<Rightarrow> (r, s\<lparr>ping_world := w\<rparr>))"

definition ping_target :: "('o, 'e, 'w) ping_config \<Rightarrow> u32 \<Rightarrow> para_id \<times> bytes \<Rightarrow> ('e, 'w) ping_state \<Rightarrow>
    ('e, 'w) ping_state" where
  "ping_target cfg n target s =
     (case target of (para, payload) \<Rightarrow>
        let seq = PingCount s + 1; s1 = s\<lparr>PingCount := seq\<rparr> in
        case send_call cfg para (PingCall seq payload) s1 of
          (Inr _, s2) \<Rightarrow> ping_deposit_event (PingSent para seq payload) (s2\<lparr>Pings := (Pings s2)(seq \<mapsto> n)\<rparr>)
        | (Inl e, s2) \<Rightarrow> ping_deposit_event (ErrorSendingPing e para seq payload) s2)"

definition ping_on_finalize :: "('o, 'e, 'w) ping_config \<Rightarrow> u32 \<Rightarrow> ('e, 'w) ping_state \<Rightarrow> ('e, 'w) ping_state" where
  "ping_on_finalize cfg n s = fold (ping_target cfg n) (Targets s) s"

definition push_target :: "para_id \<Rightarrow> bytes \<Rightarrow> ('e, 'w) ping_state \<Rightarrow>
    (ping_error dispatch_error, ('e, 'w) ping_state) result" where
  "push_target para payload s =
     (if length (Targets s) < unat max_parachains then Inr (s\<lparr>Targets := Targets s @ [(para, payload)]\<rparr>)
      else Inl (Module TooManyTargets))"

definition ping_start :: "'acc origin \<Rightarrow> para_id \<Rightarrow> bytes \<Rightarrow> ('e, 'w) ping_state \<Rightarrow>
    (ping_error dispatch_error, ('e, 'w) ping_state) result" where
  "ping_start origin para payload s =
     rbind (ensure_root origin) (\<lambda>_.
     rbind (ensure (length payload \<le> unat max_payload_size) (Module PayloadTooLarge)) (\<lambda>_.
     push_target para payload s))"

fun push_targets :: "nat \<Rightarrow> para_id \<Rightarrow> bytes \<Rightarrow> ('e, 'w) ping_state \<Rightarrow>
    (ping_error dispatch_error, ('e, 'w) ping_state) result" where
  "push_targets 0 para payload s = Inr s"
| "push_targets (Suc n) para payload s = rbind (push_target para payload s) (push_targets n para payload)"

definition ping_start_many :: "'acc origin \<Rightarrow> para_id \<Rightarrow> u32 \<Rightarrow> bytes \<Rightarrow> ('e, 'w) ping_state \<Rightarrow>
    (ping_error dispatch_error, ('e, 'w) ping_state) result" where
  "ping_start_many origin para n payload s =
     rbind (ensure_root origin) (\<lambda>_.
     rbind (ensure (length payload \<le> unat max_payload_size) (Module PayloadTooLarge)) (\<lambda>_.
     push_targets (unat n) para payload s))"

text \<open>\<^verbatim>\<open>swap_remove\<close>: the last element takes the place of the removed one.\<close>

definition swap_remove :: "nat \<Rightarrow> 'a list \<Rightarrow> 'a list" where
  "swap_remove i xs = butlast (xs[i := last xs])"

definition ping_stop :: "'acc origin \<Rightarrow> para_id \<Rightarrow> ('e, 'w) ping_state \<Rightarrow>
    (ping_error dispatch_error, ('e, 'w) ping_state) result" where
  "ping_stop origin para s =
     rbind (ensure_root origin) (\<lambda>_.
     Inr (case position (\<lambda>(p, _). p = para) (Targets s) of
            Some p \<Rightarrow> s\<lparr>Targets := swap_remove p (Targets s)\<rparr>
          | None \<Rightarrow> s))"

definition ping_stop_all :: "'acc origin \<Rightarrow> para_id option \<Rightarrow> ('e, 'w) ping_state \<Rightarrow>
    (ping_error dispatch_error, ('e, 'w) ping_state) result" where
  "ping_stop_all origin maybe_para s =
     rbind (ensure_root origin) (\<lambda>_.
     Inr (case maybe_para of
            Some para \<Rightarrow> s\<lparr>Targets := filter (\<lambda>(x, _). x \<noteq> para) (Targets s)\<rparr>
          | None \<Rightarrow> s\<lparr>Targets := []\<rparr>))"

definition ping_ping :: "('o, 'e, 'w) ping_config \<Rightarrow> 'o \<Rightarrow> u32 \<Rightarrow> bytes \<Rightarrow> ('e, 'w) ping_state \<Rightarrow>
    (ping_error dispatch_error, ('e, 'w) ping_state) result" where
  "ping_ping cfg origin seq payload s =
     rbind (ensure_sibling_para (ping_into cfg) origin) (\<lambda>para.
     let s1 = ping_deposit_event (Pinged para seq payload) s in
     Inr (case send_call cfg para (PongCall seq payload) s1 of
            (Inr _, s2) \<Rightarrow> ping_deposit_event (PongSent para seq payload) s2
          | (Inl e, s2) \<Rightarrow> ping_deposit_event (ErrorSendingPong e para seq payload) s2))"

definition ping_pong :: "('o, 'e, 'w) ping_config \<Rightarrow> 'o \<Rightarrow> u32 \<Rightarrow> bytes \<Rightarrow> ('e, 'w) ping_state \<Rightarrow>
    (ping_error dispatch_error, ('e, 'w) ping_state) result" where
  "ping_pong cfg origin seq payload s =
     rbind (ensure_sibling_para (ping_into cfg) origin) (\<lambda>para.
     Inr (case Pings s seq of
            Some sent_at \<Rightarrow> ping_deposit_event (Ponged para seq payload (sat_sub (ping_block_number s) sent_at))
              (s\<lparr>Pings := (Pings s)(seq := None)\<rparr>)
          | None \<Rightarrow> ping_deposit_event (UnknownPong para seq payload) s))"

section \<open>Targets\<close>

lemma push_targets_Inr:
  "push_targets n para payload s = Inr s' \<longleftrightarrow>
     (n = 0 \<or> length (Targets s) + n \<le> unat max_parachains) \<and>
     s' = s\<lparr>Targets := Targets s @ replicate n (para, payload)\<rparr>"
proof (induction n arbitrary: s)
  case (Suc n)
  then show ?case
    by (cases "n = 0") (auto simp: push_target_def rbind_eq_Inr replicate_append_same split: if_splits)
qed auto

lemma mset_swap_remove:
  assumes "i < length xs"
  shows "mset (swap_remove i xs) + {#xs ! i#} = mset xs"
proof -
  obtain ys y where xs: "xs = ys @ [y]" using assms by (cases xs rule: rev_cases) auto
  show ?thesis
  proof (cases "i < length ys")
    case True
    then show ?thesis
      by (simp add: xs swap_remove_def list_update_append1 nth_append mset_update)
  next
    case False
    then show ?thesis using assms by (simp add: xs swap_remove_def nth_append less_Suc_eq)
  qed
qed

section \<open>Pings and answers\<close>

lemma ping_target_pings:
  assumes "ping_target cfg n (para, payload) s = s'"
  shows "PingCount s' = PingCount s + 1"
    and "Pings s' = Pings s \<or> Pings s' = (Pings s)(PingCount s' \<mapsto> n)"
    and "Targets s' = Targets s"
  using assms
  by (auto simp: ping_target_def Let_def send_call_def ping_deposit_event_def split: prod.splits sum.splits)

lemma ping_targets_count:
  "fold (ping_target cfg n) ts s = s' \<Longrightarrow> PingCount s' = PingCount s + of_nat (length ts)"
proof (induction ts arbitrary: s)
  case (Cons t ts)
  then show ?case using ping_target_pings(1) [OF refl, of cfg n "fst t" "snd t" s] by simp
qed simp

text \<open>A ping is answered at most once: the answer takes the record of the ping with it, and any further
  one is unknown.\<close>

lemma pong_answers_once:
  assumes "ping_pong cfg origin seq payload s = Inr s'" "Pings s seq = Some sent_at"
    and "ping_into cfg origin = Inr (SiblingParachain para)"
  shows "ping_events s' = ping_events s @ [Ponged para seq payload (sat_sub (ping_block_number s) sent_at)]"
    and "ping_pong cfg origin seq payload s' = Inr (ping_deposit_event (UnknownPong para seq payload) s')"
  using assms by (auto simp: ping_pong_def ensure_sibling_para_def ping_deposit_event_def)

end
