(* ===== verification/Aura_Ext.thy ===== *)
theory Aura_Ext
  imports Xcm_Interface "HOL-Library.Monad_Syntax"
begin

text \<open>
  The AuRa extension pallet, \<^verbatim>\<open>src/pallets/aura-ext/src/lib.rs\<close>: the cached authorities and the block
  executor that checks the seal of a block while it is validated; and the timestamp of
  \<^verbatim>\<open>src/primitives/timestamp/src/lib.rs\<close> that the inherents are checked with.
\<close>

section \<open>Data\<close>

text \<open>A header is its digest and the rest of it.\<close>

record ('log, 'rest) aura_header =
  digest_logs :: "'log list"
  header_rest :: 'rest

record ('auth, 'w) aura_state =
  Authorities :: "'auth list"
  aura_world :: 'w

record ('log, 'rest, 'auth, 'seal, 'pre, 'ext, 'w) aura_config =
  au_as_aura_seal :: "'log \<Rightarrow> 'seal option"
  au_as_pre_runtime :: "'log \<Rightarrow> 'pre option"
  au_find_author :: "'pre list \<Rightarrow> 'w \<Rightarrow> u32 option"
  au_hash :: "('log, 'rest) aura_header \<Rightarrow> bytes"
  au_verify :: "'auth \<Rightarrow> bytes \<Rightarrow> 'seal \<Rightarrow> bool"
  au_authorities :: "'w \<Rightarrow> 'auth list"
  au_execute_block :: "('log, 'rest) aura_header \<times> 'ext list \<Rightarrow> ('auth, 'w) aura_state \<Rightarrow> ('auth, 'w) aura_state option"
  au_db_reads_writes :: "u64 \<Rightarrow> u64 \<Rightarrow> weight"

section \<open>The pallet\<close>

definition aura_genesis_build :: "('log, 'rest, 'auth, 'seal, 'pre, 'ext, 'w) aura_config \<Rightarrow> 'w \<Rightarrow>
    ('auth, 'w) aura_state option" where
  "aura_genesis_build cfg w = do {
     let authorities = au_authorities cfg w;
     _ \<leftarrow> assert_that (authorities \<noteq> []);
     Some \<lparr>Authorities = authorities, aura_world = w\<rparr>
   }"

definition aura_on_finalize :: "('log, 'rest, 'auth, 'seal, 'pre, 'ext, 'w) aura_config \<Rightarrow> ('auth, 'w) aura_state \<Rightarrow>
    ('auth, 'w) aura_state" where
  "aura_on_finalize cfg s = s\<lparr>Authorities := au_authorities cfg (aura_world s)\<rparr>"

definition aura_on_initialize :: "('log, 'rest, 'auth, 'seal, 'pre, 'ext, 'w) aura_config \<Rightarrow> ('auth, 'w) aura_state \<Rightarrow>
    weight \<times> ('auth, 'w) aura_state" where
  "aura_on_initialize cfg s = (au_db_reads_writes cfg 2 1, s)"

section \<open>The block executor\<close>

text \<open>\<^verbatim>\<open>retain\<close> over the digest: the logs without the seal, and the seal; a second seal is a panic.\<close>

fun retain_logs :: "('log \<Rightarrow> 'seal option) \<Rightarrow> 'log list \<Rightarrow> 'seal option \<Rightarrow> ('log list \<times> 'seal option) option" where
  "retain_logs as_seal [] seal = Some ([], seal)"
| "retain_logs as_seal (l # logs) seal =
     (case (as_seal l, seal \<noteq> None) of
        (Some _, True) \<Rightarrow> None
      | (None, _) \<Rightarrow> map_option (\<lambda>(kept, r). (l # kept, r)) (retain_logs as_seal logs seal)
      | (Some sl, False) \<Rightarrow> retain_logs as_seal logs (Some sl))"

definition aura_execute_block :: "('log, 'rest, 'auth, 'seal, 'pre, 'ext, 'w) aura_config \<Rightarrow>
    ('log, 'rest) aura_header \<times> 'ext list \<Rightarrow> ('auth, 'w) aura_state \<Rightarrow> ('auth, 'w) aura_state option" where
  "aura_execute_block cfg block s =
     (case block of (header, extrinsics) \<Rightarrow>
        let authorities = Authorities s in do {
          (logs, found) \<leftarrow> retain_logs (au_as_aura_seal cfg) (digest_logs header) None;
          let header = header\<lparr>digest_logs := logs\<rparr>;
          seal \<leftarrow> found;
          author \<leftarrow> au_find_author cfg (List.map_filter (au_as_pre_runtime cfg) (digest_logs header)) (aura_world s);
          let pre_hash = au_hash cfg header;
          authority \<leftarrow> (if unat author < length authorities then Some (authorities ! unat author) else None);
          _ \<leftarrow> assert_that (au_verify cfg authority pre_hash seal);
          au_execute_block cfg (header, extrinsics) s
        })"

lemma retain_logs_Some:
  "retain_logs as_seal logs seal = Some (kept, r) \<longleftrightarrow>
     kept = filter (\<lambda>l. as_seal l = None) logs \<and>
     (case seal of
        Some sl \<Rightarrow> List.map_filter as_seal logs = [] \<and> r = Some sl
      | None \<Rightarrow> List.map_filter as_seal logs = [] \<and> r = None \<or> (\<exists>sl. List.map_filter as_seal logs = [sl] \<and> r = Some sl))"
proof (induction logs arbitrary: kept seal)
  case (Cons l logs)
  show ?case
  proof (cases "as_seal l")
    case None
    then show ?thesis by (cases seal) (auto simp: List.map_filter_simps Cons.IH)
  next
    case (Some sl)
    then show ?thesis by (cases seal) (auto simp: List.map_filter_simps Cons.IH)
  qed
qed (auto simp: List.map_filter_simps split: option.splits)

text \<open>C20. A block passes the executor exactly when its digest has one seal, the author the rest of the digest names
  is one of the authorities cached before the block, the seal is that authority's signature of the header
  without the seal, and the execution of the block without the seal succeeds.\<close>

theorem aura_execute_block_checks_seal:
  "aura_execute_block cfg (header, extrinsics) s = Some s' \<longleftrightarrow>
     (\<exists>seal author unsealed.
        List.map_filter (au_as_aura_seal cfg) (digest_logs header) = [seal] \<and>
        unsealed = header\<lparr>digest_logs := filter (\<lambda>l. au_as_aura_seal cfg l = None) (digest_logs header)\<rparr> \<and>
        au_find_author cfg (List.map_filter (au_as_pre_runtime cfg) (digest_logs unsealed)) (aura_world s) = Some author \<and>
        unat author < length (Authorities s) \<and>
        au_verify cfg (Authorities s ! unat author) (au_hash cfg unsealed) seal \<and>
        au_execute_block cfg (unsealed, extrinsics) s = Some s')"
  by (auto simp: aura_execute_block_def Let_def panic_simps retain_logs_Some split: if_splits)

section \<open>The timestamp\<close>

text \<open>The timestamp a block is checked against, in milliseconds: the start of the slot after the relay parent's.
  The duration comes as a \<^verbatim>\<open>u128\<close> number of milliseconds and is cast to \<^verbatim>\<open>u64\<close>.\<close>

record timestamp_provider =
  relay_chain_slot :: u64
  relay_chain_slot_duration_millis :: "128 word"

definition from_relay_chain_slot_and_duration :: "u64 \<Rightarrow> 128 word \<Rightarrow> timestamp_provider" where
  "from_relay_chain_slot_and_duration slot duration =
     \<lparr>relay_chain_slot = slot, relay_chain_slot_duration_millis = duration\<rparr>"

definition timestamp_inherent :: "timestamp_provider \<Rightarrow> u64" where
  "timestamp_inherent p = (relay_chain_slot p + 1) * ucast (relay_chain_slot_duration_millis p)"

lemma timestamp_inherent_exact:
  assumes "(unat slot + 1) * unat duration < 2 ^ 64" "0 < duration"
  shows "unat (timestamp_inherent (from_relay_chain_slot_and_duration slot duration)) = (unat slot + 1) * unat duration"
proof -
  have "unat duration \<le> (unat slot + 1) * unat duration" by simp
  then have d: "unat duration < 2 ^ 64" using assms(1) by linarith
  have "0 < unat duration" using assms(2) by (simp add: word_less_nat_alt)
  then have "(unat slot + 1) * 1 \<le> (unat slot + 1) * unat duration" by (intro mult_le_mono2) simp
  then have s: "unat slot + 1 < 2 ^ 64" using assms(1) by (simp only: mult_1_right le_less_trans)
  have "unat (ucast duration :: u64) = unat duration"
    using d by (simp add: unsigned_ucast_eq take_bit_nat_eq_self)
  moreover have "unat (slot + 1) = unat slot + 1"
    using s unat_add_lem [of slot 1] by simp
  ultimately show ?thesis
    using assms(1) unat_mult_lem [of "slot + 1" "ucast duration"]
    by (simp add: timestamp_inherent_def from_relay_chain_slot_and_duration_def)
qed

end
