(* ===== verification/Inherent_Data.thy ===== *)
theory Inherent_Data
  imports Example_Runtime
begin

text \<open>
  Collecting the data of the inherent on the node, \<^verbatim>\<open>src/primitives/parachain-inherent/src/client_side.rs\<close>,
  and what the runtime then reads from it.  The answers of the relay chain node are a record of functions that may fail.
\<close>

section \<open>Collecting\<close>

record ('p, 'k, 'e) relay_node =
  rn_get_storage_by_key :: "'k \<Rightarrow> bytes \<Rightarrow> ('e, bytes option) result"
  rn_prove_read :: "'k \<Rightarrow> bytes list \<Rightarrow> ('e, 'p) result"
  rn_retrieve_dmq_contents :: "para_id \<Rightarrow> 'k \<Rightarrow> ('e, inbound_downward_message list) result"
  rn_retrieve_all_inbound_hrmp_channel_contents ::
    "para_id \<Rightarrow> 'k \<Rightarrow> ('e, (para_id \<times> inbound_hrmp_message list) list) result"
  rn_randomness_keys :: "bytes list"

text \<open>\<^verbatim>\<open>.ok()?\<close> on a result.\<close>

definition ok :: "('e, 'a) result \<Rightarrow> 'a option" where
  "ok r = (case r of Inl _ \<Rightarrow> None | Inr a \<Rightarrow> Some a)"

text \<open>An index of channels: absent is empty, and one that does not decode is an error.\<close>

definition read_index :: "'p relay_backend \<Rightarrow> bytes option \<Rightarrow> para_id list option" where
  "read_index b entry = (case entry of None \<Rightarrow> Some [] | Some raw \<Rightarrow> dec_para_ids b raw)"

text \<open>The keys, in the order of the source; the first three are the randomness of the current and past epochs.\<close>

definition relevant_keys :: "'p relay_backend \<Rightarrow> bytes list \<Rightarrow> para_id \<Rightarrow> para_id list \<Rightarrow> para_id list \<Rightarrow> bytes list" where
  "relevant_keys b randomness_keys para_id ingress egress =
     randomness_keys @
     [key_current_slot b, key_active_config b, key_dmq_mqc_head b para_id, key_relay_dispatch_queue_size b para_id,
      key_hrmp_ingress_channel_index b para_id, key_hrmp_egress_channel_index b para_id,
      key_upgrade_go_ahead b para_id, key_upgrade_restriction b para_id] @
     map (\<lambda>sender. key_hrmp_channels b sender para_id) ingress @
     map (\<lambda>recipient. key_hrmp_channels b para_id recipient) egress"

definition collect_relay_storage_proof :: "'p relay_backend \<Rightarrow> ('p, 'k, 'e) relay_node \<Rightarrow> para_id \<Rightarrow> 'k \<Rightarrow> 'p option" where
  "collect_relay_storage_proof b node para_id relay_parent = do {
     ingress_entry \<leftarrow> ok (rn_get_storage_by_key node relay_parent (key_hrmp_ingress_channel_index b para_id));
     ingress \<leftarrow> read_index b ingress_entry;
     egress_entry \<leftarrow> ok (rn_get_storage_by_key node relay_parent (key_hrmp_egress_channel_index b para_id));
     egress \<leftarrow> read_index b egress_entry;
     ok (rn_prove_read node relay_parent (relevant_keys b (rn_randomness_keys node) para_id ingress egress))
   }"

definition create_at :: "'p relay_backend \<Rightarrow> 'k \<Rightarrow> ('p, 'k, 'e) relay_node \<Rightarrow> persisted_validation_data \<Rightarrow> para_id \<Rightarrow>
    'p parachain_inherent_data option" where
  "create_at b relay_parent node vdata para_id = do {
     state_proof \<leftarrow> collect_relay_storage_proof b node para_id relay_parent;
     downward \<leftarrow> ok (rn_retrieve_dmq_contents node para_id relay_parent);
     horizontal \<leftarrow> ok (rn_retrieve_all_inbound_hrmp_channel_contents node para_id relay_parent);
     Some \<lparr>validation_data = vdata, relay_chain_state = state_proof, downward_messages = downward,
       horizontal_messages = horizontal\<rparr>
   }"

section \<open>The proof has all that the runtime reads\<close>

text \<open>
  The relay chain has \<open>state\<close> at the relay parent: the node answers from it, and a proof of keys that it
  gives has the storage root and is readable at those keys.
\<close>

definition node_has_state :: "'p relay_backend \<Rightarrow> ('p, 'k, 'e) relay_node \<Rightarrow> 'k \<Rightarrow> relay_hash \<Rightarrow> (bytes \<Rightarrow> bytes option) \<Rightarrow> bool" where
  "node_has_state b node relay_parent root state \<longleftrightarrow>
     (\<forall>key entry. rn_get_storage_by_key node relay_parent key = Inr entry \<longrightarrow> entry = state key) \<and>
     (\<forall>keys p. rn_prove_read node relay_parent keys = Inr p \<longrightarrow>
        rb_contains_root b p root \<and> (\<forall>key \<in> set keys. rb_trie b p root key = Inr (state key)))"

definition full_state :: "para_id \<Rightarrow> (bytes \<Rightarrow> bytes option) \<Rightarrow> relay_chain_state_proof" where
  "full_state para_id state = \<lparr>rp_para_id = para_id, rp_trie = (\<lambda>key. Inr (state key))\<rparr>"

lemma ok_eq_Some [simp]: "ok r = Some a \<longleftrightarrow> r = Inr a"
  by (cases r) (auto simp: ok_def)

lemma read_entry_cong: "t key = t' key \<Longrightarrow> read_entry dec t key fallback = read_entry dec t' key fallback"
  by (simp add: read_entry_def)

lemma read_optional_entry_cong: "t key = t' key \<Longrightarrow> read_optional_entry dec t key = read_optional_entry dec t' key"
  by (simp add: read_optional_entry_def read_entry_def)

lemma read_channels_cong:
  assumes "\<And>other. other \<in> set others \<Longrightarrow>
    t (key_hrmp_channels b (fst (ends other)) (snd (ends other))) = t' (key_hrmp_channels b (fst (ends other)) (snd (ends other)))"
  shows "read_channels b t ends others = read_channels b t' ends others"
  using assms
proof (induction others)
  case (Cons other others)
  obtain src dst where ends: "ends other = (src, dst)" by force
  have "t (key_hrmp_channels b src dst) = t' (key_hrmp_channels b src dst)"
    using Cons.prems [of other] by (simp add: ends)
  then have "read_entry (dec_channel b) t (key_hrmp_channels b src dst) None =
      read_entry (dec_channel b) t' (key_hrmp_channels b src dst) None"
    by (rule read_entry_cong)
  moreover have "read_channels b t ends others = read_channels b t' ends others" using Cons by simp
  ultimately show ?case by (simp add: ends)
qed simp

lemma read_snapshot_cong:
  assumes "rp_para_id p = rp_para_id q"
    and keys: "\<And>key. key \<in> {key_dmq_mqc_head b (rp_para_id p), key_relay_dispatch_queue_size b (rp_para_id p),
      key_hrmp_ingress_channel_index b (rp_para_id p), key_hrmp_egress_channel_index b (rp_para_id p)} \<Longrightarrow>
      rp_trie p key = rp_trie q key"
    and ingress: "\<And>from. from \<in> set (relay_index b (rp_trie p) (key_hrmp_ingress_channel_index b (rp_para_id p))) \<Longrightarrow>
      rp_trie p (key_hrmp_channels b from (rp_para_id p)) = rp_trie q (key_hrmp_channels b from (rp_para_id p))"
    and egress: "\<And>to. to \<in> set (relay_index b (rp_trie p) (key_hrmp_egress_channel_index b (rp_para_id p))) \<Longrightarrow>
      rp_trie p (key_hrmp_channels b (rp_para_id p) to) = rp_trie q (key_hrmp_channels b (rp_para_id p) to)"
  shows "read_messaging_state_snapshot b p = read_messaging_state_snapshot b q"
proof -
  let ?id = "rp_para_id p"
  let ?in = "key_hrmp_ingress_channel_index b ?id" and ?out = "key_hrmp_egress_channel_index b ?id"
  have idx: "others = relay_index b (rp_trie p) key" if "read_entry (dec_para_ids b) (rp_trie q) key (Some []) = Inr others"
    "rp_trie p key = rp_trie q key" for key others
    using that read_entry_cong [of "rp_trie p" key "rp_trie q" "dec_para_ids b" "Some []"] by (simp add: relay_index_def)
  show ?thesis
    unfolding read_messaging_state_snapshot_def Let_def assms(1) [symmetric]
  proof (intro rbind_cong refl arg_cong [where f = "map_err _"] read_entry_cong keys)
    fix head size ins outs
    assume "map_err HrmpIngressChannelIndexError (read_entry (dec_para_ids b) (rp_trie q) ?in (Some [])) = Inr ins"
    then have "ins = relay_index b (rp_trie p) ?in" using idx keys by simp
    then show "read_channels b (rp_trie p) (\<lambda>from. (from, ?id)) ins = read_channels b (rp_trie q) (\<lambda>from. (from, ?id)) ins"
      using ingress by (intro read_channels_cong) simp
  next
    fix head size ins outs
    assume "map_err HrmpEgressChannelIndexError (read_entry (dec_para_ids b) (rp_trie q) ?out (Some [])) = Inr outs"
    then have "outs = relay_index b (rp_trie p) ?out" using idx keys by simp
    then show "read_channels b (rp_trie p) (\<lambda>to. (?id, to)) outs = read_channels b (rp_trie q) (\<lambda>to. (?id, to)) outs"
      using egress by (intro read_channels_cong) simp
  qed simp_all
qed

lemma create_at_proof:
  assumes "create_at b relay_parent node vdata para_id = Some data" "node_has_state b node relay_parent root state"
  shows "\<exists>ingress egress. read_index b (state (key_hrmp_ingress_channel_index b para_id)) = Some ingress \<and>
    read_index b (state (key_hrmp_egress_channel_index b para_id)) = Some egress \<and>
    rb_contains_root b (relay_chain_state data) root \<and>
    (\<forall>key \<in> set (relevant_keys b (rn_randomness_keys node) para_id ingress egress).
       rb_trie b (relay_chain_state data) root key = Inr (state key))"
  using assms
  by (fastforce simp: create_at_def collect_relay_storage_proof_def node_has_state_def Option.bind_eq_Some_conv)

lemma read_index_relay_index:
  assumes "read_index b entry = Some others" "t key = Inr entry"
  shows "relay_index b t key = others"
  using assms by (auto simp: read_index_def relay_index_def read_entry_def split: option.splits)

text \<open>C5. The node collects enough: from the inherent it creates at a relay parent, the runtime reads exactly what the
  relay chain's whole state has, for the message queues and channels, the host configuration, the slot and the
  upgrade signals; no entry is missing from the proof.\<close>

theorem collected_proof_suffices:
  assumes "create_at b relay_parent node vdata para_id = Some data"
    and "node_has_state b node relay_parent (pvd_relay_parent_storage_root vdata) state"
  shows "\<exists>p. relay_proof_new b para_id (pvd_relay_parent_storage_root (validation_data data)) (relay_chain_state data) = Inr p \<and>
    read_messaging_state_snapshot b p = read_messaging_state_snapshot b (full_state para_id state) \<and>
    read_abridged_host_configuration b p = read_abridged_host_configuration b (full_state para_id state) \<and>
    read_slot b p = read_slot b (full_state para_id state) \<and>
    read_upgrade_go_ahead_signal b p = read_upgrade_go_ahead_signal b (full_state para_id state) \<and>
    read_upgrade_restriction_signal b p = read_upgrade_restriction_signal b (full_state para_id state)"
proof -
  let ?root = "pvd_relay_parent_storage_root vdata"
  let ?p = "\<lparr>rp_para_id = para_id, rp_trie = rb_trie b (relay_chain_state data) ?root\<rparr>"
  obtain ingress egress where idx: "read_index b (state (key_hrmp_ingress_channel_index b para_id)) = Some ingress"
      "read_index b (state (key_hrmp_egress_channel_index b para_id)) = Some egress"
    and root: "rb_contains_root b (relay_chain_state data) ?root"
    and keys: "\<And>key. key \<in> set (relevant_keys b (rn_randomness_keys node) para_id ingress egress) \<Longrightarrow>
      rb_trie b (relay_chain_state data) ?root key = Inr (state key)"
    using create_at_proof [OF assms] by auto
  have vd: "validation_data data = vdata" using assms(1) by (auto simp: create_at_def Option.bind_eq_Some_conv)
  have same: "rp_trie ?p key = rp_trie (full_state para_id state) key"
    if "key \<in> set (relevant_keys b (rn_randomness_keys node) para_id ingress egress)" for key
    using keys [OF that] by (simp add: full_state_def)
  have "relay_index b (rp_trie ?p) (key_hrmp_ingress_channel_index b para_id) = ingress"
    "relay_index b (rp_trie ?p) (key_hrmp_egress_channel_index b para_id) = egress"
    by (rule read_index_relay_index [OF idx(1)], simp add: keys relevant_keys_def,
        rule read_index_relay_index [OF idx(2)], simp add: keys relevant_keys_def)
  then have "read_messaging_state_snapshot b ?p = read_messaging_state_snapshot b (full_state para_id state)"
    by (intro read_snapshot_cong same) (auto simp: relevant_keys_def full_state_def)
  moreover have "rp_trie ?p key = rp_trie (full_state para_id state) key"
    if "key \<in> {key_active_config b, key_current_slot b, key_upgrade_go_ahead b para_id, key_upgrade_restriction b para_id}" for key
    using that by (intro same) (auto simp: relevant_keys_def)
  then have "read_abridged_host_configuration b ?p = read_abridged_host_configuration b (full_state para_id state)"
    "read_slot b ?p = read_slot b (full_state para_id state)"
    "read_upgrade_go_ahead_signal b ?p = read_upgrade_go_ahead_signal b (full_state para_id state)"
    "read_upgrade_restriction_signal b ?p = read_upgrade_restriction_signal b (full_state para_id state)"
    by (simp_all add: read_abridged_host_configuration_def read_slot_def read_upgrade_go_ahead_signal_def
        read_upgrade_restriction_signal_def read_entry_def read_optional_entry_def full_state_def)
  ultimately show ?thesis using root by (auto simp: relay_proof_new_def vd)
qed

text \<open>The example relay chain, with more in its state than the proof needs.\<close>

definition toy_relay_entries :: "(bytes \<times> bytes) list" where
  "toy_relay_entries = ([77], [1]) # ([7], [3]) # toy_proof"

definition toy_node :: "((bytes \<times> bytes) list, nat, unit) relay_node" where
  "toy_node = \<lparr>rn_get_storage_by_key = (\<lambda>_ key. Inr (map_of toy_relay_entries key)),
     rn_prove_read = (\<lambda>_ keys. Inr (filter (\<lambda>(key, _). key \<in> set keys) toy_relay_entries)),
     rn_retrieve_dmq_contents = (\<lambda>_ _. Inr (downward_messages toy_inherent)),
     rn_retrieve_all_inbound_hrmp_channel_contents = (\<lambda>_ _. Inr (horizontal_messages toy_inherent)),
     rn_randomness_keys = [[91], [92], [93]]\<rparr>"

lemma toy_node_has_state: "node_has_state toy_backend toy_node 3 [1] (map_of toy_relay_entries)"
proof -
  have "map_of (filter (\<lambda>(key, _). key \<in> set keys) xs) key = map_of xs key" if "key \<in> set keys"
    for keys :: "bytes list" and key and xs :: "(bytes \<times> bytes) list"
    using that by (induction xs) auto
  then show ?thesis by (simp add: node_has_state_def toy_node_def toy_backend_def)
qed

theorem collected_proof_suffices_witness:
  "\<exists>data p. create_at toy_backend 3 toy_node (validation_data toy_inherent) 9 = Some data \<and>
     length (relay_chain_state data) = 9 \<and> relay_proof_new toy_backend 9 [1] (relay_chain_state data) = Inr p \<and>
     read_messaging_state_snapshot toy_backend p = Inr toy_snapshot"
proof -
  have "case create_at toy_backend 3 toy_node (validation_data toy_inherent) 9 of
      None \<Rightarrow> False | Some data \<Rightarrow> length (relay_chain_state data) = 9" by code_simp
  then obtain data where data: "create_at toy_backend 3 toy_node (validation_data toy_inherent) 9 = Some data"
      "length (relay_chain_state data) = 9"
    by (auto split: option.splits)
  have vd: "validation_data data = validation_data toy_inherent"
    using data(1) by (auto simp: create_at_def Option.bind_eq_Some_conv)
  have "read_messaging_state_snapshot toy_backend (full_state 9 (map_of toy_relay_entries)) = Inr toy_snapshot"
    by code_simp
  moreover have "pvd_relay_parent_storage_root (validation_data toy_inherent) = [1]" by (simp add: toy_inherent_def)
  ultimately show ?thesis
    using collected_proof_suffices [OF data(1), of "map_of toy_relay_entries"] toy_node_has_state data vd by auto
qed

end
