(* ===== verification/Client_Interface.thy ===== *)
theory Client_Interface
  imports Validate_Block
begin

text \<open>
  What the node-side crates under \<^verbatim>\<open>src/client\<close> use of the Substrate client: headers, the status of a
  block, and the information about the chain a client gives at a moment.  A client changes while the crates run,
  so each of their steps is given the view of it that it reads.
\<close>

datatype block_status = Queued | InChainWithState | InChainPruned | KnownBad | UnknownBlock

datatype block_origin = Genesis | NetworkInitialSync | NetworkBroadcast | ConsensusBroadcast | Own | FileOrigin

record ('hd, 'h) header_ops =
  hd_decode :: "bytes \<Rightarrow> 'hd option"
  hd_encode :: "'hd \<Rightarrow> bytes"
  hd_hash :: "'hd \<Rightarrow> 'h"
  hd_parent :: "'hd \<Rightarrow> 'h"
  hd_number :: "'hd \<Rightarrow> u32"

record 'h chain_view =
  best_hash :: 'h
  best_number :: u32
  finalized_hash :: 'h
  finalized_number :: u32
  status_of :: "'h \<Rightarrow> (unit, block_status) result"

end
