(* ===== verification/Block_Announce.thy ===== *)
theory Block_Announce
  imports Client_Interface
begin

text \<open>
  Announcing blocks with the statement of a validator and checking such announcements,
  \<^verbatim>\<open>src/client/network/src/lib.rs\<close>.  Relay chain hashes, signatures and validators are type variables; the
  codecs, the hash functions and the check of a signature are fields of a configuration, and the answers of the
  relay chain node are a record of functions, each of which may fail.
\<close>

section \<open>Data\<close>

record ('k, 'x) candidate_receipt =
  cr_relay_parent :: 'k
  cr_para_head :: 'k
  cr_rest :: 'x

datatype 'k compact_statement = Seconded 'k | Valid 'k

record ('k, 'sig) unchecked_signed =
  us_payload :: "'k compact_statement"
  us_validator_index :: u32
  us_signature :: 'sig

record ('k, 'x, 'sig) block_announce_data =
  ad_receipt :: "('k, 'x) candidate_receipt"
  ad_statement :: "('k, 'sig) unchecked_signed"
  ad_relay_parent :: 'k

text \<open>The signal that a validator seconded a collation: the full statement carries the committed receipt \<open>'c\<close>.\<close>

datatype ('c, 'k) full_statement = FullSeconded 'c | FullValid 'k

record ('c, 'k, 'sig) collation_seconded_signal =
  cs_payload :: "('c, 'k) full_statement"
  cs_validator_index :: u32
  cs_signature :: 'sig
  cs_relay_parent :: 'k

record ('hd, 'h, 'k, 'x, 'c, 'sig, 'v) announce_config =
  an_header :: "('hd, 'h) header_ops"
  an_encode_receipt :: "('k, 'x) candidate_receipt \<Rightarrow> bytes"
  an_decode_receipt :: "bytes \<Rightarrow> (('k, 'x) candidate_receipt \<times> bytes) option"
  an_encode_statement :: "('k, 'sig) unchecked_signed \<Rightarrow> bytes"
  an_decode_statement :: "bytes \<Rightarrow> (('k, 'sig) unchecked_signed \<times> bytes) option"
  an_encode_hash :: "'k \<Rightarrow> bytes"
  an_decode_hash :: "bytes \<Rightarrow> ('k \<times> bytes) option"
  an_receipt_hash :: "('k, 'x) candidate_receipt \<Rightarrow> 'k"
  an_head_hash :: "bytes \<Rightarrow> 'k"
  an_to_plain :: "'c \<Rightarrow> ('k, 'x) candidate_receipt"
  an_committed_hash :: "'c \<Rightarrow> 'k"
  an_check_signed :: "('k, 'sig) unchecked_signed \<Rightarrow> 'k \<times> u32 \<Rightarrow> 'v \<Rightarrow> bool"
  an_para_id :: para_id

record ('k, 'x, 'v, 'e) relay_interface =
  ri_is_major_syncing :: "('e, bool) result"
  ri_best_block_hash :: "('e, 'k) result"
  ri_persisted_validation_data :: "'k \<Rightarrow> para_id \<Rightarrow> ('e, persisted_validation_data option) result"
  ri_candidate_pending_availability :: "'k \<Rightarrow> para_id \<Rightarrow> ('e, ('k, 'x) candidate_receipt option) result"
  ri_wait_for_block :: "'k \<Rightarrow> ('e, unit) result"
  ri_session_index_for_child :: "'k \<Rightarrow> ('e, u32) result"
  ri_validators :: "'k \<Rightarrow> ('e, 'v list) result"

datatype 'e announce_error = RelayChainError 'e | NoParachainHead | BadParachainHead | BadAnnounceData

datatype announce_validation = AnnounceSuccess bool | AnnounceFailure bool

section \<open>The data of an announcement\<close>

definition announce_data_encode :: "('hd, 'h, 'k, 'x, 'c, 'sig, 'v) announce_config \<Rightarrow> ('k, 'x, 'sig) block_announce_data \<Rightarrow> bytes" where
  "announce_data_encode cfg d =
     an_encode_receipt cfg (ad_receipt d) @ an_encode_statement cfg (ad_statement d) @ an_encode_hash cfg (ad_relay_parent d)"

text \<open>A missing relay parent is read from the receipt; reading it does not consume input when it fails.\<close>

definition announce_data_decode :: "('hd, 'h, 'k, 'x, 'c, 'sig, 'v) announce_config \<Rightarrow> bytes \<Rightarrow>
    (('k, 'x, 'sig) block_announce_data \<times> bytes) option" where
  "announce_data_decode cfg input = do {
     (receipt, input1) \<leftarrow> an_decode_receipt cfg input;
     (statement, input2) \<leftarrow> an_decode_statement cfg input1;
     let (relay_parent, input3) =
       (case an_decode_hash cfg input2 of Some (p, rest) \<Rightarrow> (p, rest) | None \<Rightarrow> (cr_relay_parent receipt, input2));
     Some (\<lparr>ad_receipt = receipt, ad_statement = statement, ad_relay_parent = relay_parent\<rparr>, input3)
   }"

definition announce_data_decode_all :: "('hd, 'h, 'k, 'x, 'c, 'sig, 'v) announce_config \<Rightarrow> bytes \<Rightarrow>
    ('k, 'x, 'sig) block_announce_data option" where
  "announce_data_decode_all cfg input =
     (case announce_data_decode cfg input of Some (d, []) \<Rightarrow> Some d | _ \<Rightarrow> None)"

definition announce_data_validate :: "('hd, 'h, 'k, 'x, 'c, 'sig, 'v) announce_config \<Rightarrow> ('k, 'x, 'sig) block_announce_data \<Rightarrow>
    bytes \<Rightarrow> (announce_validation, unit) result" where
  "announce_data_validate cfg d encoded_header =
     (case us_payload (ad_statement d) of
        Valid _ \<Rightarrow> Inl (AnnounceFailure True)
      | Seconded candidate_hash \<Rightarrow>
          if candidate_hash \<noteq> an_receipt_hash cfg (ad_receipt d) then Inl (AnnounceFailure True)
          else if an_head_hash cfg encoded_header \<noteq> cr_para_head (ad_receipt d) then Inl (AnnounceFailure True)
          else Inr ())"

definition announce_check_signature :: "('hd, 'h, 'k, 'x, 'c, 'sig, 'v) announce_config \<Rightarrow> ('k, 'x, 'v, 'e) relay_interface \<Rightarrow>
    ('k, 'x, 'sig) block_announce_data \<Rightarrow> ('e announce_error, announce_validation) result" where
  "announce_check_signature cfg relay d =
     (let validator_index = us_validator_index (ad_statement d) in
      rbind (map_err RelayChainError (ri_session_index_for_child relay (ad_relay_parent d))) (\<lambda>session_index.
      rbind (map_err RelayChainError (ri_validators relay (ad_relay_parent d))) (\<lambda>authorities.
      Inr (if unat validator_index < length authorities then
             if an_check_signed cfg (ad_statement d) (ad_relay_parent d, session_index) (authorities ! unat validator_index)
             then AnnounceSuccess True
             else AnnounceFailure True
           else AnnounceFailure True))))"

definition announce_data_try_from :: "('hd, 'h, 'k, 'x, 'c, 'sig, 'v) announce_config \<Rightarrow> ('c, 'k, 'sig) collation_seconded_signal \<Rightarrow>
    ('k, 'x, 'sig) block_announce_data option" where
  "announce_data_try_from cfg signal =
     (case cs_payload signal of
        FullValid _ \<Rightarrow> None
      | FullSeconded receipt \<Rightarrow>
          Some \<lparr>ad_receipt = an_to_plain cfg receipt,
            ad_statement = \<lparr>us_payload = Seconded (an_committed_hash cfg receipt),
              us_validator_index = cs_validator_index signal, us_signature = cs_signature signal\<rparr>,
            ad_relay_parent = cs_relay_parent signal\<rparr>)"

section \<open>The validator of announcements\<close>

definition included_block :: "('hd, 'h, 'k, 'x, 'c, 'sig, 'v) announce_config \<Rightarrow> ('k, 'x, 'v, 'e) relay_interface \<Rightarrow> 'k \<Rightarrow>
    ('e announce_error, 'hd) result" where
  "included_block cfg relay hash =
     rbind (map_err RelayChainError (ri_persisted_validation_data relay hash (an_para_id cfg))) (\<lambda>validation_data.
     rbind (ok_or validation_data NoParachainHead) (\<lambda>vd.
     ok_or (hd_decode (an_header cfg) (pvd_parent_head vd)) BadParachainHead))"

definition backed_block_hash :: "('hd, 'h, 'k, 'x, 'c, 'sig, 'v) announce_config \<Rightarrow> ('k, 'x, 'v, 'e) relay_interface \<Rightarrow> 'k \<Rightarrow>
    ('e announce_error, 'k option) result" where
  "backed_block_hash cfg relay hash =
     rbind (map_err RelayChainError (ri_candidate_pending_availability relay hash (an_para_id cfg))) (\<lambda>candidate_receipt.
     Inr (map_option cr_para_head candidate_receipt))"

definition handle_empty_block_announce_data :: "('hd, 'h, 'k, 'x, 'c, 'sig, 'v) announce_config \<Rightarrow>
    ('k, 'x, 'v, 'e) relay_interface \<Rightarrow> 'hd \<Rightarrow> ('e announce_error, announce_validation) result" where
  "handle_empty_block_announce_data cfg relay header =
     rbind (map_err RelayChainError (ri_best_block_hash relay)) (\<lambda>relay_chain_best_hash.
     rbind (included_block cfg relay relay_chain_best_hash) (\<lambda>best_head.
     if best_head = header then Inr (AnnounceSuccess True)
     else
       rbind (backed_block_hash cfg relay relay_chain_best_hash) (\<lambda>backed_block.
       Inr (if Some (an_head_hash cfg (hd_encode (an_header cfg) header)) = backed_block then AnnounceSuccess True
            else if hd_number (an_header cfg) best_head \<le> hd_number (an_header cfg) header then AnnounceFailure False
            else AnnounceSuccess False))))"

definition announce_validate :: "('hd, 'h, 'k, 'x, 'c, 'sig, 'v) announce_config \<Rightarrow> ('k, 'x, 'v, 'e) relay_interface \<Rightarrow> 'hd \<Rightarrow>
    bytes \<Rightarrow> ('e announce_error, announce_validation) result" where
  "announce_validate cfg relay header data =
     (let relay_chain_is_syncing = (case ri_is_major_syncing relay of Inl _ \<Rightarrow> False | Inr b \<Rightarrow> b) in
      if relay_chain_is_syncing then Inr (AnnounceSuccess False)
      else if data = [] then handle_empty_block_announce_data cfg relay header
      else
        rbind (ok_or (announce_data_decode_all cfg data) BadAnnounceData) (\<lambda>block_announce_data.
        case announce_data_validate cfg block_announce_data (hd_encode (an_header cfg) header) of
          Inl e \<Rightarrow> Inr e
        | Inr _ \<Rightarrow>
            rbind (map_err RelayChainError (ri_wait_for_block relay (cr_relay_parent (ad_receipt block_announce_data)))) (\<lambda>_.
            announce_check_signature cfg relay block_announce_data)))"

section \<open>Announcing\<close>

text \<open>What is announced for a block once the signal arrives, if it does.\<close>

definition wait_to_announce :: "('hd, 'h, 'k, 'x, 'c, 'sig, 'v) announce_config \<Rightarrow> 'h \<Rightarrow>
    ('c, 'k, 'sig) collation_seconded_signal option \<Rightarrow> ('h \<times> bytes) option" where
  "wait_to_announce cfg block_hash signed_stmt_recv =
     (case signed_stmt_recv of
        None \<Rightarrow> None
      | Some signal \<Rightarrow> map_option (\<lambda>d. (block_hash, announce_data_encode cfg d)) (announce_data_try_from cfg signal))"

section \<open>Decoding undoes encoding\<close>

text \<open>The three codecs, as the interface of codecs has them.\<close>

definition announce_codecs :: "('hd, 'h, 'k, 'x, 'c, 'sig, 'v) announce_config \<Rightarrow> bool" where
  "announce_codecs cfg \<longleftrightarrow> scale_codec (an_encode_receipt cfg) (an_decode_receipt cfg) \<and>
     scale_codec (an_encode_statement cfg) (an_decode_statement cfg) \<and>
     scale_codec (an_encode_hash cfg) (an_decode_hash cfg)"

lemma announce_codecsD:
  assumes "announce_codecs cfg"
  shows "an_decode_receipt cfg (an_encode_receipt cfg r @ rest) = Some (r, rest)"
    and "an_decode_statement cfg (an_encode_statement cfg st @ rest) = Some (st, rest)"
    and "an_decode_hash cfg (an_encode_hash cfg h @ rest) = Some (h, rest)"
    and "an_decode_receipt cfg bs = Some (r, rest) \<Longrightarrow> length rest < length bs"
    and "an_decode_statement cfg bs = Some (st, rest) \<Longrightarrow> length rest < length bs"
    and "an_decode_hash cfg bs = Some (h, rest) \<Longrightarrow> length rest < length bs"
  using assms unfolding announce_codecs_def by (auto simp: scale_codec.dec_enc dest: scale_codec.dec_consumes)

lemma announce_data_codec:
  assumes "announce_codecs cfg"
  shows "scale_codec (announce_data_encode cfg) (announce_data_decode cfg)"
proof
  show "announce_data_decode cfg (announce_data_encode cfg d @ rest) = Some (d, rest)" for d rest
    by (simp add: announce_data_decode_def announce_data_encode_def announce_codecsD(1-3) [OF assms])
  show "length rest < length bs" if "announce_data_decode cfg bs = Some (d, rest)" for bs d rest
    using that announce_codecsD(4-6) [OF assms]
    by (fastforce simp: announce_data_decode_def Option.bind_eq_Some_conv Let_def split: option.splits prod.splits)
qed

lemma announce_data_decode_all_encode:
  assumes "announce_codecs cfg"
  shows "announce_data_decode_all cfg (announce_data_encode cfg d) = Some d" "announce_data_encode cfg d \<noteq> []"
  using scale_codec.dec_enc [OF announce_data_codec [OF assms], of d "[]"]
    scale_codec.enc_nonempty [OF announce_data_codec [OF assms], of d]
  by (simp_all add: announce_data_decode_all_def)

text \<open>An announcement of an older node, without the relay parent, is read with that of the receipt.\<close>

lemma announce_data_decode_old:
  assumes "announce_codecs cfg"
  shows "announce_data_decode_all cfg (an_encode_receipt cfg r @ an_encode_statement cfg st) =
    Some \<lparr>ad_receipt = r, ad_statement = st, ad_relay_parent = cr_relay_parent r\<rparr>"
proof -
  have "an_decode_hash cfg [] = None"
    using announce_codecsD(6) [OF assms, of "[]"] by (cases "an_decode_hash cfg []") auto
  then show ?thesis
    using announce_codecsD(1) [OF assms] announce_codecsD(2) [OF assms, of st "[]"]
    by (simp add: announce_data_decode_all_def announce_data_decode_def)
qed

section \<open>Properties\<close>

text \<open>C28. What a collator announces is accepted: when the signal for its block carries a seconding statement signed by
  a validator of the session, the announcement that is sent makes every node that is not syncing take the header
  as a new best block.\<close>

theorem announcement_accepted:
  assumes "announce_codecs cfg" "\<And>c. an_committed_hash cfg c = an_receipt_hash cfg (an_to_plain cfg c)"
    and "cs_payload signal = FullSeconded c"
    and "cr_para_head (an_to_plain cfg c) = an_head_hash cfg (hd_encode (an_header cfg) header)"
    and "ri_is_major_syncing relay \<noteq> Inr True" "ri_wait_for_block relay (cr_relay_parent (an_to_plain cfg c)) = Inr ()"
    and "ri_session_index_for_child relay (cs_relay_parent signal) = Inr session"
    and "ri_validators relay (cs_relay_parent signal) = Inr authorities"
    and "unat (cs_validator_index signal) < length authorities"
    and "an_check_signed cfg \<lparr>us_payload = Seconded (an_committed_hash cfg c),
        us_validator_index = cs_validator_index signal, us_signature = cs_signature signal\<rparr>
      (cs_relay_parent signal, session) (authorities ! unat (cs_validator_index signal))"
  shows "\<exists>data. wait_to_announce cfg block_hash (Some signal) = Some (block_hash, data) \<and>
    announce_validate cfg relay header data = Inr (AnnounceSuccess True)"
proof -
  obtain d where d: "announce_data_try_from cfg signal = Some d"
    "us_payload (ad_statement d) = Seconded (an_receipt_hash cfg (ad_receipt d))"
    "cr_para_head (ad_receipt d) = an_head_hash cfg (hd_encode (an_header cfg) header)"
    "announce_check_signature cfg relay d = Inr (AnnounceSuccess True)"
    "ri_wait_for_block relay (cr_relay_parent (ad_receipt d)) = Inr ()"
    using assms(2-4,6-10) by (simp add: announce_data_try_from_def announce_check_signature_def)
  have "announce_validate cfg relay header (announce_data_encode cfg d) = Inr (AnnounceSuccess True)"
    using announce_data_decode_all_encode [OF assms(1), of d] d(2-5) assms(5)
    by (auto simp: announce_validate_def announce_data_validate_def split: sum.split)
  then show ?thesis using d(1) by (simp add: wait_to_announce_def)
qed

text \<open>C10. A node takes an announced header as a new best block only with evidence of the relay chain: either the
  announcement carries a statement for a candidate whose head is the header, signed by the validator of that index
  of the session, or the header is the included head or that of the backed candidate at the best relay chain block.\<close>

theorem announced_best_has_evidence:
  assumes "announce_validate cfg relay header data = Inr (AnnounceSuccess True)"
  shows "(\<exists>d session authorities. announce_data_decode_all cfg data = Some d \<and>
      us_payload (ad_statement d) = Seconded (an_receipt_hash cfg (ad_receipt d)) \<and>
      cr_para_head (ad_receipt d) = an_head_hash cfg (hd_encode (an_header cfg) header) \<and>
      ri_session_index_for_child relay (ad_relay_parent d) = Inr session \<and>
      ri_validators relay (ad_relay_parent d) = Inr authorities \<and>
      unat (us_validator_index (ad_statement d)) < length authorities \<and>
      an_check_signed cfg (ad_statement d) (ad_relay_parent d, session)
        (authorities ! unat (us_validator_index (ad_statement d)))) \<or>
    (data = [] \<and> (\<exists>best. ri_best_block_hash relay = Inr best \<and>
      (included_block cfg relay best = Inr header \<or>
       backed_block_hash cfg relay best = Inr (Some (an_head_hash cfg (hd_encode (an_header cfg) header))))))"
proof (cases "data = []")
  case True
  then show ?thesis
    using assms
    by (auto simp: announce_validate_def Let_def handle_empty_block_announce_data_def result_simps split: if_splits sum.splits)
next
  case False
  then obtain d where d: "announce_data_decode_all cfg data = Some d"
    "announce_data_validate cfg d (hd_encode (an_header cfg) header) = Inr ()"
    "announce_check_signature cfg relay d = Inr (AnnounceSuccess True)"
    using assms
    by (auto simp: announce_validate_def Let_def result_simps announce_data_validate_def
        split: if_splits sum.splits compact_statement.splits)
  then show ?thesis
    by (auto simp: announce_data_validate_def announce_check_signature_def Let_def result_simps
        split: if_splits compact_statement.splits)
qed

section \<open>An example\<close>

text \<open>Numbers are written in unary, hashes are numbers, and a validator signs with its own number.\<close>

definition unary_encode :: "nat \<Rightarrow> bytes" where
  "unary_encode n = replicate n 0 @ [1]"

fun unary_decode :: "bytes \<Rightarrow> (nat \<times> bytes) option" where
  "unary_decode [] = None"
| "unary_decode (b # bs) =
     (if b = 0 then map_option (\<lambda>(n, rest). (Suc n, rest)) (unary_decode bs) else if b = 1 then Some (0, bs) else None)"

lemma unary_codec: "scale_codec unary_encode unary_decode"
proof
  show "unary_decode (unary_encode n @ rest) = Some (n, rest)" for n rest
    by (induction n) (auto simp: unary_encode_def)
  show "unary_decode bs = Some (n, rest) \<Longrightarrow> length rest < length bs" for bs n rest
    by (induction bs arbitrary: n) (fastforce split: if_splits)+
qed

lemmas unary_laws = scale_codec.dec_enc [OF unary_codec] scale_codec.dec_consumes [OF unary_codec]

definition toy_receipt_decode :: "bytes \<Rightarrow> ((nat, nat) candidate_receipt \<times> bytes) option" where
  "toy_receipt_decode bs = do {
     (p, bs1) \<leftarrow> unary_decode bs; (h, bs2) \<leftarrow> unary_decode bs1; (x, bs3) \<leftarrow> unary_decode bs2;
     Some (\<lparr>cr_relay_parent = p, cr_para_head = h, cr_rest = x\<rparr>, bs3)
   }"

definition toy_statement_decode :: "bytes \<Rightarrow> ((nat, nat) unchecked_signed \<times> bytes) option" where
  "toy_statement_decode bs = do {
     (tag, bs1) \<leftarrow> unary_decode bs; (h, bs2) \<leftarrow> unary_decode bs1; (i, bs3) \<leftarrow> unary_decode bs2;
     (g, bs4) \<leftarrow> unary_decode bs3;
     Some (\<lparr>us_payload = (if tag = 0 then Seconded h else Valid h), us_validator_index = of_nat i, us_signature = g\<rparr>, bs4)
   }"

definition toy_announce :: "(nat, nat, nat, nat, nat, nat, nat) announce_config" where
  "toy_announce = \<lparr>an_header = \<lparr>hd_decode = (\<lambda>bs. Some (length bs)), hd_encode = (\<lambda>h. replicate h 0),
       hd_hash = Suc, hd_parent = (\<lambda>h. h), hd_number = of_nat\<rparr>,
     an_encode_receipt = (\<lambda>r. unary_encode (cr_relay_parent r) @ unary_encode (cr_para_head r) @ unary_encode (cr_rest r)),
     an_decode_receipt = toy_receipt_decode,
     an_encode_statement = (\<lambda>s. (case us_payload s of
         Seconded h \<Rightarrow> unary_encode 0 @ unary_encode h | Valid h \<Rightarrow> unary_encode 1 @ unary_encode h) @
       unary_encode (unat (us_validator_index s)) @ unary_encode (us_signature s)),
     an_decode_statement = toy_statement_decode,
     an_encode_hash = unary_encode, an_decode_hash = unary_decode,
     an_receipt_hash = (\<lambda>r. cr_para_head r + cr_rest r), an_head_hash = length,
     an_to_plain = (\<lambda>c. \<lparr>cr_relay_parent = 3, cr_para_head = c, cr_rest = 7\<rparr>), an_committed_hash = (\<lambda>c. c + 7),
     an_check_signed = (\<lambda>s _ v. us_signature s = v), an_para_id = 9\<rparr>"

definition toy_relay :: "(nat, nat, nat, unit) relay_interface" where
  "toy_relay = \<lparr>ri_is_major_syncing = Inl (), ri_best_block_hash = Inr 3,
     ri_persisted_validation_data = (\<lambda>_ _. Inr None), ri_candidate_pending_availability = (\<lambda>_ _. Inr None),
     ri_wait_for_block = (\<lambda>_. Inr ()), ri_session_index_for_child = (\<lambda>_. Inr 1), ri_validators = (\<lambda>_. Inr [20, 21])\<rparr>"

definition toy_seconded :: "(nat, nat, nat) collation_seconded_signal" where
  "toy_seconded = \<lparr>cs_payload = FullSeconded 4, cs_validator_index = 1, cs_signature = 21, cs_relay_parent = 3\<rparr>"

lemma toy_announce_codecs: "announce_codecs toy_announce"
  unfolding announce_codecs_def
proof (intro conjI)
  show "scale_codec (an_encode_receipt toy_announce) (an_decode_receipt toy_announce)"
    by unfold_locales
      (auto simp: toy_announce_def toy_receipt_decode_def unary_laws(1) Option.bind_eq_Some_conv dest!: unary_laws(2))
  show "scale_codec (an_encode_statement toy_announce) (an_decode_statement toy_announce)"
  proof
    show "an_decode_statement toy_announce (an_encode_statement toy_announce s @ rest) = Some (s, rest)" for s rest
      by (cases "us_payload s") (simp_all add: toy_announce_def toy_statement_decode_def unary_laws(1))
    show "length rest < length bs" if "an_decode_statement toy_announce bs = Some (s, rest)" for bs s rest
      using that by (auto simp: toy_announce_def toy_statement_decode_def Option.bind_eq_Some_conv dest!: unary_laws(2))
  qed
  show "scale_codec (an_encode_hash toy_announce) (an_decode_hash toy_announce)"
    by (simp add: toy_announce_def unary_codec)
qed

theorem announcement_accepted_witness:
  "\<exists>data. wait_to_announce toy_announce 5 (Some toy_seconded) = Some (5, data) \<and>
     announce_validate toy_announce toy_relay 4 data = Inr (AnnounceSuccess True)"
  by (rule announcement_accepted [where c = 4 and session = 1 and authorities = "[20, 21]", OF toy_announce_codecs])
    (simp_all add: toy_announce_def toy_relay_def toy_seconded_def)

theorem announced_best_has_evidence_witness:
  "\<exists>data d. announce_data_decode_all toy_announce data = Some d \<and>
     us_payload (ad_statement d) = Seconded (an_receipt_hash toy_announce (ad_receipt d))"
proof -
  have "case wait_to_announce toy_announce 5 (Some toy_seconded) of None \<Rightarrow> False | Some (_, data) \<Rightarrow>
      data \<noteq> [] \<and> announce_validate toy_announce toy_relay 4 data = Inr (AnnounceSuccess True)" by code_simp
  then obtain data where data: "data \<noteq> []" "announce_validate toy_announce toy_relay 4 data = Inr (AnnounceSuccess True)"
    by (auto split: option.splits)
  show ?thesis using announced_best_has_evidence [OF data(2)] data(1) by blast
qed

end
