(* ===== verification/Collator.thy ===== *)
theory Collator
  imports Block_Announce
begin

text \<open>
  The collator, \<^verbatim>\<open>src/client/collator/src/lib.rs\<close>: it asks the consensus of the parachain for a block on
  the head the relay chain knows, wraps it with its storage proof for the validators, and commits to what the
  runtime reports about it.  The consensus, the runtime interface, the codec, the compaction of proofs and the
  compression are parameters.
\<close>

section \<open>Collation information of the first version of the runtime interface\<close>

record collation_info_v1 =
  v1_upward_messages :: "bytes list"
  v1_horizontal_messages :: "outbound_hrmp_message list"
  v1_new_validation_code :: "bytes option"
  v1_processed_downward_messages :: u32
  v1_hrmp_watermark :: relay_block_number

definition into_latest :: "collation_info_v1 \<Rightarrow> bytes \<Rightarrow> collation_info" where
  "into_latest self head_data = \<lparr>
     ci_upward_messages = v1_upward_messages self,
     ci_horizontal_messages = v1_horizontal_messages self,
     ci_new_validation_code = v1_new_validation_code self,
     ci_processed_downward_messages = v1_processed_downward_messages self,
     ci_hrmp_watermark = v1_hrmp_watermark self,
     ci_head_data = head_data\<rparr>"

section \<open>The collator\<close>

record collation =
  col_upward_messages :: "bytes list"
  col_new_validation_code :: "bytes option"
  col_processed_downward_messages :: u32
  col_horizontal_messages :: "outbound_hrmp_message list"
  col_hrmp_watermark :: relay_block_number
  col_head_data :: bytes
  col_proof_of_validity :: bytes

text \<open>
  \<open>'sp\<close> is the storage proof recorded while building a block and \<open>'pf\<close> its compact form;
  \<open>'e\<close> is an error of the runtime interface.
\<close>

record ('hd, 'h, 'ext, 'sp, 'pf, 'e) collator_config =
  co_header :: "('hd, 'h) header_ops"
  co_state_root :: "'hd \<Rightarrow> bytes"
  co_api_version :: "'h \<Rightarrow> ('e, u32 option) result"
  co_collect_before_version_2 :: "'h \<Rightarrow> ('e, collation_info_v1) result"
  co_collect_collation_info :: "'h \<Rightarrow> 'hd \<Rightarrow> ('e, collation_info) result"
  co_produce_candidate :: "'hd \<Rightarrow> relay_hash \<Rightarrow> persisted_validation_data \<Rightarrow> (('hd \<times> 'ext list) \<times> 'sp) option"
  co_into_compact_proof :: "'sp \<Rightarrow> bytes \<Rightarrow> 'pf option"
  co_encode_block_data :: "('hd, 'ext, 'pf) parachain_block_data \<Rightarrow> bytes"
  co_maybe_compress_pov :: "bytes \<Rightarrow> bytes"

text \<open>The branches of a block that is not good to build on differ only in what they log.\<close>

definition check_block_status :: "'h chain_view \<Rightarrow> 'h \<Rightarrow> bool" where
  "check_block_status client hash =
     (case status_of client hash of
        Inr Queued \<Rightarrow> False
      | Inr InChainWithState \<Rightarrow> True
      | Inr InChainPruned \<Rightarrow> False
      | Inr KnownBad \<Rightarrow> False
      | Inr UnknownBlock \<Rightarrow> False
      | Inl _ \<Rightarrow> False)"

definition fetch_collation_info :: "('hd, 'h, 'ext, 'sp, 'pf, 'e) collator_config \<Rightarrow> 'h \<Rightarrow> 'hd \<Rightarrow>
    ('e, collation_info option) result" where
  "fetch_collation_info cfg block_hash header =
     rbind (co_api_version cfg block_hash) (\<lambda>version.
       case version of
         None \<Rightarrow> Inr None
       | Some api_version \<Rightarrow>
           rbind (if api_version < 2
                  then rbind (co_collect_before_version_2 cfg block_hash) (\<lambda>info.
                    Inr (into_latest info (hd_encode (co_header cfg) header)))
                  else co_collect_collation_info cfg block_hash header) (\<lambda>collation_info.
           Inr (Some collation_info)))"

definition build_collation :: "('hd, 'h, 'ext, 'sp, 'pf, 'e) collator_config \<Rightarrow> ('hd, 'ext, 'pf) parachain_block_data \<Rightarrow>
    'h \<Rightarrow> bytes \<Rightarrow> collation option" where
  "build_collation cfg block block_hash pov =
     (case fetch_collation_info cfg block_hash (pbd_header block) of
        Inr (Some collation_info) \<Rightarrow>
          Some \<lparr>col_upward_messages = ci_upward_messages collation_info,
            col_new_validation_code = ci_new_validation_code collation_info,
            col_processed_downward_messages = ci_processed_downward_messages collation_info,
            col_horizontal_messages = ci_horizontal_messages collation_info,
            col_hrmp_watermark = ci_hrmp_watermark collation_info,
            col_head_data = ci_head_data collation_info,
            col_proof_of_validity = pov\<rparr>
      | _ \<Rightarrow> None)"

text \<open>The second component is the hash of the block that is announced once it is seconded.\<close>

definition produce_candidate :: "('hd, 'h, 'ext, 'sp, 'pf, 'e) collator_config \<Rightarrow> 'h chain_view \<Rightarrow> relay_hash \<Rightarrow>
    persisted_validation_data \<Rightarrow> (collation \<times> 'h) option" where
  "produce_candidate cfg client relay_parent vdata = do {
     last_head \<leftarrow> hd_decode (co_header cfg) (pvd_parent_head vdata);
     let last_head_hash = hd_hash (co_header cfg) last_head;
     _ \<leftarrow> assert_that (check_block_status client last_head_hash);
     ((header, extrinsics), proof) \<leftarrow> co_produce_candidate cfg last_head relay_parent vdata;
     compact_proof \<leftarrow> co_into_compact_proof cfg proof (co_state_root cfg last_head);
     let b = block_data_new header extrinsics compact_proof;
     let pov = co_maybe_compress_pov cfg (co_encode_block_data cfg b);
     let block_hash = hd_hash (co_header cfg) header;
     collation \<leftarrow> build_collation cfg b block_hash pov;
     Some (collation, block_hash)
   }"

section \<open>Agreement with validation\<close>

text \<open>The validation result that a collation claims.\<close>

definition claimed_result :: "collation \<Rightarrow> validation_result" where
  "claimed_result c = \<lparr>
     vr_head_data = col_head_data c,
     vr_new_validation_code = col_new_validation_code c,
     vr_upward_messages = col_upward_messages c,
     vr_processed_downward_messages = col_processed_downward_messages c,
     vr_horizontal_messages = col_horizontal_messages c,
     vr_hrmp_watermark = col_hrmp_watermark c\<rparr>"

text \<open>
  What ties a collator to the validation function of its runtime: the same codec and hash of headers, a codec of block
  data and a compression that decompression undoes, and a runtime interface of the current version that answers from
  the state in which the execution of the block leaves the pallet.
\<close>

definition same_runtime :: "('p, 'w) psys_config \<Rightarrow> ('p, 'w, 'hd, 'ext, 'pf) vb_config \<Rightarrow> (bytes \<Rightarrow> bytes option) \<Rightarrow>
    validation_params \<Rightarrow> ('hd, bytes, 'ext, 'sp, 'pf, 'e) collator_config \<Rightarrow> bool" where
  "same_runtime pcfg vb decompress params cfg \<longleftrightarrow>
     (\<forall>d. vb_decode_block_data vb (co_encode_block_data cfg d) = Some d) \<and>
     (\<forall>bs. decompress (co_maybe_compress_pov cfg bs) = Some bs) \<and> hd_hash (co_header cfg) = vb_hash vb \<and>
     (\<forall>d parent s s'. vb_decode_block_data vb (vp_block_data params) = Some d \<longrightarrow>
        vb_decode_header vb (vp_parent_head params) = Some parent \<longrightarrow>
        vb_backend vb (pbd_storage_proof d) (vb_state_root vb parent) = Some s \<longrightarrow>
        vb_execute_block vb (pcfg\<lparr>ps_validation_params := Some params\<rparr>) (into_block d) s = Some s' \<longrightarrow>
        co_api_version cfg (vb_hash vb (pbd_header d)) = Inr (Some 2) \<and>
        co_collect_collation_info cfg (vb_hash vb (pbd_header d)) (pbd_header d) =
          Inr (collect_collation_info (vb_encode_header vb) (pbd_header d) s'))"

lemma check_block_status_iff: "check_block_status client hash \<longleftrightarrow> status_of client hash = Inr InChainWithState"
  by (auto simp: check_block_status_def split: sum.splits block_status.splits)

lemma produce_candidate_steps:
  assumes "produce_candidate cfg client relay_parent vdata = Some (c, bh)"
  obtains last_head b where "hd_decode (co_header cfg) (pvd_parent_head vdata) = Some last_head"
    "status_of client (hd_hash (co_header cfg) last_head) = Inr InChainWithState"
    "bh = hd_hash (co_header cfg) (pbd_header b)"
    "build_collation cfg b bh (co_maybe_compress_pov cfg (co_encode_block_data cfg b)) = Some c"
proof -
  obtain last_head header extrinsics compact_proof where
    "hd_decode (co_header cfg) (pvd_parent_head vdata) = Some last_head"
    "status_of client (hd_hash (co_header cfg) last_head) = Inr InChainWithState"
    "bh = hd_hash (co_header cfg) header"
    "build_collation cfg (block_data_new header extrinsics compact_proof) bh
       (co_maybe_compress_pov cfg (co_encode_block_data cfg (block_data_new header extrinsics compact_proof))) = Some c"
    using assms by (auto simp: produce_candidate_def check_block_status_iff panic_simps Let_def)
  then show thesis using that [of last_head "block_data_new header extrinsics compact_proof"]
    by (simp add: block_data_new_def)
qed

lemma build_collation_info:
  assumes "build_collation cfg b bh pov = Some c" "co_api_version cfg bh = Inr (Some 2)"
    and "co_collect_collation_info cfg bh (pbd_header b) = Inr info"
  shows "claimed_result c = result_of_collation info" and "col_proof_of_validity c = pov"
  using assms by (auto simp: build_collation_def fetch_collation_info_def claimed_result_def result_of_collation_def)

lemma build_collation_pov: "build_collation cfg b bh pov = Some c \<Longrightarrow> col_proof_of_validity c = pov"
  by (auto simp: build_collation_def split: sum.splits option.splits)

text \<open>C4. A collation keeps what it promises: whenever the validation function of the runtime accepts the proof of
  validity of a produced candidate, it returns exactly the messages, code, watermark and head data that the
  collator committed to, and the block it validated is the one the collator will announce.\<close>

theorem collation_validates:
  assumes "produce_candidate cfg client relay_parent vdata = Some (c, bh)"
    and "same_runtime pcfg vb decompress params cfg"
    and "decompress (col_proof_of_validity c) = Some (vp_block_data params)"
    and "validate_block pcfg vb params = Some res"
  shows "res = claimed_result c \<and>
    (\<exists>d. vb_decode_block_data vb (vp_block_data params) = Some d \<and> bh = vb_hash vb (pbd_header d))"
proof (rule produce_candidate_steps [OF assms(1)])
  fix last_head b
  let ?pov = "co_maybe_compress_pov cfg (co_encode_block_data cfg b)"
  assume bh: "bh = hd_hash (co_header cfg) (pbd_header b)" and built: "build_collation cfg b bh ?pov = Some c"
  have hash: "hd_hash (co_header cfg) = vb_hash vb" using assms(2) by (simp add: same_runtime_def)
  have "vp_block_data params = co_encode_block_data cfg b"
    using build_collation_pov [OF built] assms(2,3) by (simp add: same_runtime_def)
  then have dec: "vb_decode_block_data vb (vp_block_data params) = Some b"
    using assms(2) by (simp add: same_runtime_def)
  from assms(4) obtain d parent s s' where
    "vb_decode_block_data vb (vp_block_data params) = Some d" "vb_decode_header vb (vp_parent_head params) = Some parent"
    "vb_backend vb (pbd_storage_proof d) (vb_state_root vb parent) = Some s"
    "vb_execute_block vb (pcfg\<lparr>ps_validation_params := Some params\<rparr>) (into_block d) s = Some s'"
    and res: "res = result_of_collation (collect_collation_info (vb_encode_header vb) (pbd_header d) s')"
    by (rule validate_block_steps)
  with dec have d: "d = b" and api: "co_api_version cfg bh = Inr (Some 2)"
    "co_collect_collation_info cfg bh (pbd_header b) =
       Inr (collect_collation_info (vb_encode_header vb) (pbd_header b) s')"
    using assms(2) by (auto simp: same_runtime_def bh hash)
  show ?thesis using build_collation_info(1) [OF built api] res dec by (simp add: d bh hash)
qed

section \<open>An example\<close>

text \<open>Headers are numbers, and the one extrinsic there is, the inherent, is written as one bit.\<close>

definition toy_collated_vb :: "((bytes \<times> bytes) list, nat, nat, bool, unit) vb_config" where
  "toy_collated_vb = \<lparr>
     vb_decode_block_data = (\<lambda>bs. map_option (\<lambda>(h, rest). block_data_new h (map (\<lambda>b. b = 1) rest) ()) (unary_decode bs)),
     vb_decode_header = (\<lambda>bs. Some (length bs)),
     vb_encode_header = (\<lambda>h. [of_nat h]),
     vb_hash = (\<lambda>h. [of_nat h]), vb_parent_hash = (\<lambda>h. [of_nat (h - 1)]), vb_state_root = (\<lambda>_. []),
     vb_backend = (\<lambda>_ _. Some (psys_genesis [41] 0)),
     vb_is_signed = (\<lambda>_. Some False), vb_call = (\<lambda>e. if e then Some (SetValidationData toy_inherent) else None),
     vb_check_inherents = (\<lambda>_ _ _. True),
     vb_execute_block = (\<lambda>cfg (_, exts) s. run_block cfg
       (map (\<lambda>_. Dispatch (NoneOrigin :: nat origin) (SetValidationData toy_inherent)) (filter id exts)) s)\<rparr>"

definition toy_block_params :: validation_params where
  "toy_block_params = toy_params\<lparr>vp_block_data := [0, 1, 1]\<rparr>"

definition toy_executed :: "((bytes \<times> bytes) list, nat) psys_state" where
  "toy_executed = the (vb_execute_block toy_collated_vb (toy_psys\<lparr>ps_validation_params := Some toy_block_params\<rparr>)
     (1, [True]) (psys_genesis [41] 0))"

definition toy_collator :: "(nat, bytes, bool, unit, unit, unit) collator_config" where
  "toy_collator = \<lparr>co_header = \<lparr>hd_decode = (\<lambda>bs. Some (length bs)), hd_encode = (\<lambda>h. [of_nat h]),
       hd_hash = (\<lambda>h. [of_nat h]), hd_parent = (\<lambda>h. [of_nat (h - 1)]), hd_number = of_nat\<rparr>,
     co_state_root = (\<lambda>_. []), co_api_version = (\<lambda>_. Inr (Some 2)), co_collect_before_version_2 = (\<lambda>_. Inl ()),
     co_collect_collation_info = (\<lambda>_ header. Inr (collect_collation_info (\<lambda>h. [of_nat h]) header toy_executed)),
     co_produce_candidate = (\<lambda>parent _ _. Some ((Suc parent, [True]), ())),
     co_into_compact_proof = (\<lambda>_ _. Some ()),
     co_encode_block_data = (\<lambda>d. unary_encode (pbd_header d) @ map (\<lambda>b. if b then 1 else 0) (pbd_extrinsics d)),
     co_maybe_compress_pov = (\<lambda>bs. bs)\<rparr>"

definition toy_collator_view :: "bytes chain_view" where
  "toy_collator_view = \<lparr>best_hash = [0], best_number = 0, finalized_hash = [0], finalized_number = 0,
     status_of = (\<lambda>_. Inr InChainWithState)\<rparr>"

lemma toy_same_runtime: "same_runtime toy_psys toy_collated_vb Some toy_block_params toy_collator"
proof -
  have dec: "vb_decode_block_data toy_collated_vb (co_encode_block_data toy_collator d) = Some d" for d
    by (cases d) (simp add: toy_collated_vb_def toy_collator_def unary_laws(1) block_data_new_def comp_def)
  have "vb_decode_block_data toy_collated_vb (vp_block_data toy_block_params) = Some (block_data_new 1 [True] ())"
    by code_simp
  moreover have "vb_backend toy_collated_vb pf root = Some (psys_genesis [41] 0)" for pf root
    by (simp add: toy_collated_vb_def)
  ultimately show ?thesis
    using dec
    by (simp add: same_runtime_def toy_collator_def toy_executed_def into_block_def block_data_new_def)
      (simp add: toy_collated_vb_def)
qed

theorem collation_validates_witness:
  "\<exists>c bh res. produce_candidate toy_collator toy_collator_view [3] (validation_data toy_inherent) = Some (c, bh) \<and>
     validate_block toy_psys toy_collated_vb toy_block_params = Some res \<and> res = claimed_result c"
proof -
  have "case produce_candidate toy_collator toy_collator_view [3] (validation_data toy_inherent) of
      None \<Rightarrow> False | Some (c, _) \<Rightarrow> col_proof_of_validity c = vp_block_data toy_block_params" by code_simp
  then obtain c bh where c: "produce_candidate toy_collator toy_collator_view [3] (validation_data toy_inherent) = Some (c, bh)"
      "Some (col_proof_of_validity c) = Some (vp_block_data toy_block_params)"
    by (auto split: option.splits)
  have "case validate_block toy_psys toy_collated_vb toy_block_params of None \<Rightarrow> False | Some _ \<Rightarrow> True" by code_simp
  then obtain res where res: "validate_block toy_psys toy_collated_vb toy_block_params = Some res"
    by (auto split: option.splits)
  show ?thesis using collation_validates [OF c(1) toy_same_runtime c(2) res] c(1) res by blast
qed

end
