(* ===== verification/Pov_Recovery.thy ===== *)
theory Pov_Recovery
  imports Client_Interface "HOL-Library.AList" "HOL-Library.Multiset"
begin

text \<open>
  Recovery of blocks that the relay chain has seen and the node has not, \<^verbatim>\<open>src/client/pov-recovery/src\<close>.
  The tasks that wait for a delay or for the recovery of data are the lists \<open>next_candidate_to_recover\<close>
  and \<open>recoveries\<close> of what they will yield, and an event takes one of them in any order.  The length of
  the delay is random and not modelled.
\<close>

section \<open>Data\<close>

record 'r pending_candidate =
  pc_receipt :: 'r
  pc_session_index :: u32
  pc_block_number :: u32

text \<open>A block handed to the import queue; the remaining fields of \<^verbatim>\<open>IncomingBlock\<close> are constants.\<close>

record ('hd, 'h, 'ext) incoming_block =
  in_hash :: 'h
  in_header :: 'hd
  in_body :: "'ext list"

type_synonym ('hd, 'h, 'ext) waiting = "('h \<times> ('hd \<times> 'ext list) list) list"

text \<open>
  \<open>'r\<close> is a receipt and \<open>'d\<close> the available data of a candidate.  \<open>recover_requests\<close>
  and \<open>import_calls\<close> record the messages to the overseer and the calls of the import queue.
\<close>

record ('hd, 'h, 'ext, 'r) pov_state =
  pending_candidates :: "'h \<rightharpoonup> 'r pending_candidate"
  next_candidate_to_recover :: "'h list"
  recoveries :: "'h list"
  active_candidates :: "'h set"
  waiting_for_parent :: "('hd, 'h, 'ext) waiting"
  recover_requests :: "('r \<times> u32) list"
  import_calls :: "('hd, 'h, 'ext) incoming_block list list"

record ('hd, 'h, 'ext, 'pf, 'r, 'd) pov_config =
  pr_header :: "('hd, 'h) header_ops"
  pr_head_data :: "'r \<Rightarrow> bytes"
  pr_decompress :: "'d \<Rightarrow> bytes option"
  pr_decode_block_data :: "bytes \<Rightarrow> ('hd, 'ext, 'pf) parachain_block_data option"

definition pov_new :: "('hd, 'h, 'ext, 'r) pov_state" where
  "pov_new = \<lparr>pending_candidates = Map.empty, next_candidate_to_recover = [], recoveries = [],
     active_candidates = {}, waiting_for_parent = [], recover_requests = [], import_calls = []\<rparr>"

section \<open>Active recoveries\<close>

definition active_recover_candidate :: "'h \<Rightarrow> 'r pending_candidate \<Rightarrow> ('hd, 'h, 'ext, 'r) pov_state \<Rightarrow>
    ('hd, 'h, 'ext, 'r) pov_state" where
  "active_recover_candidate block_hash pc s =
     s\<lparr>recover_requests := recover_requests s @ [(pc_receipt pc, pc_session_index pc)],
       active_candidates := insert block_hash (active_candidates s), recoveries := recoveries s @ [block_hash]\<rparr>"

definition is_being_recovered :: "'h \<Rightarrow> ('hd, 'h, 'ext, 'r) pov_state \<Rightarrow> bool" where
  "is_being_recovered candidate s = (candidate \<in> active_candidates s)"

text \<open>The recovery of \<open>block_hash\<close> is over.\<close>

definition wait_for_recovery :: "'h \<Rightarrow> ('hd, 'h, 'ext, 'r) pov_state \<Rightarrow> ('hd, 'h, 'ext, 'r) pov_state" where
  "wait_for_recovery block_hash s =
     s\<lparr>recoveries := remove1 block_hash (recoveries s), active_candidates := active_candidates s - {block_hash}\<rparr>"

section \<open>Handlers\<close>

definition handle_pending_candidate :: "('hd, 'h, 'ext, 'pf, 'r, 'd) pov_config \<Rightarrow> 'h chain_view \<Rightarrow> 'r \<Rightarrow> u32 \<Rightarrow>
    ('hd, 'h, 'ext, 'r) pov_state \<Rightarrow> ('hd, 'h, 'ext, 'r) pov_state" where
  "handle_pending_candidate cfg client receipt session_index s =
     (case hd_decode (pr_header cfg) (pr_head_data cfg receipt) of
        None \<Rightarrow> s
      | Some header \<Rightarrow>
          if hd_number (pr_header cfg) header \<le> finalized_number client then s
          else
            let hash = hd_hash (pr_header cfg) header in
            case status_of client hash of
              Inr UnknownBlock \<Rightarrow>
                let s1 = s\<lparr>pending_candidates := (pending_candidates s)(hash \<mapsto>
                  \<lparr>pc_receipt = receipt, pc_session_index = session_index,
                    pc_block_number = hd_number (pr_header cfg) header\<rparr>)\<rparr> in
                if pending_candidates s hash \<noteq> None then s1
                else s1\<lparr>next_candidate_to_recover := next_candidate_to_recover s @ [hash]\<rparr>
            | _ \<Rightarrow> s)"

definition handle_block_imported :: "'h \<Rightarrow> ('hd, 'h, 'ext, 'r) pov_state \<Rightarrow> ('hd, 'h, 'ext, 'r) pov_state" where
  "handle_block_imported hash s = s\<lparr>pending_candidates := (pending_candidates s)(hash := None)\<rparr>"

definition handle_block_finalized :: "u32 \<Rightarrow> ('hd, 'h, 'ext, 'r) pov_state \<Rightarrow> ('hd, 'h, 'ext, 'r) pov_state" where
  "handle_block_finalized block_number s =
     s\<lparr>pending_candidates := (\<lambda>h. case pending_candidates s h of
         Some pc \<Rightarrow> if pc_block_number pc > block_number then Some pc else None
       | None \<Rightarrow> None)\<rparr>"

definition recover_candidate :: "'h \<Rightarrow> ('hd, 'h, 'ext, 'r) pov_state \<Rightarrow> ('hd, 'h, 'ext, 'r) pov_state" where
  "recover_candidate block_hash s =
     (case pending_candidates s block_hash of
        None \<Rightarrow> s
      | Some pc \<Rightarrow>
          active_recover_candidate block_hash pc
            (s\<lparr>pending_candidates := (pending_candidates s)(block_hash := None)\<rparr>))"

definition block_hash :: "('hd, 'h) header_ops \<Rightarrow> 'hd \<times> 'ext list \<Rightarrow> 'h" where
  "block_hash ops b = hd_hash ops (fst b)"

definition block_parent :: "('hd, 'h) header_ops \<Rightarrow> 'hd \<times> 'ext list \<Rightarrow> 'h" where
  "block_parent ops b = hd_parent ops (fst b)"

text \<open>How many blocks wait: both loops over the waiting blocks take each of them at most once.\<close>

definition waiting_size :: "('hd, 'h, 'ext) waiting \<Rightarrow> nat" where
  "waiting_size w = (\<Sum>(_, bs)\<leftarrow>w. length bs)"

lemma waiting_size_simps [simp]:
  "waiting_size [] = 0"
  "waiting_size ((k, bs) # w) = length bs + waiting_size w"
  by (simp_all add: waiting_size_def)

lemma waiting_size_delete_le: "waiting_size (AList.delete k w) \<le> waiting_size w"
  by (induction w) auto

lemma waiting_size_delete: "map_of w k = Some bs \<Longrightarrow> waiting_size (AList.delete k w) + length bs \<le> waiting_size w"
proof (induction w)
  case (Cons e w)
  then show ?case using waiting_size_delete_le [of k w] by (cases e) (auto split: if_splits)
qed simp

text \<open>The top of the stack \<^verbatim>\<open>blocks_to_delete\<close> is the head of the list.\<close>

function (sequential) clear_loop :: "('hd, 'h) header_ops \<Rightarrow> 'h list \<Rightarrow> ('hd, 'h, 'ext) waiting \<Rightarrow>
    ('hd, 'h, 'ext) waiting" where
  "clear_loop ops [] w = w"
| "clear_loop ops (delete # blocks_to_delete) w =
     (case map_of w delete of
        None \<Rightarrow> clear_loop ops blocks_to_delete w
      | Some childs \<Rightarrow>
          clear_loop ops (rev (map (block_hash ops) childs) @ blocks_to_delete) (AList.delete delete w))"
  by pat_completeness auto
termination
  by (relation "measure (\<lambda>(_, stack, w). length stack + waiting_size w)")
    (auto dest: waiting_size_delete)

definition clear_waiting_for_parent :: "('hd, 'h) header_ops \<Rightarrow> 'h \<Rightarrow> ('hd, 'h, 'ext, 'r) pov_state \<Rightarrow>
    ('hd, 'h, 'ext, 'r) pov_state" where
  "clear_waiting_for_parent ops hash s = s\<lparr>waiting_for_parent := clear_loop ops [hash] (waiting_for_parent s)\<rparr>"

function (sequential) import_loop :: "('hd, 'h) header_ops \<Rightarrow> ('hd \<times> 'ext list) list \<Rightarrow> ('hd, 'h, 'ext) waiting \<Rightarrow>
    ('hd, 'h, 'ext) incoming_block list \<times> ('hd, 'h, 'ext) waiting" where
  "import_loop ops [] w = ([], w)"
| "import_loop ops (block # blocks) w =
     (let h = block_hash ops block;
        incoming = \<lparr>in_hash = h, in_header = fst block, in_body = snd block\<rparr>
      in case map_of w h of
           None \<Rightarrow> (case import_loop ops blocks w of (bs, w') \<Rightarrow> (incoming # bs, w'))
         | Some waiting \<Rightarrow>
             (case import_loop ops (blocks @ waiting) (AList.delete h w) of (bs, w') \<Rightarrow> (incoming # bs, w')))"
  by pat_completeness auto
termination
  by (relation "measure (\<lambda>(_, blocks, w). length blocks + waiting_size w)")
    (auto dest: waiting_size_delete)

definition pov_import_block :: "('hd, 'h) header_ops \<Rightarrow> 'hd \<times> 'ext list \<Rightarrow> ('hd, 'h, 'ext, 'r) pov_state \<Rightarrow>
    ('hd, 'h, 'ext, 'r) pov_state" where
  "pov_import_block ops block s =
     (case import_loop ops [block] (waiting_for_parent s) of (incoming_blocks, w) \<Rightarrow>
        s\<lparr>waiting_for_parent := w, import_calls := import_calls s @ [incoming_blocks]\<rparr>)"

definition push_waiting :: "'h \<Rightarrow> 'hd \<times> 'ext list \<Rightarrow> ('hd, 'h, 'ext) waiting \<Rightarrow> ('hd, 'h, 'ext) waiting" where
  "push_waiting parent block w =
     AList.update parent ((case map_of w parent of None \<Rightarrow> [] | Some bs \<Rightarrow> bs) @ [block]) w"

definition recovered_block :: "('hd, 'h, 'ext, 'pf, 'r, 'd) pov_config \<Rightarrow> 'd option \<Rightarrow> ('hd \<times> 'ext list) option" where
  "recovered_block cfg available_data =
     (case available_data of
        None \<Rightarrow> None
      | Some data \<Rightarrow>
          (case pr_decompress cfg data of
             None \<Rightarrow> None
           | Some raw_block_data \<Rightarrow> map_option into_block (pr_decode_block_data cfg raw_block_data)))"

definition handle_candidate_recovered :: "('hd, 'h, 'ext, 'pf, 'r, 'd) pov_config \<Rightarrow> 'h chain_view \<Rightarrow> 'h \<Rightarrow> 'd option \<Rightarrow>
    ('hd, 'h, 'ext, 'r) pov_state \<Rightarrow> ('hd, 'h, 'ext, 'r) pov_state" where
  "handle_candidate_recovered cfg client hash available_data s =
     (let ops = pr_header cfg in
      case recovered_block cfg available_data of
        None \<Rightarrow> clear_waiting_for_parent ops hash s
      | Some block \<Rightarrow>
          let parent = block_parent ops block in
          case status_of client parent of
            Inr UnknownBlock \<Rightarrow>
              if is_being_recovered parent s
              then s\<lparr>waiting_for_parent := push_waiting parent block (waiting_for_parent s)\<rparr>
              else clear_waiting_for_parent ops hash s
          | Inl _ \<Rightarrow> clear_waiting_for_parent ops hash s
          | _ \<Rightarrow> pov_import_block ops block s)"

section \<open>The loop\<close>

datatype ('h, 'r, 'd) pov_event =
    PendingCandidate 'r u32
  | BlockImported 'h
  | BlockFinalized u32
  | DelayOver 'h
  | Recovered 'h "'d option"

text \<open>The stream of pending candidates: one entry for an imported relay block whose two queries answer.\<close>

definition pending_candidates_of :: "('k \<Rightarrow> ('e, 'r option) result) \<Rightarrow> ('k \<Rightarrow> ('e, u32) result) \<Rightarrow> 'k list \<Rightarrow>
    ('h, 'r, 'd) pov_event list" where
  "pending_candidates_of candidate_pending_availability session_index_for_child notifications =
     List.map_filter (\<lambda>hash.
       case (candidate_pending_availability hash, session_index_for_child hash) of
         (Inr (Some candidate), Inr session_index) \<Rightarrow> Some (PendingCandidate candidate session_index)
       | _ \<Rightarrow> None) notifications"

text \<open>One turn of \<^verbatim>\<open>run\<close>; \<open>None\<close> for an event that no task yields.\<close>

definition pov_step :: "('hd, 'h, 'ext, 'pf, 'r, 'd) pov_config \<Rightarrow> 'h chain_view \<Rightarrow> ('h, 'r, 'd) pov_event \<Rightarrow>
    ('hd, 'h, 'ext, 'r) pov_state \<Rightarrow> ('hd, 'h, 'ext, 'r) pov_state option" where
  "pov_step cfg client event s =
     (case event of
        PendingCandidate receipt session_index \<Rightarrow> Some (handle_pending_candidate cfg client receipt session_index s)
      | BlockImported hash \<Rightarrow> Some (handle_block_imported hash s)
      | BlockFinalized number \<Rightarrow> Some (handle_block_finalized number s)
      | DelayOver hash \<Rightarrow>
          if hash \<in> set (next_candidate_to_recover s) then
            Some (recover_candidate hash
              (s\<lparr>next_candidate_to_recover := remove1 hash (next_candidate_to_recover s)\<rparr>))
          else None
      | Recovered hash available_data \<Rightarrow>
          if hash \<in> set (recoveries s) then
            Some (handle_candidate_recovered cfg client hash available_data (wait_for_recovery hash s))
          else None)"

fun pov_run :: "('hd, 'h, 'ext, 'pf, 'r, 'd) pov_config \<Rightarrow> ('h chain_view \<times> ('h, 'r, 'd) pov_event) list \<Rightarrow>
    ('hd, 'h, 'ext, 'r) pov_state \<Rightarrow> ('hd, 'h, 'ext, 'r) pov_state option" where
  "pov_run cfg [] s = Some s"
| "pov_run cfg ((client, event) # events) s = Option.bind (pov_step cfg client event s) (pov_run cfg events)"

section \<open>Waiting blocks\<close>

definition waiting_blocks :: "('hd, 'h, 'ext) waiting \<Rightarrow> ('hd \<times> 'ext list) multiset" where
  "waiting_blocks w = (\<Sum>(_, bs)\<leftarrow>w. mset bs)"

text \<open>Blocks wait under the hash of their parent, and no entry is empty.\<close>

definition waiting_ok :: "('hd, 'h) header_ops \<Rightarrow> ('hd, 'h, 'ext) waiting \<Rightarrow> bool" where
  "waiting_ok ops w \<longleftrightarrow> distinct (map fst w) \<and>
     list_all (\<lambda>(p, bs). bs \<noteq> [] \<and> list_all (\<lambda>b. block_parent ops b = p) bs) w"

lemma waiting_blocks_simps [simp]:
  "waiting_blocks [] = {#}"
  "waiting_blocks ((k, bs) # w) = mset bs + waiting_blocks w"
  by (simp_all add: waiting_blocks_def)

lemma waiting_blocks_delete:
  "map_of w k = Some bs \<Longrightarrow> distinct (map fst w) \<Longrightarrow> waiting_blocks w = mset bs + waiting_blocks (AList.delete k w)"
proof (induction w)
  case (Cons e w)
  show ?case
  proof (cases "fst e = k")
    case True
    then have "AList.delete k (e # w) = w" using Cons.prems(2)
      by (cases e) (force simp: AList.delete_eq filter_id_conv)
    then show ?thesis using Cons.prems True by (cases e) auto
  next
    case False
    then show ?thesis using Cons by (cases e) auto
  qed
qed simp

lemma waiting_ok_delete: "waiting_ok ops w \<Longrightarrow> waiting_ok ops (AList.delete k w)"
  by (auto simp: waiting_ok_def AList.delete_eq list_all_iff distinct_map inj_on_def)

lemma waiting_ok_parent: "waiting_ok ops w \<Longrightarrow> map_of w k = Some bs \<Longrightarrow> b \<in> set bs \<Longrightarrow> block_parent ops b = k"
  by (fastforce simp: waiting_ok_def list_all_iff dest: map_of_SomeD)

lemma waiting_blocks_iff: "b \<in># waiting_blocks w \<longleftrightarrow> (\<exists>(k, bs) \<in> set w. b \<in> set bs)"
  by (induction w) auto

lemma list_all_update: "list_all Q w \<Longrightarrow> Q (p, v) \<Longrightarrow> list_all Q (AList.update p v w)"
  by (induction w) auto

lemma waiting_ok_push:
  assumes "waiting_ok ops w" "block_parent ops b = p"
  shows "waiting_ok ops (push_waiting p b w)"
proof -
  let ?bs = "(case map_of w p of None \<Rightarrow> [] | Some bs \<Rightarrow> bs) @ [b]"
  have "list_all (\<lambda>b. block_parent ops b = p) ?bs"
    using assms(2) waiting_ok_parent [OF assms(1)] by (cases "map_of w p") (auto simp: list_all_iff)
  then show ?thesis
    using assms(1) unfolding waiting_ok_def push_waiting_def
    by (intro conjI list_all_update) (simp_all add: distinct_update)
qed

lemma waiting_blocks_push:
  "distinct (map fst w) \<Longrightarrow> waiting_blocks (push_waiting p b w) = add_mset b (waiting_blocks w)"
proof (induction w)
  case (Cons e w)
  then show ?case by (cases e) (auto simp: push_waiting_def split: option.splits if_splits)
qed (simp add: push_waiting_def)

lemma keys_push: "fst ` set (push_waiting p b w) = insert p (fst ` set w)"
  by (simp add: push_waiting_def dom_map_of_conv_image_fst [symmetric] update_conv')

lemma waiting_ok_clear: "waiting_ok ops w \<Longrightarrow> waiting_ok ops (clear_loop ops stack w)"
  by (induction ops stack w rule: clear_loop.induct) (auto simp: waiting_ok_delete split: option.splits)

definition incoming :: "('hd, 'h) header_ops \<Rightarrow> 'hd \<times> 'ext list \<Rightarrow> ('hd, 'h, 'ext) incoming_block" where
  "incoming ops b = \<lparr>in_hash = block_hash ops b, in_header = fst b, in_body = snd b\<rparr>"

lemma import_loop_cases:
  "map_of w (block_hash ops b) = None \<Longrightarrow>
     import_loop ops (b # bs) w = (incoming ops b # fst (import_loop ops bs w), snd (import_loop ops bs w))"
  "map_of w (block_hash ops b) = Some waiting \<Longrightarrow>
     import_loop ops (b # bs) w =
       (incoming ops b # fst (import_loop ops (bs @ waiting) (AList.delete (block_hash ops b) w)),
        snd (import_loop ops (bs @ waiting) (AList.delete (block_hash ops b) w)))"
  by (simp_all add: Let_def split_def incoming_def)

lemma waiting_ok_import: "waiting_ok ops w \<Longrightarrow> waiting_ok ops (snd (import_loop ops bs w))"
proof (induction ops bs w rule: import_loop.induct)
  case (2 ops b bs w)
  then show ?case
    by (cases "map_of w (block_hash ops b)") (simp_all add: waiting_ok_delete import_loop_cases del: import_loop.simps(2))
qed simp

text \<open>What supports the entries: the hashes \<open>A\<close> and those of the waiting blocks.\<close>

definition supported :: "('hd, 'h) header_ops \<Rightarrow> 'h set \<Rightarrow> ('hd, 'h, 'ext) waiting \<Rightarrow> bool" where
  "supported ops A w \<longleftrightarrow> fst ` set w \<subseteq> A \<union> block_hash ops ` set_mset (waiting_blocks w)"

lemma keys_delete: "fst ` set (AList.delete k w) = fst ` set w - {k}"
  by (simp add: dom_map_of_conv_image_fst [symmetric] delete_conv')

lemma map_of_None_keys: "map_of w k = None \<longleftrightarrow> k \<notin> fst ` set w"
  by (simp add: map_of_eq_None_iff)

lemma supported_delete:
  assumes "supported ops (A \<union> insert k B) w" "waiting_ok ops w"
  shows "map_of w k = None \<Longrightarrow> supported ops (A \<union> B) w"
    and "map_of w k = Some bs \<Longrightarrow> supported ops (A \<union> (block_hash ops ` set bs \<union> B)) (AList.delete k w)"
proof -
  show "map_of w k = None \<Longrightarrow> supported ops (A \<union> B) w"
    using assms(1) by (auto simp: supported_def map_of_None_keys)
  assume bs: "map_of w k = Some bs"
  have "waiting_blocks w = mset bs + waiting_blocks (AList.delete k w)"
    using waiting_blocks_delete [OF bs] assms(2) by (simp add: waiting_ok_def)
  then show "supported ops (A \<union> (block_hash ops ` set bs \<union> B)) (AList.delete k w)"
    using assms(1) by (auto simp: supported_def keys_delete)
qed

lemma supported_clear:
  "supported ops (A \<union> set stack) w \<Longrightarrow> waiting_ok ops w \<Longrightarrow> supported ops A (clear_loop ops stack w)"
proof (induction ops stack w rule: clear_loop.induct)
  case (2 ops delete stack w)
  show ?case
  proof (cases "map_of w delete")
    case None
    then show ?thesis using 2 supported_delete(1) [of ops A delete "set stack" w] by simp
  next
    case (Some bs)
    then show ?thesis
      using 2 supported_delete(2) [of ops A delete "set stack" w bs] by (simp add: waiting_ok_delete)
  qed
qed simp

lemma supported_import:
  "supported ops (A \<union> block_hash ops ` set bs) w \<Longrightarrow> waiting_ok ops w \<Longrightarrow> supported ops A (snd (import_loop ops bs w))"
proof (induction ops bs w rule: import_loop.induct)
  case (2 ops block blocks w)
  show ?case
  proof (cases "map_of w (block_hash ops block)")
    case None
    then show ?thesis
      using 2 supported_delete(1) [of ops A "block_hash ops block" "block_hash ops ` set blocks" w]
      by (simp add: import_loop_cases del: import_loop.simps(2))
  next
    case (Some bs)
    then show ?thesis
      using 2 supported_delete(2) [of ops A "block_hash ops block" "block_hash ops ` set blocks" w bs]
      by (simp add: import_loop_cases waiting_ok_delete image_Un Un_commute del: import_loop.simps(2))
  qed
qed simp

section \<open>The order of import\<close>

fun parents_first :: "('hd, 'h) header_ops \<Rightarrow> 'h set \<Rightarrow> ('hd \<times> 'ext list) list \<Rightarrow> bool" where
  "parents_first ops seen [] = True"
| "parents_first ops seen (b # bs) = (block_parent ops b \<in> seen \<and> parents_first ops (insert (block_hash ops b) seen) bs)"

text \<open>The blocks taken, without the wrapping for the import queue.\<close>

lemma import_loop_taken:
  assumes "waiting_ok ops w"
  shows "\<exists>taken. fst (import_loop ops bs w) = map (incoming ops) taken \<and>
    mset taken + waiting_blocks (snd (import_loop ops bs w)) = mset bs + waiting_blocks w \<and>
    fst ` set (snd (import_loop ops bs w)) = fst ` set w - block_hash ops ` set taken \<and>
    (\<forall>seen. block_parent ops ` set bs \<subseteq> seen \<longrightarrow> parents_first ops seen taken)"
  using assms
proof (induction ops bs w rule: import_loop.induct)
  case (2 ops b bs w)
  let ?h = "block_hash ops b"
  show ?case
  proof (cases "map_of w ?h")
    case None
    then obtain taken where t: "fst (import_loop ops bs w) = map (incoming ops) taken"
      "mset taken + waiting_blocks (snd (import_loop ops bs w)) = mset bs + waiting_blocks w"
      "fst ` set (snd (import_loop ops bs w)) = fst ` set w - block_hash ops ` set taken"
      "\<And>seen. block_parent ops ` set bs \<subseteq> seen \<Longrightarrow> parents_first ops seen taken"
      using "2.IH"(1) [OF refl refl None "2.prems"] by auto
    then show ?thesis
      using None by (intro exI [of _ "b # taken"]) (auto simp: import_loop_cases map_of_None_keys [THEN iffD1] subset_insertI2 simp del: import_loop.simps(2))
  next
    case (Some waiting)
    let ?r = "import_loop ops (bs @ waiting) (AList.delete ?h w)"
    obtain taken where t: "fst ?r = map (incoming ops) taken"
      "mset taken + waiting_blocks (snd ?r) = mset (bs @ waiting) + waiting_blocks (AList.delete ?h w)"
      "fst ` set (snd ?r) = fst ` set (AList.delete ?h w) - block_hash ops ` set taken"
      "\<And>seen. block_parent ops ` set (bs @ waiting) \<subseteq> seen \<Longrightarrow> parents_first ops seen taken"
      using "2.IH"(2) [OF refl refl Some waiting_ok_delete [OF "2.prems"]] by auto
    have "waiting_blocks w = mset waiting + waiting_blocks (AList.delete ?h w)"
      using waiting_blocks_delete [OF Some] "2.prems" by (simp add: waiting_ok_def)
    moreover have "parents_first ops (insert ?h seen) taken" if "block_parent ops ` set bs \<subseteq> seen" for seen
      using waiting_ok_parent [OF "2.prems" Some] that by (intro t(4)) auto
    ultimately show ?thesis
      using Some t(1-3) by (intro exI [of _ "b # taken"]) (auto simp: import_loop_cases keys_delete simp del: import_loop.simps(2))
  qed
qed simp

lemma import_block_taken:
  assumes "waiting_ok ops w"
  shows "\<exists>taken. fst (import_loop ops [b] w) = map (incoming ops) (b # taken) \<and>
    mset taken + waiting_blocks (snd (import_loop ops [b] w)) = waiting_blocks w \<and>
    fst ` set (snd (import_loop ops [b] w)) = fst ` set w - block_hash ops ` set (b # taken) \<and>
    parents_first ops {block_hash ops b} taken"
proof (cases "map_of w (block_hash ops b)")
  case None
  then show ?thesis by (intro exI [of _ "[]"]) (auto simp: import_loop_cases map_of_None_keys simp del: import_loop.simps(2))
next
  case (Some waiting)
  have ok: "waiting_ok ops (AList.delete (block_hash ops b) w)" using assms by (rule waiting_ok_delete)
  obtain taken where t: "fst (import_loop ops waiting (AList.delete (block_hash ops b) w)) = map (incoming ops) taken"
    "mset taken + waiting_blocks (snd (import_loop ops waiting (AList.delete (block_hash ops b) w))) =
      mset waiting + waiting_blocks (AList.delete (block_hash ops b) w)"
    "fst ` set (snd (import_loop ops waiting (AList.delete (block_hash ops b) w))) =
      fst ` set (AList.delete (block_hash ops b) w) - block_hash ops ` set taken"
    "\<And>seen. block_parent ops ` set waiting \<subseteq> seen \<Longrightarrow> parents_first ops seen taken"
    using import_loop_taken [OF ok, of waiting] by auto
  have "waiting_blocks w = mset waiting + waiting_blocks (AList.delete (block_hash ops b) w)"
    using waiting_blocks_delete [OF Some] assms by (simp add: waiting_ok_def)
  moreover have "parents_first ops {block_hash ops b} taken"
    using waiting_ok_parent [OF assms Some] by (intro t(4)) auto
  ultimately show ?thesis
    using Some t(1-3)
    by (intro exI [of _ taken]) (auto simp: import_loop_cases keys_delete simp del: import_loop.simps(2))
qed

section \<open>The invariant of the loop\<close>

text \<open>Recovered data is the data of the candidate that was asked for.\<close>

fun event_ok :: "('hd, 'h, 'ext, 'pf, 'r, 'd) pov_config \<Rightarrow> ('h, 'r, 'd) pov_event \<Rightarrow> bool" where
  "event_ok cfg (Recovered hash data) =
     (case recovered_block cfg data of None \<Rightarrow> True | Some b \<Rightarrow> block_hash (pr_header cfg) b = hash)"
| "event_ok cfg _ = True"

definition pov_inv :: "('hd, 'h) header_ops \<Rightarrow> ('hd, 'h, 'ext, 'r) pov_state \<Rightarrow> bool" where
  "pov_inv ops s \<longleftrightarrow> waiting_ok ops (waiting_for_parent s) \<and>
     supported ops (active_candidates s) (waiting_for_parent s) \<and>
     active_candidates s \<subseteq> set (recoveries s) \<and>
     (\<forall>h. pending_candidates s h \<noteq> None \<longrightarrow> h \<in> set (next_candidate_to_recover s))"

lemma waiting_clear_state [simp]:
  "waiting_for_parent (clear_waiting_for_parent ops h s) = clear_loop ops [h] (waiting_for_parent s)"
  "waiting_for_parent (pov_import_block ops b s) = snd (import_loop ops [b] (waiting_for_parent s))"
  by (simp_all add: clear_waiting_for_parent_def pov_import_block_def split_def)

lemma handlers_frame [simp]:
  "active_candidates (clear_waiting_for_parent ops h s) = active_candidates s"
  "recoveries (clear_waiting_for_parent ops h s) = recoveries s"
  "pending_candidates (clear_waiting_for_parent ops h s) = pending_candidates s"
  "next_candidate_to_recover (clear_waiting_for_parent ops h s) = next_candidate_to_recover s"
  "import_calls (clear_waiting_for_parent ops h s) = import_calls s"
  "active_candidates (pov_import_block ops b s) = active_candidates s"
  "recoveries (pov_import_block ops b s) = recoveries s"
  "pending_candidates (pov_import_block ops b s) = pending_candidates s"
  "next_candidate_to_recover (pov_import_block ops b s) = next_candidate_to_recover s"
  by (simp_all add: clear_waiting_for_parent_def pov_import_block_def split_def)

lemma recovered_frame [simp]:
  "active_candidates (handle_candidate_recovered cfg client h d s) = active_candidates s"
  "recoveries (handle_candidate_recovered cfg client h d s) = recoveries s"
  "pending_candidates (handle_candidate_recovered cfg client h d s) = pending_candidates s"
  "next_candidate_to_recover (handle_candidate_recovered cfg client h d s) = next_candidate_to_recover s"
  by (auto simp: handle_candidate_recovered_def Let_def split: option.split sum.split block_status.split)

lemma recovered_waiting:
  assumes ok: "waiting_ok (pr_header cfg) (waiting_for_parent s)"
    and sup: "supported (pr_header cfg) (insert h (active_candidates s)) (waiting_for_parent s)"
    and ev: "event_ok cfg (Recovered h d)"
  shows "waiting_ok (pr_header cfg) (waiting_for_parent (handle_candidate_recovered cfg client h d s)) \<and>
    supported (pr_header cfg) (active_candidates s) (waiting_for_parent (handle_candidate_recovered cfg client h d s))"
proof -
  let ?ops = "pr_header cfg" and ?w = "waiting_for_parent s"
  let ?good = "\<lambda>w. waiting_ok ?ops w \<and> supported ?ops (active_candidates s) w"
  have clear: "?good (clear_loop ?ops [h] ?w)"
    using supported_clear [of ?ops "active_candidates s" "[h]" ?w] waiting_ok_clear ok sup
    by (simp del: clear_loop.simps)
  have imp: "?good (snd (import_loop ?ops [b] ?w))" if "recovered_block cfg d = Some b" for b
    using supported_import [of ?ops "active_candidates s" "[b]" ?w] waiting_ok_import ok sup ev that
    by (simp del: import_loop.simps)
  have push: "?good (push_waiting (block_parent ?ops b) b ?w)"
    if "recovered_block cfg d = Some b" "block_parent ?ops b \<in> active_candidates s" for b
  proof -
    have "supported ?ops (active_candidates s) (push_waiting (block_parent ?ops b) b ?w)"
      using sup ev that ok by (auto simp: supported_def keys_push waiting_blocks_push waiting_ok_def)
    then show ?thesis using waiting_ok_push [OF ok refl] by simp
  qed
  show ?thesis
    using clear imp push
    by (auto simp: handle_candidate_recovered_def Let_def is_being_recovered_def
        simp del: clear_loop.simps import_loop.simps split: option.split sum.split block_status.split)
qed

lemma pov_inv_step:
  assumes "pov_step cfg client ev s = Some s'" "event_ok cfg ev" "pov_inv (pr_header cfg) s"
  shows "pov_inv (pr_header cfg) s'"
proof (cases ev)
  case (Recovered h d)
  let ?t = "wait_for_recovery h s"
  have s': "s' = handle_candidate_recovered cfg client h d ?t"
    using assms(1) by (simp add: Recovered pov_step_def split: if_splits)
  have "supported (pr_header cfg) (insert h (active_candidates ?t)) (waiting_for_parent ?t)"
    using assms(3) by (auto simp: pov_inv_def supported_def wait_for_recovery_def)
  moreover have "active_candidates s - {h} \<subseteq> set (remove1 h (recoveries s))"
    using assms(3) by (auto simp: pov_inv_def intro!: in_set_remove1 [THEN iffD2])
  ultimately show ?thesis
    using recovered_waiting [of cfg ?t h d client] assms(2,3) Recovered s'
    by (simp add: pov_inv_def wait_for_recovery_def)
next
  case (DelayOver h)
  have "supported (pr_header cfg) (insert h (active_candidates s)) (waiting_for_parent s)"
    using assms(3) by (auto simp: pov_inv_def supported_def)
  moreover have "h' \<in> set (remove1 h (next_candidate_to_recover s))" if "pending_candidates s h' = Some pc" "h' \<noteq> h" for h' pc
    using assms(3) that by (auto simp: pov_inv_def)
  moreover have "h' \<noteq> h" if "pending_candidates s h = None" "pending_candidates s h' = Some pc" for h' pc
    using that by auto
  ultimately show ?thesis
    using assms(1,3) DelayOver
    by (cases "pending_candidates s h")
      (auto simp: pov_step_def recover_candidate_def active_recover_candidate_def pov_inv_def split: if_splits)
next
  case (PendingCandidate r n)
  then show ?thesis
    using assms(1,3)
    by (auto simp: pov_step_def handle_pending_candidate_def Let_def pov_inv_def
        split: option.splits sum.splits block_status.splits if_splits)
next
  case (BlockImported h)
  then show ?thesis using assms(1,3) by (auto simp: pov_step_def handle_block_imported_def pov_inv_def split: if_splits)
next
  case (BlockFinalized n)
  then show ?thesis
    using assms(1,3)
    by (auto simp: pov_step_def handle_block_finalized_def pov_inv_def split: option.splits if_splits)
qed

lemma pov_inv_run:
  "pov_run cfg events s = Some s' \<Longrightarrow> list_all (event_ok cfg \<circ> snd) events \<Longrightarrow> pov_inv (pr_header cfg) s \<Longrightarrow>
     pov_inv (pr_header cfg) s'"
proof (induction cfg events s rule: pov_run.induct)
  case (2 cfg client event events s)
  then obtain t where "pov_step cfg client event s = Some t" "pov_run cfg events t = Some s'"
    by (auto simp: Option.bind_eq_Some_conv)
  then show ?case using 2 pov_inv_step [of cfg client event s t] by simp
qed simp

lemma pov_inv_new [simp]: "pov_inv ops pov_new"
  by (simp add: pov_inv_def pov_new_def waiting_ok_def supported_def)

lemma supported_none_empty:
  assumes "supported ops {} w" "waiting_ok ops w" "\<And>header. rank (hd_parent ops header) < (rank (hd_hash ops header) :: nat)"
  shows "w = []"
proof (rule ccontr)
  assume "w \<noteq> []"
  then have "fst ` set w \<noteq> {}" by auto
  then obtain k where k: "k \<in> fst ` set w" "\<And>k'. k' \<in> fst ` set w \<Longrightarrow> rank k \<le> rank k'"
    using arg_min_least [of "fst ` set w" _ rank] arg_min_if_finite(1) [of "fst ` set w" rank] by (metis List.finite_set finite_imageI)
  from k(1) assms(1) obtain b where b: "b \<in># waiting_blocks w" "k = block_hash ops b"
    by (auto simp: supported_def)
  then obtain p bs where e: "(p, bs) \<in> set w" "b \<in> set bs" by (auto simp: waiting_blocks_iff)
  then have "block_parent ops b = p" using assms(2) by (auto simp: waiting_ok_def list_all_iff)
  then show False
    using k(2) [of p] e(1) assms(3) [of "fst b"] b(2) by (force simp: block_parent_def block_hash_def)
qed

lemma waiting_blocks_clear:
  "waiting_ok ops w \<Longrightarrow> waiting_blocks (clear_loop ops stack w) \<subseteq># waiting_blocks w"
proof (induction ops stack w rule: clear_loop.induct)
  case (2 ops k stack w)
  show ?case
  proof (cases "map_of w k")
    case (Some bs)
    have "waiting_blocks w = mset bs + waiting_blocks (AList.delete k w)"
      using waiting_blocks_delete [OF Some] "2.prems" by (simp add: waiting_ok_def)
    then show ?thesis
      using "2.IH"(2) [OF Some waiting_ok_delete [OF "2.prems"]] Some subset_mset.order_trans by fastforce
  qed (use 2 in simp)
qed simp

text \<open>What is cleared descends from what is asked for; \<open>rank\<close> bounds the height of a block.\<close>

lemma clear_loop_keeps:
  "waiting_ok ops w \<Longrightarrow> (\<And>header. rank (hd_parent ops header) < (rank (hd_hash ops header) :: nat)) \<Longrightarrow>
     (\<And>d. d \<in> set stack \<Longrightarrow> r \<le> rank d) \<Longrightarrow> b \<in># waiting_blocks w \<Longrightarrow> rank (block_parent ops b) < r \<Longrightarrow>
     b \<in># waiting_blocks (clear_loop ops stack w)"
proof (induction ops stack w rule: clear_loop.induct)
  case (2 ops k stack w)
  show ?case
  proof (cases "map_of w k")
    case (Some bs)
    note parent = waiting_ok_parent [OF "2.prems"(1) Some]
    have "waiting_blocks w = mset bs + waiting_blocks (AList.delete k w)"
      using waiting_blocks_delete [OF Some] "2.prems"(1) by (simp add: waiting_ok_def)
    moreover have "b \<notin> set bs" using parent [of b] "2.prems"(3) [of k] "2.prems"(5) by fastforce
    ultimately have b: "b \<in># waiting_blocks (AList.delete k w)" using "2.prems"(4) by simp
    have "r \<le> rank (block_hash ops c)" if "c \<in> set bs" for c
      using "2.prems"(2) [of "fst c"] "2.prems"(3) [of k] parent [OF that]
      by (simp add: block_hash_def block_parent_def)
    then have "r \<le> rank d" if "d \<in> set (rev (map (block_hash ops) bs) @ stack)" for d
      using "2.prems"(3) [of d] that by (auto simp del: split_paired_All)
    then show ?thesis
      using "2.IH"(2) [OF Some waiting_ok_delete [OF "2.prems"(1)] "2.prems"(2) _ b "2.prems"(5)] Some by simp
  qed (use 2 in simp)
qed simp

section \<open>Properties\<close>

text \<open>C9. No recovered block is kept waiting in vain: in every state the recovery reaches, a block waits only for a
  parent that is being recovered or waits itself, every candidate marked as being recovered has a recovery that
  is still running, every pending candidate has a delay that is still running, and once no recovery is running
  nothing waits.\<close>

theorem pov_nothing_waits_in_vain:
  fixes rank :: "'h \<Rightarrow> nat"
  assumes "pov_run cfg events pov_new = Some s" "list_all (event_ok cfg \<circ> snd) events"
    and "\<And>header. rank (hd_parent (pr_header cfg) header) < rank (hd_hash (pr_header cfg) header)"
  shows "(\<forall>b. b \<in># waiting_blocks (waiting_for_parent s) \<longrightarrow>
       block_parent (pr_header cfg) b \<in> active_candidates s \<or>
       (\<exists>b'. b' \<in># waiting_blocks (waiting_for_parent s) \<and> block_hash (pr_header cfg) b' = block_parent (pr_header cfg) b)) \<and>
    active_candidates s \<subseteq> set (recoveries s) \<and>
    dom (pending_candidates s) \<subseteq> set (next_candidate_to_recover s) \<and>
    (recoveries s = [] \<longrightarrow> waiting_for_parent s = [])"
proof -
  let ?ops = "pr_header cfg" and ?w = "waiting_for_parent s"
  have inv: "waiting_ok ?ops ?w" "supported ?ops (active_candidates s) ?w" "active_candidates s \<subseteq> set (recoveries s)"
    "dom (pending_candidates s) \<subseteq> set (next_candidate_to_recover s)"
    using pov_inv_run [OF assms(1,2) pov_inv_new] by (auto simp: pov_inv_def)
  have "block_parent ?ops b \<in> fst ` set ?w" if "b \<in># waiting_blocks ?w" for b
    using inv(1) that by (force simp: waiting_blocks_iff waiting_ok_def list_all_iff)
  then have "block_parent ?ops b \<in> active_candidates s \<or>
      (\<exists>b'. b' \<in># waiting_blocks ?w \<and> block_hash ?ops b' = block_parent ?ops b)" if "b \<in># waiting_blocks ?w" for b
    using inv(2) that unfolding supported_def image_def by fastforce
  moreover have "?w = []" if "recoveries s = []"
    using supported_none_empty [of ?ops ?w rank] inv that assms(3) by auto
  ultimately show ?thesis using inv(3,4) by blast
qed

text \<open>C29. When a recovered block is imported, it goes to the import queue in one call with exactly the blocks that
  wait for it, directly or through others, every block after its parent; no other waiting block is lost.\<close>

theorem pov_imports_parents_first:
  assumes "pov_run cfg events pov_new = Some s" "list_all (event_ok cfg \<circ> snd) events"
    and "pov_step cfg client (Recovered h data) s = Some s'" "recovered_block cfg data = Some b"
    and "status_of client (block_parent (pr_header cfg) b) \<in> Inr ` {Queued, InChainWithState, InChainPruned, KnownBad}"
  shows "\<exists>taken. import_calls s' = import_calls s @ [map (incoming (pr_header cfg)) (b # taken)] \<and>
    parents_first (pr_header cfg) {block_hash (pr_header cfg) b} taken \<and>
    waiting_blocks (waiting_for_parent s) = mset taken + waiting_blocks (waiting_for_parent s') \<and>
    (\<forall>x. x \<in># waiting_blocks (waiting_for_parent s') \<longrightarrow>
       block_parent (pr_header cfg) x \<notin> block_hash (pr_header cfg) ` set (b # taken))"
proof -
  let ?ops = "pr_header cfg" and ?w = "waiting_for_parent s"
  have ok: "waiting_ok ?ops ?w" using pov_inv_run [OF assms(1,2) pov_inv_new] by (simp add: pov_inv_def)
  have s': "s' = pov_import_block ?ops b (wait_for_recovery h s)"
    using assms(3-5) by (auto simp: pov_step_def handle_candidate_recovered_def split: if_splits)
  then have w': "waiting_for_parent s' = snd (import_loop ?ops [b] ?w)"
    "import_calls s' = import_calls s @ [fst (import_loop ?ops [b] ?w)]"
    by (simp_all add: pov_import_block_def wait_for_recovery_def split_def del: import_loop.simps)
  obtain taken where t: "fst (import_loop ?ops [b] ?w) = map (incoming ?ops) (b # taken)"
    "mset taken + waiting_blocks (snd (import_loop ?ops [b] ?w)) = waiting_blocks ?w"
    "fst ` set (snd (import_loop ?ops [b] ?w)) = fst ` set ?w - block_hash ?ops ` set (b # taken)"
    "parents_first ?ops {block_hash ?ops b} taken"
    using import_block_taken [OF ok] by blast
  have "block_parent ?ops x \<in> fst ` set (waiting_for_parent s')" if "x \<in># waiting_blocks (waiting_for_parent s')" for x
    using waiting_ok_import [OF ok, of "[b]"] that unfolding w'(1) [symmetric]
    by (force simp: waiting_blocks_iff waiting_ok_def list_all_iff)
  then show ?thesis using t by (intro exI [of _ taken]) (auto simp: w' simp del: import_loop.simps)
qed

text \<open>C30. A block is lost if it is recovered after its parent while the parent still waits for the grandparent:
  it neither waits nor is imported nor is it recovered again, while its parent goes on waiting to be imported.\<close>

theorem pov_child_of_waiting_parent_lost:
  fixes rank :: "'h \<Rightarrow> nat"
  assumes "pov_run cfg events pov_new = Some s" "list_all (event_ok cfg \<circ> snd) events"
    and "pov_step cfg client (Recovered h data) s = Some s'" "event_ok cfg (Recovered h data)"
    and "recovered_block cfg data = Some b" "b \<notin># waiting_blocks (waiting_for_parent s)"
    and "parent \<in># waiting_blocks (waiting_for_parent s)" "block_hash (pr_header cfg) parent = block_parent (pr_header cfg) b"
    and "status_of client (block_parent (pr_header cfg) b) = Inr UnknownBlock"
    and "block_parent (pr_header cfg) b \<notin> active_candidates s"
    and rank: "\<And>header. rank (hd_parent (pr_header cfg) header) < rank (hd_hash (pr_header cfg) header)"
  shows "b \<notin># waiting_blocks (waiting_for_parent s') \<and> import_calls s' = import_calls s \<and>
    pending_candidates s' = pending_candidates s \<and> recoveries s' = remove1 h (recoveries s) \<and>
    parent \<in># waiting_blocks (waiting_for_parent s')"
proof -
  let ?ops = "pr_header cfg"
  have ok: "waiting_ok ?ops (waiting_for_parent s)"
    using pov_inv_run [OF assms(1,2) pov_inv_new] by (simp add: pov_inv_def)
  have s': "s' = clear_waiting_for_parent ?ops h (wait_for_recovery h s)"
    using assms(3,5,9,10)
    by (auto simp: pov_step_def handle_candidate_recovered_def is_being_recovered_def wait_for_recovery_def
        split: if_splits)
  have "rank (block_parent ?ops parent) < rank h"
    using rank [of "fst parent"] rank [of "fst b"] assms(4,5,8) by (simp add: block_hash_def block_parent_def)
  then have "parent \<in># waiting_blocks (clear_loop ?ops [h] (waiting_for_parent s))"
    using clear_loop_keeps [where rank = rank and r = "rank h" and stack = "[h]", OF ok rank] assms(7) by simp
  moreover have "b \<notin># waiting_blocks (clear_loop ?ops [h] (waiting_for_parent s))"
    using waiting_blocks_clear [OF ok] assms(6) by (meson mset_subset_eqD)
  ultimately show ?thesis using s' by (simp add: wait_for_recovery_def del: clear_loop.simps)
qed

text \<open>An example chain: a header is a number, its hash the next one, and its parent has the hash it is.\<close>

definition toy_pov :: "(nat, nat, nat, unit, nat, nat) pov_config" where
  "toy_pov = \<lparr>pr_header = \<lparr>hd_decode = (\<lambda>bs. Some (length bs)), hd_encode = (\<lambda>h. replicate h 0),
       hd_hash = Suc, hd_parent = (\<lambda>h. h), hd_number = of_nat\<rparr>,
     pr_head_data = (\<lambda>r. replicate r 0), pr_decompress = (\<lambda>d. Some (replicate d 0)),
     pr_decode_block_data = (\<lambda>bs. Some (block_data_new (length bs) [] ()))\<rparr>"

text \<open>The client knows the block with hash 5 and no later one.\<close>

definition toy_view :: "nat chain_view" where
  "toy_view = \<lparr>best_hash = 5, best_number = 4, finalized_hash = 5, finalized_number = 4,
     status_of = (\<lambda>h. Inr (if h \<le> 5 then InChainWithState else UnknownBlock))\<rparr>"

definition toy_pov_run :: "(nat, nat, nat) pov_event list \<Rightarrow> (nat, nat, nat, nat) pov_state option" where
  "toy_pov_run evs = pov_run toy_pov (map (Pair toy_view) evs) pov_new"

abbreviation toy_requests :: "(nat, nat, nat) pov_event list" where
  "toy_requests \<equiv> [PendingCandidate 5 1, PendingCandidate 6 1, PendingCandidate 7 1, DelayOver 6, DelayOver 7, DelayOver 8]"

definition imported_hashes :: "('hd, 'h, 'ext, 'r) pov_state option \<Rightarrow> 'h list list" where
  "imported_hashes s = (case s of None \<Rightarrow> [] | Some t \<Rightarrow> map (map in_hash) (import_calls t))"

lemma toy_rank: "id (hd_parent (pr_header toy_pov) header) < id (hd_hash (pr_header toy_pov) header)"
  by (simp add: toy_pov_def)

text \<open>Blocks 6, 7 and 8 form a chain on block 5.  Recovered from the tip on, all are imported.\<close>

theorem pov_nothing_waits_in_vain_witness:
  "\<exists>s. toy_pov_run (toy_requests @ [Recovered 8 (Some 7), Recovered 7 (Some 6)]) = Some s \<and>
     length (waiting_for_parent s) = 2 \<and> active_candidates s \<subseteq> set (recoveries s)"
proof -
  let ?evs = "toy_requests @ [Recovered 8 (Some 7), Recovered 7 (Some 6)]"
  have "case toy_pov_run ?evs of Some s \<Rightarrow> length (waiting_for_parent s) = 2 | None \<Rightarrow> False" by code_simp
  then obtain s where s: "toy_pov_run ?evs = Some s" "length (waiting_for_parent s) = 2"
    by (auto split: option.splits)
  have ok: "list_all (event_ok toy_pov \<circ> snd) (map (Pair toy_view) ?evs)" by code_simp
  show ?thesis
    using pov_nothing_waits_in_vain [OF s(1) [unfolded toy_pov_run_def] ok toy_rank] s by blast
qed

theorem pov_imports_parents_first_witness:
  "\<exists>s s'. toy_pov_run (toy_requests @ [Recovered 8 (Some 7), Recovered 7 (Some 6)]) = Some s \<and>
     pov_step toy_pov toy_view (Recovered 6 (Some 5)) s = Some s' \<and>
     (\<exists>taken. import_calls s' = import_calls s @ [map (incoming (pr_header toy_pov)) ((5, []) # taken)]) \<and>
     imported_hashes (Some s') = [[6, 7, 8]]"
proof -
  let ?evs = "toy_requests @ [Recovered 8 (Some 7), Recovered 7 (Some 6)]"
  have "case toy_pov_run ?evs of None \<Rightarrow> False | Some s \<Rightarrow>
      (case pov_step toy_pov toy_view (Recovered 6 (Some 5)) s of
         None \<Rightarrow> False | Some s' \<Rightarrow> imported_hashes (Some s') = [[6, 7, 8]])" by code_simp
  then obtain s s' where s: "toy_pov_run ?evs = Some s" "pov_step toy_pov toy_view (Recovered 6 (Some 5)) s = Some s'"
      "imported_hashes (Some s') = [[6, 7, 8]]"
    by (auto split: option.splits)
  have ok: "list_all (event_ok toy_pov \<circ> snd) (map (Pair toy_view) ?evs)" by code_simp
  have b: "recovered_block toy_pov (Some 5) = Some (5, [])" by code_simp
  have st: "status_of toy_view (block_parent (pr_header toy_pov) (5, [] :: nat list)) \<in>
      Inr ` {Queued, InChainWithState, InChainPruned, KnownBad}"
    by (simp add: toy_view_def toy_pov_def block_parent_def)
  show ?thesis
    using pov_imports_parents_first [OF s(1) [unfolded toy_pov_run_def] ok s(2) b st] s by blast
qed

text \<open>In the order 7, 8, 6 block 8 is lost, and only 6 and 7 are imported.\<close>

theorem pov_child_of_waiting_parent_lost_witness:
  "\<exists>s s'. toy_pov_run (toy_requests @ [Recovered 7 (Some 6)]) = Some s \<and>
     pov_step toy_pov toy_view (Recovered 8 (Some 7)) s = Some s' \<and>
     (7, []) \<notin># waiting_blocks (waiting_for_parent s') \<and>
     imported_hashes (pov_step toy_pov toy_view (Recovered 6 (Some 5)) s') = [[6, 7]]"
proof -
  let ?evs = "toy_requests @ [Recovered 7 (Some 6)]"
  have "case toy_pov_run ?evs of None \<Rightarrow> False | Some s \<Rightarrow> waiting_for_parent s = [(6, [(6, [])])] \<and>
      7 \<notin> active_candidates s \<and>
      (case pov_step toy_pov toy_view (Recovered 8 (Some 7)) s of
         None \<Rightarrow> False | Some s' \<Rightarrow> imported_hashes (pov_step toy_pov toy_view (Recovered 6 (Some 5)) s') = [[6, 7]])"
    by code_simp
  then obtain s s' where s: "toy_pov_run ?evs = Some s" "pov_step toy_pov toy_view (Recovered 8 (Some 7)) s = Some s'"
      "waiting_for_parent s = [(6, [(6, [])])]" "7 \<notin> active_candidates s"
      "imported_hashes (pov_step toy_pov toy_view (Recovered 6 (Some 5)) s') = [[6, 7]]"
    by (auto split: option.splits)
  have ok: "list_all (event_ok toy_pov \<circ> snd) (map (Pair toy_view) ?evs)" "event_ok toy_pov (Recovered 8 (Some 7))"
    by code_simp+
  have b: "recovered_block toy_pov (Some 7) = Some (7, [])" by code_simp
  have "(7, []) \<notin># waiting_blocks (waiting_for_parent s')"
    using pov_child_of_waiting_parent_lost [OF s(1) [unfolded toy_pov_run_def] ok(1) s(2) ok(2) b, of "(6, [])" id]
      toy_rank s(3,4)
    by (simp add: toy_view_def toy_pov_def block_parent_def block_hash_def)
  then show ?thesis using s by blast
qed

end
