(* ===== verification/Parachain_Consensus.thy ===== *)
theory Parachain_Consensus
  imports Client_Interface
begin

text \<open>
  Following the relay chain, \<^verbatim>\<open>src/client/consensus/common/src\<close>: the best and the finalized block of the
  parachain are those the relay chain includes and finalizes.  A step is given the view of the parachain client that
  it reads; what it asks of the client and of the network is recorded in order, whether or not the client then
  succeeds.
\<close>

section \<open>Data\<close>

record 'hd block_import_params =
  bi_origin :: block_origin
  bi_header :: 'hd
  bi_fork_choice :: "bool option"
  bi_import_existing :: bool

datatype ('hd, 'h) consensus_action = ImportBlock "'hd block_import_params" | FinalizeBlock 'h | AnnounceBlock 'h

record ('hd, 'h) import_notification =
  nt_hash :: 'h
  nt_origin :: block_origin
  nt_header :: 'hd
  nt_is_new_best :: bool

record ('hd, 'h) consensus_state =
  unset_best_header :: "'hd option"
  consensus_actions :: "('hd, 'h) consensus_action list"

definition consensus_start :: "('hd, 'h) consensus_state" where
  "consensus_start = \<lparr>unset_best_header = None, consensus_actions = []\<rparr>"

definition act :: "('hd, 'h) consensus_action \<Rightarrow> ('hd, 'h) consensus_state \<Rightarrow> ('hd, 'h) consensus_state" where
  "act a s = s\<lparr>consensus_actions := consensus_actions s @ [a]\<rparr>"

section \<open>The block import of a parachain\<close>

definition block_import_new :: "block_origin \<Rightarrow> 'hd \<Rightarrow> 'hd block_import_params" where
  "block_import_new origin header =
     \<lparr>bi_origin = origin, bi_header = header, bi_fork_choice = None, bi_import_existing = False\<rparr>"

text \<open>What the wrapped import is called with: only the initial synchronisation sets best blocks.\<close>

definition parachain_import_block :: "('hd, 'z) block_import_params_scheme \<Rightarrow> ('hd, 'z) block_import_params_scheme" where
  "parachain_import_block params = params\<lparr>bi_fork_choice := Some (bi_origin params = NetworkInitialSync)\<rparr>"

section \<open>Handlers\<close>

definition import_block_as_new_best :: "('hd, 'h) header_ops \<Rightarrow> 'h chain_view \<Rightarrow> 'hd \<Rightarrow> ('hd, 'h) consensus_state \<Rightarrow>
    ('hd, 'h) consensus_state" where
  "import_block_as_new_best ops client header s =
     (if hd_number ops header < best_number client then s
      else act (ImportBlock ((block_import_new ConsensusBroadcast header)\<lparr>bi_fork_choice := Some True, bi_import_existing := True\<rparr>)) s)"

definition handle_new_best_parachain_head :: "('hd, 'h) header_ops \<Rightarrow> 'h chain_view \<Rightarrow> bytes \<Rightarrow> ('hd, 'h) consensus_state \<Rightarrow>
    ('hd, 'h) consensus_state" where
  "handle_new_best_parachain_head ops client head s =
     (case hd_decode ops head of
        None \<Rightarrow> s
      | Some parachain_head \<Rightarrow>
          let hash = hd_hash ops parachain_head in
          if best_hash client = hash then s
          else
            case status_of client hash of
              Inr InChainWithState \<Rightarrow>
                import_block_as_new_best ops client parachain_head (s\<lparr>unset_best_header := None\<rparr>)
            | Inr InChainPruned \<Rightarrow> s
            | Inr UnknownBlock \<Rightarrow> s\<lparr>unset_best_header := Some parachain_head\<rparr>
            | _ \<Rightarrow> s)"

text \<open>The second half of the handler of an imported block: the best header that is not set yet may be set now.\<close>

definition enact_unset_best_header :: "('hd, 'h) header_ops \<Rightarrow> 'h chain_view \<Rightarrow> ('hd, 'h) import_notification \<Rightarrow>
    ('hd, 'h) consensus_state \<Rightarrow> ('hd, 'h) consensus_state" where
  "enact_unset_best_header ops client notification s =
     (case (nt_is_new_best notification, unset_best_header s) of
        (False, Some unset) \<Rightarrow>
          let number = hd_number ops (nt_header notification) in
          if number < hd_number ops unset then s
          else if number = hd_number ops unset \<and> hd_hash ops unset \<noteq> nt_hash notification then s
          else
            (case status_of client (hd_hash ops unset) of
               Inr InChainWithState \<Rightarrow> import_block_as_new_best ops client unset (s\<lparr>unset_best_header := None\<rparr>)
             | _ \<Rightarrow> s)
      | _ \<Rightarrow> s)"

definition handle_new_block_imported :: "('hd, 'h) header_ops \<Rightarrow> 'h chain_view \<Rightarrow> ('hd, 'h) import_notification \<Rightarrow>
    ('hd, 'h) consensus_state \<Rightarrow> ('hd, 'h) consensus_state" where
  "handle_new_block_imported ops client notification s =
     enact_unset_best_header ops client notification
       (if nt_origin notification \<noteq> Own then act (AnnounceBlock (nt_hash notification)) s else s)"

definition handle_finalized_head :: "('hd, 'h) header_ops \<Rightarrow> 'h chain_view \<Rightarrow> bytes \<Rightarrow> ('hd, 'h) consensus_state \<Rightarrow>
    ('hd, 'h) consensus_state" where
  "handle_finalized_head ops client finalized_head s =
     (case hd_decode ops finalized_head of
        None \<Rightarrow> s
      | Some header \<Rightarrow>
          let hash = hd_hash ops header in
          if finalized_hash client \<noteq> hash then act (FinalizeBlock hash) s else s)"

section \<open>The heads of the relay chain\<close>

definition parachain_head_at :: "('k \<Rightarrow> para_id \<Rightarrow> ('e, persisted_validation_data option) result) \<Rightarrow> 'k \<Rightarrow> para_id \<Rightarrow>
    ('e, bytes option) result" where
  "parachain_head_at persisted_validation_data at para_id =
     rbind (persisted_validation_data at para_id) (\<lambda>s. Inr (map_option pvd_parent_head s))"

text \<open>The streams of best and of finalized heads: of each notification the head, where there is one.\<close>

definition head_stream :: "('k \<Rightarrow> para_id \<Rightarrow> ('e, persisted_validation_data option) result) \<Rightarrow> para_id \<Rightarrow> 'k list \<Rightarrow>
    bytes list" where
  "head_stream persisted_validation_data para_id notifications =
     List.map_filter (\<lambda>n. case parachain_head_at persisted_validation_data n para_id of
       Inr (Some head) \<Rightarrow> Some head | _ \<Rightarrow> None) notifications"

section \<open>The tasks\<close>

datatype ('hd, 'h) consensus_event =
    NewBestHead bytes
  | BlockImportedEvent "('hd, 'h) import_notification"
  | FinalizedHead bytes

text \<open>\<^verbatim>\<open>run_parachain_consensus\<close>: the two tasks interleave, one item of a stream at a time.\<close>

fun consensus_step :: "('hd, 'h) header_ops \<Rightarrow> 'h chain_view \<Rightarrow> ('hd, 'h) consensus_event \<Rightarrow> ('hd, 'h) consensus_state \<Rightarrow>
    ('hd, 'h) consensus_state" where
  "consensus_step ops client (NewBestHead h) s = handle_new_best_parachain_head ops client h s"
| "consensus_step ops client (BlockImportedEvent i) s = handle_new_block_imported ops client i s"
| "consensus_step ops client (FinalizedHead h) s = handle_finalized_head ops client h s"

fun consensus_run :: "('hd, 'h) header_ops \<Rightarrow> ('h chain_view \<times> ('hd, 'h) consensus_event) list \<Rightarrow>
    ('hd, 'h) consensus_state \<Rightarrow> ('hd, 'h) consensus_state" where
  "consensus_run ops [] s = s"
| "consensus_run ops ((client, event) # events) s = consensus_run ops events (consensus_step ops client event s)"

section \<open>Only heads of the relay chain\<close>

definition as_new_best :: "'hd \<Rightarrow> ('hd, 'h) consensus_action" where
  "as_new_best header = ImportBlock \<lparr>bi_origin = ConsensusBroadcast, bi_header = header, bi_fork_choice = Some True,
     bi_import_existing = True\<rparr>"

definition best_heads :: "('hd, 'h) header_ops \<Rightarrow> ('h chain_view \<times> ('hd, 'h) consensus_event) list \<Rightarrow> 'hd set" where
  "best_heads ops events = {h. \<exists>client bs. (client, NewBestHead bs) \<in> set events \<and> hd_decode ops bs = Some h}"

definition finalized_heads :: "('hd, 'h) header_ops \<Rightarrow> ('h chain_view \<times> ('hd, 'h) consensus_event) list \<Rightarrow> 'hd set" where
  "finalized_heads ops events = {h. \<exists>client bs. (client, FinalizedHead bs) \<in> set events \<and> hd_decode ops bs = Some h}"

text \<open>An action is justified by the heads given: what is set as best is a best head, what is finalized a finalized one.\<close>

fun justified :: "('hd, 'h) header_ops \<Rightarrow> 'hd set \<Rightarrow> 'hd set \<Rightarrow> ('hd, 'h) consensus_action \<Rightarrow> bool" where
  "justified ops B F (ImportBlock p) = (bi_header p \<in> B)"
| "justified ops B F (FinalizeBlock h) = (h \<in> hd_hash ops ` F)"
| "justified ops B F (AnnounceBlock h) = True"

definition consensus_inv :: "('hd, 'h) header_ops \<Rightarrow> 'hd set \<Rightarrow> 'hd set \<Rightarrow> ('hd, 'h) consensus_state \<Rightarrow> bool" where
  "consensus_inv ops B F s \<longleftrightarrow> list_all (justified ops B F) (consensus_actions s) \<and> set_option (unset_best_header s) \<subseteq> B"

lemma consensus_inv_mono: "consensus_inv ops B F s \<Longrightarrow> B \<subseteq> B' \<Longrightarrow> F \<subseteq> F' \<Longrightarrow> consensus_inv ops B' F' s"
proof -
  have "justified ops B F a \<Longrightarrow> B \<subseteq> B' \<Longrightarrow> F \<subseteq> F' \<Longrightarrow> justified ops B' F' a" for a :: "('a, 'b) consensus_action"
    by (cases a) auto
  then show "consensus_inv ops B F s \<Longrightarrow> B \<subseteq> B' \<Longrightarrow> F \<subseteq> F' \<Longrightarrow> consensus_inv ops B' F' s"
    by (auto simp: consensus_inv_def list_all_iff)
qed

lemma consensus_inv_act:
  "consensus_inv ops B F (act a s) \<longleftrightarrow> consensus_inv ops B F s \<and> justified ops B F a"
  "consensus_inv ops B F s \<Longrightarrow> consensus_inv ops B F (s\<lparr>unset_best_header := None\<rparr>)"
  "consensus_inv ops B F s \<Longrightarrow> h \<in> B \<Longrightarrow> consensus_inv ops B F (s\<lparr>unset_best_header := Some h\<rparr>)"
  by (auto simp: consensus_inv_def act_def)

lemma consensus_inv_import:
  "consensus_inv ops B F s \<Longrightarrow> h \<in> B \<Longrightarrow> consensus_inv ops B F (import_block_as_new_best ops client h s)"
  by (simp add: import_block_as_new_best_def consensus_inv_act block_import_new_def)

lemma consensus_inv_enact:
  assumes "consensus_inv ops B F s"
  shows "consensus_inv ops B F (enact_unset_best_header ops client i s)"
proof -
  have "set_option (unset_best_header s) \<subseteq> B" using assms by (simp add: consensus_inv_def)
  then show ?thesis
    using assms
    by (auto simp: enact_unset_best_header_def Let_def intro!: consensus_inv_import consensus_inv_act(2)
        split: option.split sum.split block_status.split bool.split)
qed

lemma consensus_inv_step:
  assumes "consensus_inv ops (best_heads ops events) (finalized_heads ops events) s"
  shows "consensus_inv ops (best_heads ops (events @ [(client, ev)])) (finalized_heads ops (events @ [(client, ev)]))
    (consensus_step ops client ev s)"
proof -
  let ?B = "best_heads ops (events @ [(client, ev)])" and ?F = "finalized_heads ops (events @ [(client, ev)])"
  have inv: "consensus_inv ops ?B ?F s"
    using assms by (rule consensus_inv_mono) (auto simp: best_heads_def finalized_heads_def)
  show ?thesis
  proof (cases ev)
    case (NewBestHead bs)
    then have "h \<in> ?B" if "hd_decode ops bs = Some h" for h using that by (auto simp: best_heads_def)
    then show ?thesis
      using inv NewBestHead
      by (auto simp: handle_new_best_parachain_head_def Let_def intro!: consensus_inv_import consensus_inv_act(2,3)
          split: option.split sum.split block_status.split)
  next
    case (BlockImportedEvent i)
    then show ?thesis
      using inv by (simp add: handle_new_block_imported_def consensus_inv_act(1) consensus_inv_enact)
  next
    case (FinalizedHead bs)
    then have "h \<in> ?F" if "hd_decode ops bs = Some h" for h using that by (auto simp: finalized_heads_def)
    then show ?thesis
      using inv FinalizedHead
      by (auto simp: handle_finalized_head_def Let_def consensus_inv_act(1) split: option.split)
  qed
qed

lemma consensus_run_append:
  "consensus_run ops (xs @ ys) s = consensus_run ops ys (consensus_run ops xs s)"
  by (induction ops xs s rule: consensus_run.induct) auto

lemma consensus_inv_run:
  "consensus_inv ops (best_heads ops events) (finalized_heads ops events) (consensus_run ops events consensus_start)"
proof (induction events rule: rev_induct)
  case (snoc e events)
  then show ?case using consensus_inv_step by (cases e) (simp add: consensus_run_append)
qed (simp add: consensus_inv_def consensus_start_def)

text \<open>A step that sets a best block does so for a block with state that is not below the best one.\<close>

lemma import_block_as_new_best_only:
  "as_new_best h \<notin> set (consensus_actions s) \<Longrightarrow>
     as_new_best h \<in> set (consensus_actions (import_block_as_new_best ops client h' s)) \<Longrightarrow>
     h = h' \<and> best_number client \<le> hd_number ops h"
  by (auto simp: import_block_as_new_best_def act_def as_new_best_def block_import_new_def split: if_splits)

lemma unset_act [simp]: "unset_best_header (act a s) = unset_best_header s"
  "consensus_actions (act a s) = consensus_actions s @ [a]"
  by (simp_all add: act_def)

lemma consensus_step_best:
  assumes "as_new_best h \<notin> set (consensus_actions s)"
    and "as_new_best h \<in> set (consensus_actions (consensus_step ops client ev s))"
  shows "best_number client \<le> hd_number ops h \<and> status_of client (hd_hash ops h) = Inr InChainWithState"
proof (cases ev)
  case (NewBestHead bs)
  then show ?thesis
    using assms import_block_as_new_best_only [of h "s\<lparr>unset_best_header := None\<rparr>" ops client]
    by (auto simp: handle_new_best_parachain_head_def Let_def
        split: option.splits sum.splits block_status.splits if_splits)
next
  case (BlockImportedEvent i)
  let ?s = "if nt_origin i \<noteq> Own then act (AnnounceBlock (nt_hash i)) s else s"
  have "as_new_best h \<notin> set (consensus_actions ?s)"
    using assms(1) by (simp add: as_new_best_def)
  then show ?thesis
    using assms(2) BlockImportedEvent import_block_as_new_best_only [of h "?s\<lparr>unset_best_header := None\<rparr>" ops client]
    by (auto simp: handle_new_block_imported_def enact_unset_best_header_def Let_def simp del: unset_act
        split: option.splits sum.splits block_status.splits if_splits bool.splits)
next
  case (FinalizedHead bs)
  then show ?thesis
    using assms by (auto simp: handle_finalized_head_def Let_def as_new_best_def split: option.splits if_splits)
qed

section \<open>Properties\<close>

text \<open>C31. The parachain follows the relay chain: every block it sets as best was a head that the relay chain gave as
  best, every block it finalizes one it gave as finalized; and at the moment a block is set as best its state is
  there and the best block is not above it.\<close>

theorem consensus_follows_relay_chain:
  "list_all (justified ops (best_heads ops events) (finalized_heads ops events))
     (consensus_actions (consensus_run ops events consensus_start)) \<and>
   (as_new_best h \<in> set (consensus_actions (consensus_run ops events consensus_start)) \<longrightarrow>
     (\<exists>client ev before after. events = before @ (client, ev) # after \<and> best_number client \<le> hd_number ops h \<and>
        status_of client (hd_hash ops h) = Inr InChainWithState))"
proof -
  have "\<exists>client ev before after. events = before @ (client, ev) # after \<and> best_number client \<le> hd_number ops h \<and>
      status_of client (hd_hash ops h) = Inr InChainWithState"
    if "as_new_best h \<in> set (consensus_actions (consensus_run ops events consensus_start))"
    using that
  proof (induction events rule: rev_induct)
    case (snoc e events)
    obtain client ev where e: "e = (client, ev)" by force
    show ?case
    proof (cases "as_new_best h \<in> set (consensus_actions (consensus_run ops events consensus_start))")
      case True
      then show ?thesis using snoc.IH by fastforce
    next
      case False
      then show ?thesis
        using consensus_step_best [OF False, of ops client ev] snoc.prems
        by (auto simp: e consensus_run_append)
    qed
  qed (simp add: consensus_start_def)
  then show ?thesis using consensus_inv_run [of ops events] by (auto simp: consensus_inv_def)
qed

text \<open>C32. A head that the relay chain has abandoned can still become the best block: if it was unknown when it was
  given, and the relay chain then goes back to the block that is the best one already, the abandoned head is not
  forgotten, and its later import makes it the best block.\<close>

theorem abandoned_head_becomes_best:
  assumes "hd_decode ops abandoned_bytes = Some abandoned" "hd_decode ops head_bytes = Some head"
    and "status_of v1 (hd_hash ops abandoned) = Inr UnknownBlock" "best_hash v1 \<noteq> hd_hash ops abandoned"
    and "best_hash v2 = hd_hash ops head"
    and "best_number v3 \<le> hd_number ops abandoned"
    and "status_of v3 (hd_hash ops abandoned) = Inr InChainWithState"
    and "nt_header n = abandoned" "nt_hash n = hd_hash ops abandoned" "\<not> nt_is_new_best n"
  shows "last (consensus_actions (consensus_run ops
      [(v1, NewBestHead abandoned_bytes), (v2, NewBestHead head_bytes), (v3, BlockImportedEvent n)] s)) =
    as_new_best abandoned"
  using assms
  by (auto simp: handle_new_best_parachain_head_def handle_new_block_imported_def enact_unset_best_header_def
      import_block_as_new_best_def Let_def as_new_best_def block_import_new_def)

text \<open>Headers are pairs of a number and a fork; block (3, 0) is the best one, and (3, 1) is imported late.\<close>

definition toy_fork_ops :: "(nat \<times> nat, nat \<times> nat) header_ops" where
  "toy_fork_ops = \<lparr>hd_decode = (\<lambda>bs. case bs of [n, f] \<Rightarrow> Some (unat n, unat f) | _ \<Rightarrow> None),
     hd_encode = (\<lambda>(n, f). [of_nat n, of_nat f]), hd_hash = id, hd_parent = (\<lambda>(n, f). (n - 1, 0)), hd_number = (\<lambda>(n, _). of_nat n)\<rparr>"

definition toy_fork_view :: "(nat \<times> nat) list \<Rightarrow> (nat \<times> nat) chain_view" where
  "toy_fork_view known = \<lparr>best_hash = (3, 0), best_number = 3, finalized_hash = (1, 0), finalized_number = 1,
     status_of = (\<lambda>h. Inr (if h \<in> set known then InChainWithState else UnknownBlock))\<rparr>"

definition toy_fork_events :: "((nat \<times> nat) chain_view \<times> (nat \<times> nat, nat \<times> nat) consensus_event) list" where
  "toy_fork_events = [(toy_fork_view [(2, 0), (3, 0)], NewBestHead [3, 1]),
     (toy_fork_view [(2, 0), (3, 0)], NewBestHead [3, 0]),
     (toy_fork_view [(2, 0), (3, 0), (3, 1)], BlockImportedEvent
        \<lparr>nt_hash = (3, 1), nt_origin = NetworkBroadcast, nt_header = (3, 1), nt_is_new_best = False\<rparr>)]"

theorem consensus_follows_relay_chain_witness:
  "\<exists>client ev before after. toy_fork_events = before @ (client, ev) # after \<and>
     status_of client (3, 1) = Inr InChainWithState"
proof -
  have "list_ex (\<lambda>a. a = as_new_best (3, 1)) (consensus_actions (consensus_run toy_fork_ops toy_fork_events consensus_start))"
    by code_simp
  then have "as_new_best (3, 1) \<in> set (consensus_actions (consensus_run toy_fork_ops toy_fork_events consensus_start))"
    by (simp add: list_ex_iff)
  moreover have "hd_hash toy_fork_ops (3, 1) = (3, 1)" by (simp add: toy_fork_ops_def)
  ultimately show ?thesis
    using consensus_follows_relay_chain [of toy_fork_ops toy_fork_events "(3, 1)"] by auto
qed

theorem abandoned_head_becomes_best_witness:
  "last (consensus_actions (consensus_run toy_fork_ops toy_fork_events consensus_start)) = as_new_best (3, 1)"
  unfolding toy_fork_events_def
  by (rule abandoned_head_becomes_best [where head = "(3, 0)"]) (simp_all add: toy_fork_ops_def toy_fork_view_def)

end
