(* ===== verification/Consensus_Adapters.thy ===== *)
theory Consensus_Adapters
  imports Parachain_Consensus
begin

text \<open>
  The consensus algorithms a parachain may use, as far as they are written here: the one provided by the relay chain
  (\<^verbatim>\<open>src/client/consensus/relay-chain/src\<close>), which lets every collator propose, and aura
  (\<^verbatim>\<open>src/client/consensus/aura/src\<close>), which proposes in the slot of the collator.  The proposer, the slot
  worker, the providers of inherent data and the runtime interface are parameters; the client is a state \<open>'s\<close>.
\<close>

section \<open>Inherent data\<close>

text \<open>
  Where the source passes a constant to a parameter (the empty digest and the 500 ms of the proposer, the empty cache of the
  import) the constant is part of the parameter.
\<close>

text \<open>\<open>'i\<close> are the providers of inherent data and \<open>'d\<close> is the data.\<close>

record ('h, 'i, 'd, 'e) inherent_source =
  is_create_providers :: "'h \<Rightarrow> relay_hash \<times> persisted_validation_data \<Rightarrow> ('e, 'i) result"
  is_create_data :: "'i \<Rightarrow> ('e, 'd) result"

definition inherent_data :: "('h, 'i, 'd, 'e) inherent_source \<Rightarrow> 'h \<Rightarrow> persisted_validation_data \<Rightarrow> relay_hash \<Rightarrow>
    ('d \<times> 'i) option" where
  "inherent_data src parent vdata relay_parent =
     (case is_create_providers src parent (relay_parent, vdata) of
        Inl _ \<Rightarrow> None
      | Inr providers \<Rightarrow> (case is_create_data src providers of Inl _ \<Rightarrow> None | Inr d \<Rightarrow> Some (d, providers)))"

text \<open>The relay chain consensus keeps the data only.\<close>

definition relay_chain_inherent_data :: "('h, 'i, 'd, 'e) inherent_source \<Rightarrow> 'h \<Rightarrow> persisted_validation_data \<Rightarrow> relay_hash \<Rightarrow>
    'd option" where
  "relay_chain_inherent_data src parent vdata relay_parent =
     (case is_create_providers src parent (relay_parent, vdata) of
        Inl _ \<Rightarrow> None
      | Inr providers \<Rightarrow> (case is_create_data src providers of Inl _ \<Rightarrow> None | Inr d \<Rightarrow> Some d))"

lemma relay_chain_inherent_data_eq:
  "relay_chain_inherent_data src parent vdata relay_parent = map_option fst (inherent_data src parent vdata relay_parent)"
  by (simp add: relay_chain_inherent_data_def inherent_data_def split: sum.split)

text \<open>The limit on the size of a block: half of the largest proof of validity.\<close>

definition block_size_limit :: "persisted_validation_data \<Rightarrow> u32" where
  "block_size_limit vdata = pvd_max_pov_size vdata div 2"

section \<open>Consensus provided by the relay chain\<close>

text \<open>Import parameters of a whole block; \<open>'c\<close> are the storage changes of its execution.\<close>

record ('hd, 'ext, 'c, 'h) whole_block_import_params = "'hd block_import_params" +
  bi_body :: "'ext list option"
  bi_storage_changes :: "'c option"
  bi_post_hash :: "'h option"

definition whole_block_import_new :: "block_origin \<Rightarrow> 'hd \<Rightarrow> ('hd, 'ext, 'c, 'h) whole_block_import_params" where
  "whole_block_import_new origin header =
     block_import_params.extend (block_import_new origin header) \<lparr>bi_body = None, bi_storage_changes = None, bi_post_hash = None\<rparr>"

record ('hd, 'h, 'ext, 'c, 'sp, 'i, 'd, 'pr, 'r, 'e, 's) relay_chain_consensus =
  rc_header :: "('hd, 'h) header_ops"
  rc_inherents :: "('h, 'i, 'd, 'e) inherent_source"
  rc_init :: "'hd \<Rightarrow> 's \<Rightarrow> ('e, 'pr) result"
  rc_propose :: "'pr \<Rightarrow> 'd \<Rightarrow> u32 \<Rightarrow> ('e, ('hd \<times> 'ext list) \<times> 'c \<times> 'sp) result"
  rc_import_block :: "('hd, 'ext, 'c, 'h) whole_block_import_params \<Rightarrow> 's \<Rightarrow> ('e, 'r) result \<times> 's"

definition own_import_params :: "'hd \<times> 'ext list \<Rightarrow> 'c \<Rightarrow> ('hd, 'ext, 'c, 'h) whole_block_import_params" where
  "own_import_params block changes =
     (whole_block_import_new Own (fst block))\<lparr>bi_body := Some (snd block), bi_storage_changes := Some changes\<rparr>"

definition relay_chain_produce_candidate ::
  "('hd, 'h, 'ext, 'c, 'sp, 'i, 'd, 'pr, 'r, 'e, 's) relay_chain_consensus \<Rightarrow> 'hd \<Rightarrow> relay_hash \<Rightarrow> persisted_validation_data \<Rightarrow>
     's \<Rightarrow> (('hd \<times> 'ext list) \<times> 'sp) option \<times> 's" where
  "relay_chain_produce_candidate cfg parent relay_parent vdata s =
     (case rc_init cfg parent s of
        Inl _ \<Rightarrow> (None, s)
      | Inr proposer \<Rightarrow>
          (case relay_chain_inherent_data (rc_inherents cfg) (hd_hash (rc_header cfg) parent) vdata relay_parent of
             None \<Rightarrow> (None, s)
           | Some d \<Rightarrow>
               (case rc_propose cfg proposer d (block_size_limit vdata) of
                  Inl _ \<Rightarrow> (None, s)
                | Inr (block, changes, state_proof) \<Rightarrow>
                    (case rc_import_block cfg (parachain_import_block (own_import_params block changes)) s of
                       (Inl _, s') \<Rightarrow> (None, s')
                     | (Inr _, s') \<Rightarrow> (Some (block, state_proof), s')))))"

text \<open>
  A candidate is returned only after the import of its block did not fail, called with its body and without making it the
  best block, which is left to the relay chain.  The outcome \<open>r\<close> of the import (imported, already known, bad) is not read.
\<close>

lemma relay_chain_candidate_imported:
  assumes "relay_chain_produce_candidate cfg parent relay_parent vdata s = (Some (block, state_proof), s')"
  shows "\<exists>params r. rc_import_block cfg params s = (Inr r, s') \<and> bi_header params = fst block \<and>
    bi_body params = Some (snd block) \<and> bi_origin params = Own \<and> bi_fork_choice params = Some False"
proof -
  obtain changes r where "rc_import_block cfg (parachain_import_block (own_import_params block changes)) s = (Inr r, s')"
    using assms by (auto simp: relay_chain_produce_candidate_def split: sum.splits option.splits prod.splits)
  then show ?thesis
    by (intro exI [of _ "parachain_import_block (own_import_params block changes)"])
      (simp add: parachain_import_block_def own_import_params_def whole_block_import_new_def block_import_new_def
        block_import_params.defs)
qed

section \<open>The verifier of imported blocks\<close>

record ('hd, 'h, 'ext, 'i, 'd, 'er, 'e) import_verifier =
  iv_header :: "('hd, 'h) header_ops"
  iv_create_providers :: "'h \<Rightarrow> ('e, 'i) result"
  iv_create_data :: "'i \<Rightarrow> ('e, 'd) result"
  iv_check_inherents :: "'h \<Rightarrow> 'hd \<times> 'ext list \<Rightarrow> 'd \<Rightarrow> ('e, bool \<times> 'er list) result"
  iv_try_handle_error :: "'i \<Rightarrow> 'er \<Rightarrow> ('e, unit) result option"
  iv_unhandled :: "'er \<Rightarrow> 'e"

text \<open>The errors that the check of the inherents reports are handled one after the other.\<close>

fun handle_inherent_errors :: "('hd, 'h, 'ext, 'i, 'd, 'er, 'e) import_verifier \<Rightarrow> 'i \<Rightarrow> 'er list \<Rightarrow> ('e, unit) result" where
  "handle_inherent_errors v providers [] = Inr ()"
| "handle_inherent_errors v providers (e # es) =
     (case iv_try_handle_error v providers e of
        Some r \<Rightarrow> rbind r (\<lambda>_. handle_inherent_errors v providers es)
      | None \<Rightarrow> Inl (iv_unhandled v e))"

definition verify_import :: "('hd, 'h, 'ext, 'i, 'd, 'er, 'e) import_verifier \<Rightarrow> ('hd, 'ext, 'c, 'h) whole_block_import_params \<Rightarrow>
    ('e, ('hd, 'ext, 'c, 'h) whole_block_import_params) result" where
  "verify_import v params =
     rbind (case bi_body params of
              None \<Rightarrow> Inr ()
            | Some inner_body \<Rightarrow>
                let parent = hd_parent (iv_header v) (bi_header params) in
                rbind (iv_create_providers v parent) (\<lambda>providers.
                rbind (iv_create_data v providers) (\<lambda>d.
                rbind (iv_check_inherents v parent (bi_header params, inner_body) d) (\<lambda>(okay, errors).
                if \<not> okay then handle_inherent_errors v providers errors else Inr ())))) (\<lambda>_.
     Inr (params\<lparr>bi_post_hash := Some (hd_hash (iv_header v) (bi_header params))\<rparr>))"

lemma handle_inherent_errors_Inr:
  "handle_inherent_errors v providers es = Inr u \<longleftrightarrow> list_all (\<lambda>e. iv_try_handle_error v providers e = Some (Inr ())) es"
  by (induction es) (auto simp: result_simps split: option.splits)

text \<open>A verified block is unchanged but for its hash; its inherents are reported as good or the providers accept all their errors.\<close>

lemma verify_import_Inr:
  assumes "verify_import v params = Inr params'"
  shows "params' = params\<lparr>bi_post_hash := Some (hd_hash (iv_header v) (bi_header params))\<rparr>"
    and "bi_body params = Some body \<Longrightarrow> \<exists>providers d okay errors.
      iv_create_providers v (hd_parent (iv_header v) (bi_header params)) = Inr providers \<and>
      iv_check_inherents v (hd_parent (iv_header v) (bi_header params)) (bi_header params, body) d = Inr (okay, errors) \<and>
      (okay \<or> list_all (\<lambda>e. iv_try_handle_error v providers e = Some (Inr ())) errors)"
  using assms by (auto simp: verify_import_def Let_def result_simps handle_inherent_errors_Inr split: if_splits prod.splits)

section \<open>Aura\<close>

record ('hd, 'd) slot_info =
  si_slot :: u64
  si_timestamp :: u64
  si_inherent_data :: 'd
  si_duration :: u64
  si_chain_head :: 'hd
  si_block_size_limit :: u32

record ('hd, 'h, 'ext, 'sp, 'i, 'd, 'e, 's) aura_consensus =
  ac_header :: "('hd, 'h) header_ops"
  ac_inherents :: "('h, 'i, 'd, 'e) inherent_source"
  ac_slot :: "'i \<Rightarrow> u64"
  ac_timestamp :: "'i \<Rightarrow> u64"
  ac_slot_duration :: u64
  ac_on_slot :: "('hd, 'd) slot_info \<Rightarrow> 's \<Rightarrow> (('hd \<times> 'ext list) \<times> 'sp) option \<times> 's"

definition aura_produce_candidate :: "('hd, 'h, 'ext, 'sp, 'i, 'd, 'e, 's) aura_consensus \<Rightarrow> 'hd \<Rightarrow> relay_hash \<Rightarrow>
    persisted_validation_data \<Rightarrow> 's \<Rightarrow> (('hd \<times> 'ext list) \<times> 'sp) option \<times> 's" where
  "aura_produce_candidate cfg parent relay_parent vdata s =
     (case inherent_data (ac_inherents cfg) (hd_hash (ac_header cfg) parent) vdata relay_parent of
        None \<Rightarrow> (None, s)
      | Some (d, providers) \<Rightarrow>
          ac_on_slot cfg \<lparr>si_slot = ac_slot cfg providers, si_timestamp = ac_timestamp cfg providers, si_inherent_data = d,
            si_duration = ac_slot_duration cfg, si_chain_head = parent, si_block_size_limit = block_size_limit vdata\<rparr> s)"

text \<open>Both algorithms keep a block below half of the largest proof of validity.\<close>

lemma block_size_limit_half: "2 * unat (block_size_limit vdata) \<le> unat (pvd_max_pov_size vdata)"
  by (simp add: block_size_limit_def unat_div)

lemma aura_candidate_on_parent:
  assumes "aura_produce_candidate cfg parent relay_parent vdata s = (Some candidate, s')"
  shows "\<exists>info. ac_on_slot cfg info s = (Some candidate, s') \<and> si_chain_head info = parent \<and>
    2 * unat (si_block_size_limit info) \<le> unat (pvd_max_pov_size vdata)"
proof -
  obtain d providers where "inherent_data (ac_inherents cfg) (hd_hash (ac_header cfg) parent) vdata relay_parent = Some (d, providers)"
    using assms by (auto simp: aura_produce_candidate_def split: option.splits)
  then show ?thesis
    using assms block_size_limit_half [of vdata]
    by (intro exI [of _ "\<lparr>si_slot = ac_slot cfg providers, si_timestamp = ac_timestamp cfg providers, si_inherent_data = d,
        si_duration = ac_slot_duration cfg, si_chain_head = parent, si_block_size_limit = block_size_limit vdata\<rparr>"])
      (simp add: aura_produce_candidate_def)
qed

end
