(* ===== verification/Mock_Inherent.thy ===== *)
theory Mock_Inherent
  imports Parachain_Messages
begin

text \<open>
  Inherent data without a relay chain, for development nodes: the builder of relay chain states with their proofs,
  \<^verbatim>\<open>src/test/relay-sproof-builder/src/lib.rs\<close>, and the provider of mocked inherent data that uses it,
  \<^verbatim>\<open>src/primitives/parachain-inherent/src/mock.rs\<close>.  The trie and the encoders are parameters.
\<close>

section \<open>The builder of relay chain states\<close>

record relay_state_sproof_builder =
  sb_para_id :: para_id
  sb_host_config :: abridged_host_configuration
  sb_dmq_mqc_head :: "relay_hash option"
  sb_upgrade_go_ahead :: "upgrade_go_ahead option"
  sb_relay_dispatch_queue_size :: "(u32 \<times> u32) option"
  sb_hrmp_ingress_channel_index :: "para_id list option"
  sb_hrmp_egress_channel_index :: "para_id list option"
  sb_hrmp_channels :: "((para_id \<times> para_id) \<times> abridged_hrmp_channel) list"
  sb_current_slot :: u64
  sb_current_epoch :: u64
  sb_randomness :: relay_hash

definition sproof_default :: relay_state_sproof_builder where
  "sproof_default = \<lparr>sb_para_id = 200,
     sb_host_config = \<lparr>hc_max_code_size = 2 * 1024 * 1024, hc_max_head_data_size = 1024 * 1024,
       hc_max_upward_queue_count = 8, hc_max_upward_queue_size = 1024, hc_max_upward_message_size = 256,
       hc_max_upward_message_num_per_candidate = 5, hc_hrmp_max_message_num_per_candidate = 5,
       hc_validation_upgrade_cooldown = 6, hc_validation_upgrade_delay = 6\<rparr>,
     sb_dmq_mqc_head = None, sb_upgrade_go_ahead = None, sb_relay_dispatch_queue_size = None,
     sb_hrmp_ingress_channel_index = None, sb_hrmp_egress_channel_index = None, sb_hrmp_channels = [],
     sb_current_slot = 0, sb_current_epoch = 0, sb_randomness = zero_hash\<rparr>"

definition empty_channel :: abridged_hrmp_channel where
  "empty_channel = \<lparr>ch_max_capacity = 0, ch_max_total_size = 0, ch_max_message_size = 0, ch_msg_count = 0,
     ch_total_size = 0, ch_mqc_head = None\<rparr>"

text \<open>The channel is returned by reference; \<open>f\<close> is what the caller does to it.\<close>

definition upsert_inbound_channel :: "para_id \<Rightarrow> (abridged_hrmp_channel \<Rightarrow> abridged_hrmp_channel) \<Rightarrow>
    relay_state_sproof_builder \<Rightarrow> relay_state_sproof_builder" where
  "upsert_inbound_channel sender f b =
     (let in_index = (case sb_hrmp_ingress_channel_index b of None \<Rightarrow> [] | Some ids \<Rightarrow> ids);
        in_index' = (case binary_search_by_key id in_index sender of
                       Inl idx \<Rightarrow> take idx in_index @ sender # drop idx in_index
                     | Inr _ \<Rightarrow> in_index)
      in b\<lparr>sb_hrmp_ingress_channel_index := Some in_index',
           sb_hrmp_channels := btree_upsert (sender, sb_para_id b) empty_channel f (sb_hrmp_channels b)\<rparr>)"

text \<open>Encoders, the keys that only the builder writes, and the trie: its root and the proof of a list of keys.\<close>

record 'p sproof_backend =
  enc_hash :: "relay_hash \<Rightarrow> bytes"
  enc_queue_size :: "u32 \<times> u32 \<Rightarrow> bytes"
  enc_para_ids :: "para_id list \<Rightarrow> bytes"
  enc_channel :: "abridged_hrmp_channel \<Rightarrow> bytes"
  enc_host_config :: "abridged_host_configuration \<Rightarrow> bytes"
  enc_go_ahead :: "upgrade_go_ahead \<Rightarrow> bytes"
  enc_u64 :: "u64 \<Rightarrow> bytes"
  key_epoch_index :: bytes
  key_one_epoch_ago_randomness :: bytes
  trie_root :: "(bytes \<rightharpoonup> bytes) \<Rightarrow> relay_hash"
  trie_prove_read :: "(bytes \<rightharpoonup> bytes) \<Rightarrow> bytes list \<Rightarrow> 'p option"

definition optional :: "('a \<Rightarrow> 'b) \<Rightarrow> 'a option \<Rightarrow> 'b list" where
  "optional f x = (case x of None \<Rightarrow> [] | Some a \<Rightarrow> [f a])"

definition sproof_entries :: "'p relay_backend \<Rightarrow> 'p sproof_backend \<Rightarrow> relay_state_sproof_builder \<Rightarrow> (bytes \<times> bytes) list" where
  "sproof_entries r e b =
     [(key_active_config r, enc_host_config e (sb_host_config b))] @
     optional (\<lambda>head. (key_dmq_mqc_head r (sb_para_id b), enc_hash e head)) (sb_dmq_mqc_head b) @
     optional (\<lambda>size. (key_relay_dispatch_queue_size r (sb_para_id b), enc_queue_size e size)) (sb_relay_dispatch_queue_size b) @
     optional (\<lambda>signal. (key_upgrade_go_ahead r (sb_para_id b), enc_go_ahead e signal)) (sb_upgrade_go_ahead b) @
     optional (\<lambda>ids. (key_hrmp_ingress_channel_index r (sb_para_id b), enc_para_ids e ids)) (sb_hrmp_ingress_channel_index b) @
     optional (\<lambda>ids. (key_hrmp_egress_channel_index r (sb_para_id b), enc_para_ids e ids)) (sb_hrmp_egress_channel_index b) @
     map (\<lambda>((from, to), metadata). (key_hrmp_channels r from to, enc_channel e metadata)) (sb_hrmp_channels b) @
     [(key_epoch_index e, enc_u64 e (sb_current_epoch b)),
      (key_one_epoch_ago_randomness e, enc_hash e (sb_randomness b)),
      (key_current_slot r, enc_u64 e (sb_current_slot b))]"

definition is_sorted_index :: "para_id list option \<Rightarrow> bool" where
  "is_sorted_index ids = (case ids of None \<Rightarrow> True | Some xs \<Rightarrow> sort xs = xs)"

definition into_state_root_and_proof :: "'p relay_backend \<Rightarrow> 'p sproof_backend \<Rightarrow> relay_state_sproof_builder \<Rightarrow>
    (relay_hash \<times> 'p) option" where
  "into_state_root_and_proof r e b = do {
     _ \<leftarrow> assert_that (is_sorted_index (sb_hrmp_ingress_channel_index b));
     _ \<leftarrow> assert_that (is_sorted_index (sb_hrmp_egress_channel_index b));
     let entries = sproof_entries r e b;
     let state = foldl (\<lambda>m (key, value). m(key \<mapsto> value)) Map.empty entries;
     p \<leftarrow> trie_prove_read e state (map fst entries);
     Some (trie_root e state, p)
   }"


section \<open>The provider of mocked data\<close>

definition generate_randomness :: "u64 \<Rightarrow> relay_hash" where
  "generate_randomness input = to_be_bytes 8 input @ replicate 24 0"

record mock_xcm_config =
  mx_para_id :: para_id
  mx_starting_dmq_mqc_head :: relay_hash
  mx_starting_hrmp_mqc_heads :: "para_id \<rightharpoonup> relay_hash"

text \<open>Reading storage of the parent block, with the hash of storage prefixes and the decoders as parameters; it panics
  if the storage cannot be read or the entry does not decode.\<close>

definition read_parent_storage :: "(bytes \<Rightarrow> ('e, bytes option) result) \<Rightarrow> (bytes \<Rightarrow> bytes) \<Rightarrow> bytes \<Rightarrow> bytes \<Rightarrow>
    (bytes \<Rightarrow> 'a option) \<Rightarrow> 'a \<Rightarrow> 'a option" where
  "read_parent_storage storage twox_128 pallet item decode fallback =
     (case storage (twox_128 pallet @ twox_128 item) of
        Inl _ \<Rightarrow> None
      | Inr None \<Rightarrow> Some fallback
      | Inr (Some raw_data) \<Rightarrow> decode raw_data)"

abbreviation ascii :: "string \<Rightarrow> bytes" where
  "ascii \<equiv> map of_char"

definition parachain_system_name_default :: bytes where
  "parachain_system_name_default = ascii ''ParachainSystem''"

definition mock_xcm_config_new :: "(bytes \<Rightarrow> ('e, bytes option) result) \<Rightarrow> (bytes \<Rightarrow> bytes) \<Rightarrow>
    (bytes \<Rightarrow> relay_hash option) \<Rightarrow> (bytes \<Rightarrow> (para_id \<rightharpoonup> relay_hash) option) \<Rightarrow> para_id \<Rightarrow> bytes \<Rightarrow> mock_xcm_config option" where
  "mock_xcm_config_new storage twox_128 decode_head decode_heads para_id parachain_system_name = do {
     dmq \<leftarrow> read_parent_storage storage twox_128 parachain_system_name (ascii ''LastDmqMqcHead'') decode_head zero_hash;
     hrmp \<leftarrow> read_parent_storage storage twox_128 parachain_system_name (ascii ''LastHrmpMqcHeads'') decode_heads Map.empty;
     Some \<lparr>mx_para_id = para_id, mx_starting_dmq_mqc_head = dmq, mx_starting_hrmp_mqc_heads = hrmp\<rparr>
   }"

record mock_validation_data_provider =
  mp_current_para_block :: u32
  mp_relay_offset :: u32
  mp_relay_blocks_per_para_block :: u32
  mp_para_blocks_per_relay_epoch :: u32
  mp_relay_randomness_config :: "u64 \<Rightarrow> relay_hash"
  mp_xcm_config :: mock_xcm_config
  mp_raw_downward_messages :: "bytes list"
  mp_raw_horizontal_messages :: "(para_id \<times> bytes) list"

definition mock_relay_parent_number :: "mock_validation_data_provider \<Rightarrow> relay_block_number" where
  "mock_relay_parent_number p = mp_relay_offset p + mp_relay_blocks_per_para_block p * mp_current_para_block p"

definition mock_downward_messages :: "mock_validation_data_provider \<Rightarrow> inbound_downward_message list" where
  "mock_downward_messages p =
     map (\<lambda>msg. \<lparr>dm_sent_at = mock_relay_parent_number p, dm_msg = msg\<rparr>) (mp_raw_downward_messages p)"

definition mock_horizontal_messages :: "mock_validation_data_provider \<Rightarrow> (para_id \<times> inbound_hrmp_message list) list" where
  "mock_horizontal_messages p =
     foldl (\<lambda>m (para_id, msg). btree_upsert para_id [] (\<lambda>ms. ms @ [\<lparr>hm_sent_at = mock_relay_parent_number p, hm_data = msg\<rparr>]) m)
       [] (mp_raw_horizontal_messages p)"

definition starting_head :: "mock_xcm_config \<Rightarrow> para_id \<Rightarrow> relay_hash" where
  "starting_head x para_id = (case mx_starting_hrmp_mqc_heads x para_id of None \<Rightarrow> zero_hash | Some h \<Rightarrow> h)"

fun mock_channels :: "hasher \<Rightarrow> mock_xcm_config \<Rightarrow> (para_id \<times> inbound_hrmp_message list) list \<Rightarrow>
    relay_state_sproof_builder \<Rightarrow> relay_state_sproof_builder" where
  "mock_channels H x [] b = b"
| "mock_channels H x ((para_id, messages) # rest) b =
     mock_channels H x rest
       (upsert_inbound_channel para_id
         (\<lambda>c. c\<lparr>ch_mqc_head := Some (foldl (extend_hrmp H) (starting_head x para_id) messages)\<rparr>) b)"

definition mock_epoch :: "mock_validation_data_provider \<Rightarrow> u64" where
  "mock_epoch p = (if mp_para_blocks_per_relay_epoch p = 0 then ucast (mp_current_para_block p)
     else ucast (mp_current_para_block p div mp_para_blocks_per_relay_epoch p))"

definition mock_builder :: "hasher \<Rightarrow> mock_validation_data_provider \<Rightarrow> relay_state_sproof_builder" where
  "mock_builder H p =
     (let x = mp_xcm_config p;
        dmq_mqc = foldl (extend_downward H) (mx_starting_dmq_mqc_head x) (mock_downward_messages p);
        b = sproof_default\<lparr>sb_para_id := mx_para_id x, sb_dmq_mqc_head := Some dmq_mqc\<rparr>
      in (mock_channels H x (mock_horizontal_messages p) b)\<lparr>sb_current_epoch := mock_epoch p,
           sb_randomness := mp_relay_randomness_config p (ucast (mp_current_para_block p))\<rparr>)"

text \<open>The data that is put under the identifier of the inherent.\<close>

definition mock_provide_inherent_data :: "'p relay_backend \<Rightarrow> 'p sproof_backend \<Rightarrow> hasher \<Rightarrow> mock_validation_data_provider \<Rightarrow>
    'p parachain_inherent_data option" where
  "mock_provide_inherent_data r e H p = do {
     (root, state_proof) \<leftarrow> into_state_root_and_proof r e (mock_builder H p);
     Some \<lparr>validation_data = \<lparr>pvd_parent_head = [], pvd_relay_parent_number = mock_relay_parent_number p,
         pvd_relay_parent_storage_root = root, pvd_max_pov_size = 0\<rparr>,
       relay_chain_state = state_proof, downward_messages = mock_downward_messages p,
       horizontal_messages = mock_horizontal_messages p\<rparr>
   }"

section \<open>What is built can be read\<close>

text \<open>The keys of the relay chain's state that matter to one parachain.\<close>

datatype relay_key = KConfig | KDmq | KSize | KGoAhead | KRestriction | KIngress | KEgress | KChannel para_id para_id |
  KEpoch | KRandomness | KSlot

fun well_known_key :: "'p relay_backend \<Rightarrow> 'p sproof_backend \<Rightarrow> para_id \<Rightarrow> relay_key \<Rightarrow> bytes" where
  "well_known_key r e self KConfig = key_active_config r"
| "well_known_key r e self KDmq = key_dmq_mqc_head r self"
| "well_known_key r e self KSize = key_relay_dispatch_queue_size r self"
| "well_known_key r e self KGoAhead = key_upgrade_go_ahead r self"
| "well_known_key r e self KRestriction = key_upgrade_restriction r self"
| "well_known_key r e self KIngress = key_hrmp_ingress_channel_index r self"
| "well_known_key r e self KEgress = key_hrmp_egress_channel_index r self"
| "well_known_key r e self (KChannel from to) = key_hrmp_channels r from to"
| "well_known_key r e self KEpoch = key_epoch_index e"
| "well_known_key r e self KRandomness = key_one_epoch_ago_randomness e"
| "well_known_key r e self KSlot = key_current_slot r"

text \<open>
  What is relied on: different keys are different byte strings, decoders undo encoders, and a proof that
  covers all keys of a state can be made, has the root of that state and shows every key as the state has it.
\<close>

definition sproof_backend_ok :: "'p relay_backend \<Rightarrow> 'p sproof_backend \<Rightarrow> bool" where
  "sproof_backend_ok r e \<longleftrightarrow>
     (\<forall>self. inj (well_known_key r e self)) \<and>
     (\<forall>x. dec_hash r (enc_hash e x) = Some x) \<and> (\<forall>x. dec_queue_size r (enc_queue_size e x) = Some x) \<and>
     (\<forall>x. dec_para_ids r (enc_para_ids e x) = Some x) \<and> (\<forall>x. dec_channel r (enc_channel e x) = Some x) \<and>
     (\<forall>x. dec_host_config r (enc_host_config e x) = Some x) \<and> (\<forall>x. dec_go_ahead r (enc_go_ahead e x) = Some x) \<and>
     (\<forall>x. dec_slot r (enc_u64 e x) = Some x) \<and>
     (\<forall>state keys. dom state \<subseteq> set keys \<longrightarrow> (\<exists>p. trie_prove_read e state keys = Some p \<and>
        rb_contains_root r p (trie_root e state) \<and> (\<forall>key. rb_trie r p (trie_root e state) key = Inr (state key))))"

lemma sproof_backend_okD:
  assumes "sproof_backend_ok r e"
  shows "inj (well_known_key r e self)"
    and "dec_hash r (enc_hash e h) = Some h" and "dec_queue_size r (enc_queue_size e qs) = Some qs"
    and "dec_para_ids r (enc_para_ids e ids) = Some ids" and "dec_channel r (enc_channel e c) = Some c"
    and "dec_host_config r (enc_host_config e hc) = Some hc" and "dec_go_ahead r (enc_go_ahead e g) = Some g"
    and "dec_slot r (enc_u64 e slot) = Some slot"
    and "dom state \<subseteq> set keys \<Longrightarrow> \<exists>p. trie_prove_read e state keys = Some p \<and>
      rb_contains_root r p (trie_root e state) \<and> (\<forall>key. rb_trie r p (trie_root e state) key = Inr (state key))"
  using assms unfolding sproof_backend_ok_def by blast+

definition keyed_entries :: "'p sproof_backend \<Rightarrow> relay_state_sproof_builder \<Rightarrow> (relay_key \<times> bytes) list" where
  "keyed_entries e b =
     [(KConfig, enc_host_config e (sb_host_config b))] @
     optional (\<lambda>head. (KDmq, enc_hash e head)) (sb_dmq_mqc_head b) @
     optional (\<lambda>size. (KSize, enc_queue_size e size)) (sb_relay_dispatch_queue_size b) @
     optional (\<lambda>signal. (KGoAhead, enc_go_ahead e signal)) (sb_upgrade_go_ahead b) @
     optional (\<lambda>ids. (KIngress, enc_para_ids e ids)) (sb_hrmp_ingress_channel_index b) @
     optional (\<lambda>ids. (KEgress, enc_para_ids e ids)) (sb_hrmp_egress_channel_index b) @
     map (\<lambda>((from, to), metadata). (KChannel from to, enc_channel e metadata)) (sb_hrmp_channels b) @
     [(KEpoch, enc_u64 e (sb_current_epoch b)), (KRandomness, enc_hash e (sb_randomness b)),
      (KSlot, enc_u64 e (sb_current_slot b))]"

lemma sproof_entries_keyed:
  "sproof_entries r e b = map (map_prod (well_known_key r e (sb_para_id b)) id) (keyed_entries e b)"
  by (simp add: sproof_entries_def keyed_entries_def optional_def case_prod_unfold split: option.split)

lemma foldl_updates: "foldl (\<lambda>m (key, value). m(key \<mapsto> value)) Map.empty es = map_of (rev es)"
  by (induction es rule: rev_induct) auto

lemma map_of_inj: "inj f \<Longrightarrow> map_of (map (map_prod f id) es) (f k) = map_of es k"
  by (induction es) (auto simp: inj_eq)

lemma map_of_channels:
  "map_of (map (\<lambda>((from, to), c). (KChannel from to, enc c)) chs) (KChannel from to) = map_option enc (map_of chs (from, to))"
  by (induction chs) auto

lemma map_of_channels_other:
  "\<forall>from to. k \<noteq> KChannel from to \<Longrightarrow> map_of (map (\<lambda>((from, to), c). (KChannel from to, enc c)) chs) k = None"
  by (induction chs) auto

lemma map_of_rev: "distinct (map fst es) \<Longrightarrow> map_of (rev es) = map_of es"
  by (rule map_of_inject_set [THEN iffD2]) (simp_all add: rev_map [symmetric])

definition sproof_state :: "'p relay_backend \<Rightarrow> 'p sproof_backend \<Rightarrow> relay_state_sproof_builder \<Rightarrow> bytes \<rightharpoonup> bytes" where
  "sproof_state r e b = foldl (\<lambda>m (key, value). m(key \<mapsto> value)) Map.empty (sproof_entries r e b)"

lemma sproof_state_lookup:
  assumes "sproof_backend_ok r e" "distinct (map fst (sb_hrmp_channels b))" "self = sb_para_id b"
  shows "sproof_state r e b (well_known_key r e self k) = (case k of
     KConfig \<Rightarrow> Some (enc_host_config e (sb_host_config b))
   | KDmq \<Rightarrow> map_option (enc_hash e) (sb_dmq_mqc_head b)
   | KSize \<Rightarrow> map_option (enc_queue_size e) (sb_relay_dispatch_queue_size b)
   | KGoAhead \<Rightarrow> map_option (enc_go_ahead e) (sb_upgrade_go_ahead b)
   | KRestriction \<Rightarrow> None
   | KIngress \<Rightarrow> map_option (enc_para_ids e) (sb_hrmp_ingress_channel_index b)
   | KEgress \<Rightarrow> map_option (enc_para_ids e) (sb_hrmp_egress_channel_index b)
   | KChannel from to \<Rightarrow> map_option (enc_channel e) (map_of (sb_hrmp_channels b) (from, to))
   | KEpoch \<Rightarrow> Some (enc_u64 e (sb_current_epoch b))
   | KRandomness \<Rightarrow> Some (enc_hash e (sb_randomness b))
   | KSlot \<Rightarrow> Some (enc_u64 e (sb_current_slot b)))"
proof -
  have "sproof_state r e b (well_known_key r e self k) = map_of (rev (keyed_entries e b)) k"
    using map_of_inj [OF sproof_backend_okD(1) [OF assms(1)], where es = "rev (keyed_entries e b)" and k = k]
    by (simp add: sproof_state_def foldl_updates sproof_entries_keyed rev_map assms(3))
  moreover have "map_of (map (\<lambda>((from, to), c). (KChannel from to, enc_channel e c)) (rev (sb_hrmp_channels b))) (KChannel src dst) =
      map_option (enc_channel e) (map_of (sb_hrmp_channels b) (src, dst))" for src dst
    by (simp add: map_of_channels map_of_rev [OF assms(2)])
  ultimately show ?thesis
    by (cases k)
      (simp_all add: keyed_entries_def optional_def rev_map map_of_channels_other map_add_def split: option.split)
qed

text \<open>A state is well formed if the indices are in order and list channels that are there.\<close>

definition sproof_wf :: "relay_state_sproof_builder \<Rightarrow> bool" where
  "sproof_wf b \<longleftrightarrow>
     sorted_wrt (<) (map fst (sb_hrmp_channels b)) \<and>
     is_sorted_index (sb_hrmp_ingress_channel_index b) \<and> is_sorted_index (sb_hrmp_egress_channel_index b) \<and>
     (\<forall>ids \<in> set_option (sb_hrmp_ingress_channel_index b). \<forall>a \<in> set ids. map_of (sb_hrmp_channels b) (a, sb_para_id b) \<noteq> None) \<and>
     (\<forall>ids \<in> set_option (sb_hrmp_egress_channel_index b). \<forall>a \<in> set ids. map_of (sb_hrmp_channels b) (sb_para_id b, a) \<noteq> None)"

definition index_channels :: "relay_state_sproof_builder \<Rightarrow> (para_id \<Rightarrow> para_id \<times> para_id) \<Rightarrow> para_id list option \<Rightarrow>
    (para_id \<times> abridged_hrmp_channel) list" where
  "index_channels b ends index =
     map (\<lambda>a. (a, the (map_of (sb_hrmp_channels b) (ends a)))) (case index of None \<Rightarrow> [] | Some ids \<Rightarrow> ids)"

definition built_snapshot :: "relay_state_sproof_builder \<Rightarrow> messaging_state_snapshot" where
  "built_snapshot b = \<lparr>dmq_mqc_head = (case sb_dmq_mqc_head b of None \<Rightarrow> zero_hash | Some h \<Rightarrow> h),
     relay_dispatch_queue_size = (case sb_relay_dispatch_queue_size b of None \<Rightarrow> (0, 0) | Some x \<Rightarrow> x),
     ingress_channels = index_channels b (\<lambda>from. (from, sb_para_id b)) (sb_hrmp_ingress_channel_index b),
     egress_channels = index_channels b (\<lambda>to. (sb_para_id b, to)) (sb_hrmp_egress_channel_index b)\<rparr>"

lemma into_state_root_and_proof_Some:
  assumes "sproof_backend_ok r e" "sproof_wf b"
  shows "\<exists>root proof. into_state_root_and_proof r e b = Some (root, proof) \<and> rb_contains_root r proof root \<and>
    (\<forall>key. rb_trie r proof root key = Inr (sproof_state r e b key))"
proof -
  have "dom (sproof_state r e b) \<subseteq> set (map fst (sproof_entries r e b))"
    by (simp add: sproof_state_def foldl_updates dom_map_of_conv_image_fst)
  from sproof_backend_okD(9) [OF assms(1) this] obtain p where
    "trie_prove_read e (sproof_state r e b) (map fst (sproof_entries r e b)) = Some p"
    "rb_contains_root r p (trie_root e (sproof_state r e b))"
    "\<forall>key. rb_trie r p (trie_root e (sproof_state r e b)) key = Inr (sproof_state r e b key)" by blast
  then show ?thesis
    using assms(2) by (simp add: into_state_root_and_proof_def sproof_wf_def sproof_state_def assert_that_def)
qed

lemma read_channels_built:
  assumes "sproof_backend_ok r e" "distinct (map fst (sb_hrmp_channels b))"
    and "\<And>a. a \<in> set ids \<Longrightarrow> map_of (sb_hrmp_channels b) (ends a) \<noteq> None"
  shows "read_channels r (\<lambda>key. Inr (sproof_state r e b key)) ends ids =
    Inr (map (\<lambda>a. (a, the (map_of (sb_hrmp_channels b) (ends a)))) ids)"
proof -
  have "read_entry (dec_channel r) (\<lambda>key. Inr (sproof_state r e b key)) (key_hrmp_channels r src dst) None = Inr c"
    if "map_of (sb_hrmp_channels b) (src, dst) = Some c" for src dst c
    using that sproof_state_lookup [OF assms(1,2) refl, of "KChannel src dst"]
    by (simp add: read_entry_def sproof_backend_okD [OF assms(1)])
  with assms(3) show ?thesis by (fastforce simp: read_channels_Inr comp_def)
qed

lemma sproof_reads:
  assumes "sproof_backend_ok r e" "sproof_wf b"
  defines "p \<equiv> \<lparr>rp_para_id = sb_para_id b, rp_trie = (\<lambda>key. Inr (sproof_state r e b key))\<rparr>"
  shows "read_messaging_state_snapshot r p = Inr (built_snapshot b)"
    and "read_abridged_host_configuration r p = Inr (sb_host_config b)"
    and "read_slot r p = Inr (sb_current_slot b)"
    and "read_upgrade_go_ahead_signal r p = Inr (sb_upgrade_go_ahead b)"
    and "read_upgrade_restriction_signal r p = Inr None"
proof -
  have chs: "distinct (map fst (sb_hrmp_channels b))"
    using assms(2) ordered_keys_sorted by (auto simp: sproof_wf_def)
  note lookup = sproof_state_lookup [OF assms(1) chs refl]
  note entries = lookup [of KConfig] lookup [of KDmq] lookup [of KSize] lookup [of KGoAhead] lookup [of KRestriction]
    lookup [of KIngress] lookup [of KEgress] lookup [of KSlot]
  note dec = sproof_backend_okD(2-8) [OF assms(1)]
  have "read_channels r (rp_trie p) ends (case index of None \<Rightarrow> [] | Some ids \<Rightarrow> ids) = Inr (index_channels b ends index)"
    if "\<forall>ids \<in> set_option index. \<forall>a \<in> set ids. map_of (sb_hrmp_channels b) (ends a) \<noteq> None" for ends index
    using that read_channels_built [OF assms(1) chs] by (auto simp: p_def index_channels_def split: option.splits)
  then have "read_channels r (rp_trie p) (\<lambda>from. (from, sb_para_id b)) (case sb_hrmp_ingress_channel_index b of None \<Rightarrow> [] | Some ids \<Rightarrow> ids) =
      Inr (ingress_channels (built_snapshot b))"
    "read_channels r (rp_trie p) (\<lambda>to. (sb_para_id b, to)) (case sb_hrmp_egress_channel_index b of None \<Rightarrow> [] | Some ids \<Rightarrow> ids) =
      Inr (egress_channels (built_snapshot b))"
    using assms(2) by (simp_all add: sproof_wf_def built_snapshot_def)
  then show "read_messaging_state_snapshot r p = Inr (built_snapshot b)"
    using entries
    by (simp add: read_messaging_state_snapshot_def Let_def p_def read_entry_def dec built_snapshot_def rbind_def map_err_def ok_or_def
        split: option.splits)
  show "read_abridged_host_configuration r p = Inr (sb_host_config b)" "read_slot r p = Inr (sb_current_slot b)"
    "read_upgrade_go_ahead_signal r p = Inr (sb_upgrade_go_ahead b)" "read_upgrade_restriction_signal r p = Inr None"
    using entries
    by (simp_all add: read_abridged_host_configuration_def read_slot_def read_upgrade_go_ahead_signal_def
        read_upgrade_restriction_signal_def read_optional_entry_def p_def read_entry_def dec map_err_def ok_or_def
        split: option.splits)
qed

text \<open>A relay chain state built for a parachain is read back by the parachain system exactly as it was built:
  messaging state, host configuration, slot and signals, with what is not set absent or the default.\<close>

theorem sproof_read_back:
  assumes "sproof_backend_ok r e" "sproof_wf b"
  shows "\<exists>root pr p. into_state_root_and_proof r e b = Some (root, pr) \<and> relay_proof_new r (sb_para_id b) root pr = Inr p \<and>
    read_messaging_state_snapshot r p = Inr (built_snapshot b) \<and>
    read_abridged_host_configuration r p = Inr (sb_host_config b) \<and> read_slot r p = Inr (sb_current_slot b) \<and>
    read_upgrade_go_ahead_signal r p = Inr (sb_upgrade_go_ahead b) \<and> read_upgrade_restriction_signal r p = Inr None"
proof -
  obtain root pr where "into_state_root_and_proof r e b = Some (root, pr)" "rb_contains_root r pr root"
    "rb_trie r pr root = (\<lambda>key. Inr (sproof_state r e b key))"
    using into_state_root_and_proof_Some [OF assms] by blast
  then show ?thesis using sproof_reads [OF assms] by (simp add: relay_proof_new_def)
qed

section \<open>Mocked data is accepted\<close>

definition ingress_ids :: "relay_state_sproof_builder \<Rightarrow> para_id list" where
  "ingress_ids b = (case sb_hrmp_ingress_channel_index b of None \<Rightarrow> [] | Some ids \<Rightarrow> ids)"

lemma insert_at_search:
  assumes "sorted xs" "binary_search_by_key id xs a = Inl j"
  shows "sorted (take j xs @ a # drop j xs)" and "set (take j xs @ a # drop j xs) = insert a (set xs)"
proof -
  have s: "sorted (map id xs)" using assms(1) by simp
  note i = binary_search_insert [OF s assms(2)]
  show "sorted (take j xs @ a # drop j xs)"
    using i(2,3) sorted_wrt_take [OF assms(1)] sorted_wrt_drop [OF assms(1)]
    by (fastforce simp: sorted_append intro: less_imp_le)
  show "set (take j xs @ a # drop j xs) = insert a (set xs)"
    by (metis append_take_drop_id set_append list.simps(15) Un_insert_right)
qed

lemma upsert_index:
  assumes "is_sorted_index (sb_hrmp_ingress_channel_index b)"
  shows "is_sorted_index (sb_hrmp_ingress_channel_index (upsert_inbound_channel a f b))"
    and "set (ingress_ids (upsert_inbound_channel a f b)) = insert a (set (ingress_ids b))"
proof -
  have s: "sorted (ingress_ids b)"
    using assms by (auto simp: ingress_ids_def is_sorted_index_def split: option.splits) (metis sorted_sort)
  then have s': "sorted (map id (ingress_ids b))" by simp
  show "is_sorted_index (sb_hrmp_ingress_channel_index (upsert_inbound_channel a f b))"
    using s insert_at_search(1) [OF s]
    by (auto simp: ingress_ids_def is_sorted_index_def upsert_inbound_channel_def Let_def sorted_sort_id split: sum.split)
  show "set (ingress_ids (upsert_inbound_channel a f b)) = insert a (set (ingress_ids b))"
  proof (cases "binary_search_by_key id (ingress_ids b) a")
    case (Inl j)
    then show ?thesis using insert_at_search(2) [OF s Inl] by (simp add: ingress_ids_def upsert_inbound_channel_def Let_def)
  next
    case (Inr j)
    from binary_search_Ok [OF Inr] have "a \<in> set (ingress_ids b)" by (metis id_apply nth_mem)
    then show ?thesis using Inr by (auto simp: ingress_ids_def upsert_inbound_channel_def Let_def)
  qed
qed

lemma upsert_channel:
  assumes "sorted_wrt (<) (map fst (sb_hrmp_channels b))"
  shows "sorted_wrt (<) (map fst (sb_hrmp_channels (upsert_inbound_channel a f b)))"
    and "map_of (sb_hrmp_channels (upsert_inbound_channel a f b)) k = (if k = (a, sb_para_id b)
      then Some (f (case map_of (sb_hrmp_channels b) k of None \<Rightarrow> empty_channel | Some c \<Rightarrow> c))
      else map_of (sb_hrmp_channels b) k)"
  using assms by (auto simp: upsert_inbound_channel_def Let_def map_of_btree_upsert)

lemma upsert_keeps [simp]:
  "sb_para_id (upsert_inbound_channel a f b) = sb_para_id b"
  "sb_host_config (upsert_inbound_channel a f b) = sb_host_config b"
  "sb_dmq_mqc_head (upsert_inbound_channel a f b) = sb_dmq_mqc_head b"
  "sb_upgrade_go_ahead (upsert_inbound_channel a f b) = sb_upgrade_go_ahead b"
  "sb_hrmp_egress_channel_index (upsert_inbound_channel a f b) = sb_hrmp_egress_channel_index b"
  by (simp_all add: upsert_inbound_channel_def Let_def)

lemma ingress_ids_conv:
  "(\<forall>ids \<in> set_option (sb_hrmp_ingress_channel_index b). \<forall>a \<in> set ids. P a) \<longleftrightarrow> (\<forall>a \<in> set (ingress_ids b). P a)"
  by (auto simp: ingress_ids_def split: option.splits)

lemma sproof_wfD:
  assumes "sproof_wf b"
  shows "sorted_wrt (<) (map fst (sb_hrmp_channels b))" and "is_sorted_index (sb_hrmp_ingress_channel_index b)"
  using assms by (simp_all add: sproof_wf_def)

lemma upsert_wf: "sproof_wf b \<Longrightarrow> sproof_wf (upsert_inbound_channel a f b)"
  using upsert_index [of b a f] upsert_channel [of b a f]
  unfolding sproof_wf_def ingress_ids_conv by auto

lemma mock_channels_keeps [simp]:
  "sb_para_id (mock_channels H x ms b) = sb_para_id b"
  "sb_host_config (mock_channels H x ms b) = sb_host_config b"
  "sb_dmq_mqc_head (mock_channels H x ms b) = sb_dmq_mqc_head b"
  "sb_upgrade_go_ahead (mock_channels H x ms b) = sb_upgrade_go_ahead b"
  by (induction ms arbitrary: b) auto

lemma mock_channels_wf: "sproof_wf b \<Longrightarrow> sproof_wf (mock_channels H x ms b)"
  by (induction ms arbitrary: b) (auto simp: upsert_wf)

lemma mock_channels_index:
  "sproof_wf b \<Longrightarrow> set (ingress_ids (mock_channels H x ms b)) = set (ingress_ids b) \<union> fst ` set ms"
proof (induction ms arbitrary: b)
  case (Cons p ms)
  then show ?case by (cases p) (simp add: upsert_wf upsert_index(2) sproof_wfD(2))
qed simp

lemma mock_channels_other:
  "sproof_wf b \<Longrightarrow> a \<notin> fst ` set ms \<Longrightarrow>
     map_of (sb_hrmp_channels (mock_channels H x ms b)) (a, sb_para_id b) = map_of (sb_hrmp_channels b) (a, sb_para_id b)"
proof (induction ms arbitrary: b)
  case (Cons p ms)
  obtain a' msgs where p: "p = (a', msgs)" by (cases p)
  let ?b = "upsert_inbound_channel a' (\<lambda>c. c\<lparr>ch_mqc_head := Some (foldl (extend_hrmp H) (starting_head x a') msgs)\<rparr>) b"
  have "sproof_wf ?b" "a \<notin> fst ` set ms" "a \<noteq> a'" using Cons.prems by (simp_all add: p upsert_wf)
  then show ?case
    using Cons.IH [of ?b] upsert_channel(2) [OF sproof_wfD(1)] Cons.prems(1) by (simp add: p)
qed simp

lemma mock_channels_head:
  assumes "sproof_wf b" "distinct (map fst ms)" "(a, msgs) \<in> set ms"
  shows "\<exists>c. map_of (sb_hrmp_channels (mock_channels H x ms b)) (a, sb_para_id b) = Some c \<and>
    ch_mqc_head c = Some (foldl (extend_hrmp H) (starting_head x a) msgs)"
  using assms
proof (induction ms arbitrary: b)
  case (Cons p ms)
  obtain a' msgs' where p: "p = (a', msgs')" by (cases p)
  let ?b = "upsert_inbound_channel a' (\<lambda>c. c\<lparr>ch_mqc_head := Some (foldl (extend_hrmp H) (starting_head x a') msgs')\<rparr>) b"
  have wf: "sproof_wf ?b" using Cons.prems by (simp add: upsert_wf)
  show ?case
  proof (cases "(a, msgs) \<in> set ms")
    case True
    then show ?thesis using Cons.IH [OF wf] Cons.prems(2) by (simp add: p)
  next
    case False
    then have eq: "a = a'" "msgs = msgs'" and new: "a \<notin> fst ` set ms" using Cons.prems by (auto simp: p)
    show ?thesis
      using mock_channels_other [OF wf new, of H x] upsert_channel(2) [OF sproof_wfD(1)] Cons.prems(1)
      by (simp add: p eq)
  qed
qed simp

lemma mock_horizontal_ordered: "sorted_wrt (<) (map fst (mock_horizontal_messages p))"
proof -
  have "sorted_wrt (<) (map fst m) \<Longrightarrow> sorted_wrt (<) (map fst (foldl (\<lambda>m (para_id, msg). btree_upsert para_id []
      (\<lambda>ms. ms @ [\<lparr>hm_sent_at = mock_relay_parent_number p, hm_data = msg\<rparr>]) m) m raw))" for m raw
    by (induction raw arbitrary: m) auto
  from this [of "[]" "mp_raw_horizontal_messages p"] show ?thesis by (simp add: mock_horizontal_messages_def)
qed

lemma mock_horizontal_sent_at:
  "(a, ms) \<in> set (mock_horizontal_messages p) \<Longrightarrow> m \<in> set ms \<Longrightarrow> hm_sent_at m = mock_relay_parent_number p"
proof -
  define sent where "sent = (\<lambda>mm :: (para_id \<times> inbound_hrmp_message list) list.
    \<forall>(a, ms) \<in> set mm. \<forall>m \<in> set ms. hm_sent_at m = mock_relay_parent_number p)"
  have step: "sent mm \<Longrightarrow> sent (btree_upsert k [] (\<lambda>ms. ms @ [\<lparr>hm_sent_at = mock_relay_parent_number p, hm_data = d\<rparr>]) mm)" for k d mm
    unfolding sent_def
    by (induction k "[] :: inbound_hrmp_message list" "\<lambda>ms. ms @ [\<lparr>hm_sent_at = mock_relay_parent_number p, hm_data = d\<rparr>]" mm
        rule: btree_upsert.induct) auto
  have "sent mm \<Longrightarrow> sent (foldl (\<lambda>m (para_id, msg). btree_upsert para_id []
      (\<lambda>ms. ms @ [\<lparr>hm_sent_at = mock_relay_parent_number p, hm_data = msg\<rparr>]) m) mm raw)" for mm raw
    by (induction raw arbitrary: mm) (auto intro: step)
  from this [of "[]" "mp_raw_horizontal_messages p"] have "sent (mock_horizontal_messages p)"
    by (simp add: mock_horizontal_messages_def sent_def)
  then show "(a, ms) \<in> set (mock_horizontal_messages p) \<Longrightarrow> m \<in> set ms \<Longrightarrow> hm_sent_at m = mock_relay_parent_number p"
    unfolding sent_def by blast
qed

lemma mock_builder_wf: "sproof_wf (mock_builder H p)"
proof -
  have "sproof_wf (b\<lparr>sb_current_epoch := c, sb_randomness := d\<rparr>) = sproof_wf b" for b c d by (simp add: sproof_wf_def)
  moreover have "sproof_wf (sproof_default\<lparr>sb_para_id := a, sb_dmq_mqc_head := h\<rparr>)" for a h
    by (simp add: sproof_wf_def sproof_default_def is_sorted_index_def)
  ultimately show ?thesis by (simp add: mock_builder_def Let_def mock_channels_wf)
qed

lemma mock_builder_ingress:
  shows "ingress_channels (built_snapshot (mock_builder H p)) =
     map (\<lambda>a. (a, the (map_of (sb_hrmp_channels (mock_builder H p)) (a, mx_para_id (mp_xcm_config p))))) (ingress_ids (mock_builder H p))"
    and "set (ingress_ids (mock_builder H p)) = fst ` set (mock_horizontal_messages p)"
  and "sb_para_id (mock_builder H p) = mx_para_id (mp_xcm_config p)"
  and "(a, msgs) \<in> set (mock_horizontal_messages p) \<Longrightarrow>
    target_head (the (map_of (sb_hrmp_channels (mock_builder H p)) (a, mx_para_id (mp_xcm_config p)))) =
    foldl (extend_hrmp H) (starting_head (mp_xcm_config p) a) msgs"
proof -
  let ?b = "sproof_default\<lparr>sb_para_id := mx_para_id (mp_xcm_config p),
    sb_dmq_mqc_head := Some (foldl (extend_downward H) (mx_starting_dmq_mqc_head (mp_xcm_config p)) (mock_downward_messages p))\<rparr>"
  have wf: "sproof_wf ?b" by (simp add: sproof_wf_def sproof_default_def is_sorted_index_def)
  show "ingress_channels (built_snapshot (mock_builder H p)) =
     map (\<lambda>a. (a, the (map_of (sb_hrmp_channels (mock_builder H p)) (a, mx_para_id (mp_xcm_config p))))) (ingress_ids (mock_builder H p))"
    by (simp add: built_snapshot_def index_channels_def ingress_ids_def mock_builder_def Let_def)
  show "set (ingress_ids (mock_builder H p)) = fst ` set (mock_horizontal_messages p)"
    using mock_channels_index [OF wf] by (simp add: mock_builder_def Let_def ingress_ids_def sproof_default_def)
  show "sb_para_id (mock_builder H p) = mx_para_id (mp_xcm_config p)" by (simp add: mock_builder_def Let_def)
  show "target_head (the (map_of (sb_hrmp_channels (mock_builder H p)) (a, mx_para_id (mp_xcm_config p)))) =
      foldl (extend_hrmp H) (starting_head (mp_xcm_config p) a) msgs" if "(a, msgs) \<in> set (mock_horizontal_messages p)"
    using mock_channels_head [OF wf _ that, of H "mp_xcm_config p"] ordered_keys_sorted [OF mock_horizontal_ordered, of p]
    by (auto simp: mock_builder_def Let_def target_head_def)
qed

text \<open>The handlers and hooks of the runtime return.\<close>

definition psys_handlers_return :: "('p, 'w) psys_config \<Rightarrow> bool" where
  "psys_handlers_return cfg \<longleftrightarrow>
     (\<forall>vfp s. \<exists>s'. ps_on_validation_data cfg vfp s = Some s') \<and>
     (\<forall>ms limit s. \<exists>n w s'. ps_handle_dmp_messages cfg ms limit s = Some (n, w, s')) \<and>
     (\<forall>ms limit s. \<exists>w s'. ps_handle_xcmp_messages cfg ms limit s = Some (w, s'))"

text \<open>The storage of the parent block as a client shows it: an absent item has its default.\<close>

definition storage_has :: "(bytes \<Rightarrow> ('e, bytes option) result) \<Rightarrow> bytes \<Rightarrow> (bytes \<Rightarrow> 'a option) \<Rightarrow> 'a \<Rightarrow> 'a \<Rightarrow> bool" where
  "storage_has storage key decode fallback x \<longleftrightarrow>
     storage key = Inr None \<and> x = fallback \<or> (\<exists>raw. storage key = Inr (Some raw) \<and> decode raw = Some x)"

lemma read_parent_storage_has:
  "storage_has storage (twox_128 pallet @ twox_128 item) decode fallback x \<Longrightarrow>
     read_parent_storage storage twox_128 pallet item decode fallback = Some x"
  by (auto simp: storage_has_def read_parent_storage_def)

lemma mock_xcm_config_new_heads:
  assumes dmq: "storage_has storage (twox_128 name @ twox_128 (ascii ''LastDmqMqcHead'')) dec_head zero_hash dmq_head"
    and hrmp: "storage_has storage (twox_128 name @ twox_128 (ascii ''LastHrmpMqcHeads'')) dec_heads Map.empty hrmp_heads"
    and new: "mock_xcm_config_new storage twox_128 dec_head dec_heads self name = Some x"
  shows "mx_para_id x = self" "mx_starting_dmq_mqc_head x = dmq_head" "mx_starting_hrmp_mqc_heads x = hrmp_heads"
proof -
  have "read_parent_storage storage twox_128 name (ascii ''LastDmqMqcHead'') dec_head zero_hash = Some dmq_head"
    "read_parent_storage storage twox_128 name (ascii ''LastHrmpMqcHeads'') dec_heads Map.empty = Some hrmp_heads"
    by (rule read_parent_storage_has, rule dmq, rule read_parent_storage_has, rule hrmp)
  then have "\<lparr>mx_para_id = self, mx_starting_dmq_mqc_head = dmq_head, mx_starting_hrmp_mqc_heads = hrmp_heads\<rparr> = x"
    using new by (simp add: mock_xcm_config_new_def)
  from this [symmetric] show "mx_para_id x = self" "mx_starting_dmq_mqc_head x = dmq_head" "mx_starting_hrmp_mqc_heads x = hrmp_heads"
    by simp_all
qed

lemma process_downward_accepts:
  assumes "psys_handlers_return cfg" "dmp_handler_pulls_all cfg" "length ms < 2 ^ 32"
    and "foldl (extend_downward (ps_hasher cfg)) (LastDmqMqcHead s) ms = expected"
  shows "\<exists>w s'. process_inbound_downward_messages cfg expected ms s = Some (w, s')"
proof (cases "of_nat (length ms) = (0 :: u32)")
  case True
  then show ?thesis
    using assms(4) of_nat_length_0 [OF assms(3)]
    by (auto simp: process_inbound_downward_messages_def Let_def)
next
  case False
  let ?t = "psys_deposit_event (DownwardMessagesReceived (of_nat (length ms))) s"
  let ?limit = "case ReservedDmpWeightOverride ?t of None \<Rightarrow> ps_reserved_dmp_weight cfg | Some w \<Rightarrow> w"
  obtain n w s' where h: "ps_handle_dmp_messages cfg (map (\<lambda>m. (dm_sent_at m, dm_msg m)) ms) ?limit ?t = Some (n, w, s')"
    using assms(1) unfolding psys_handlers_return_def by blast
  then show ?thesis
    using False pulls_all_take [OF assms(2) h] assms(4) by (auto simp: process_inbound_downward_messages_def Let_def)
qed

lemma process_horizontal_accepts:
  assumes "psys_handlers_return cfg" "sorted (map fst ingress)" "fst ` set messages \<subseteq> fst ` set ingress"
    and "\<And>a c. (a, c) \<in> set ingress \<Longrightarrow> foldl (extend_hrmp (ps_hasher cfg)) (entry_head (LastHrmpMqcHeads s) Map.empty a)
      (of_sender a (order_horizontal messages)) = target_head c"
  shows "\<exists>w s'. process_inbound_horizontal_messages cfg ingress messages relay_parent s = Some (w, s')"
proof -
  have found: "list_all (\<lambda>(a, _). case binary_search_by_key fst ingress a of Inl _ \<Rightarrow> False | Inr _ \<Rightarrow> True) messages"
    unfolding list_all_iff
  proof clarify
    fix a ms assume "(a, ms) \<in> set messages"
    then have "a \<in> fst ` set ingress" using assms(3) by force
    then show "case binary_search_by_key fst ingress a of Inl _ \<Rightarrow> False | Inr _ \<Rightarrow> True"
      using binary_search_sorted [OF assms(2), of a] by auto
  qed
  obtain wm running where track: "track_messages (ps_hasher cfg) (LastHrmpMqcHeads s) (order_horizontal messages) None Map.empty = (wm, running)"
    by fastforce
  obtain running' where check: "check_heads (LastHrmpMqcHeads s) ingress running = Some running'"
    using track_messages_head [OF track] assms(4) by (auto simp: check_heads_Some)
  have "\<exists>w s'. ps_handle_xcmp_messages cfg ms limit s = Some (w, s')" for ms limit
    using assms(1) unfolding psys_handlers_return_def by blast
  then obtain w s' where "ps_handle_xcmp_messages cfg (map (\<lambda>(sender, m). (sender, hm_sent_at m, hm_data m)) (order_horizontal messages))
      (case ReservedXcmpWeightOverride s of None \<Rightarrow> ps_reserved_xcmp_weight cfg | Some w \<Rightarrow> w) s = Some (w, s')" by blast
  then show ?thesis
    using check by (simp add: process_inbound_horizontal_messages_def Let_def found track)
qed

lemma mock_of_sender:
  assumes "(a, msgs) \<in> set (mock_horizontal_messages p)"
  shows "of_sender a (order_horizontal (mock_horizontal_messages p)) = msgs"
proof -
  have d: "distinct (map fst (mock_horizontal_messages p))"
    using ordered_keys_sorted [OF mock_horizontal_ordered] by blast
  then have "contents_of (mock_horizontal_messages p) a = msgs" using assms by (simp add: contents_of_def)
  moreover have "sorted (map hm_sent_at msgs)"
    using mock_horizontal_sent_at [OF assms] by (simp add: sorted_wrt_iff_nth_less)
  ultimately show ?thesis using of_sender_order [OF d] by (simp add: sort_key_id_if_sorted sorted_sort_id)
qed

lemma mock_heads_match:
  assumes "mx_starting_hrmp_mqc_heads (mp_xcm_config p) = LastHrmpMqcHeads s"
    and "(a, c) \<in> set (ingress_channels (built_snapshot (mock_builder H p)))"
  shows "foldl (extend_hrmp H) (entry_head (LastHrmpMqcHeads s) Map.empty a)
    (of_sender a (order_horizontal (mock_horizontal_messages p))) = target_head c"
proof -
  have "a \<in> fst ` set (mock_horizontal_messages p)"
    and c: "c = the (map_of (sb_hrmp_channels (mock_builder H p)) (a, mx_para_id (mp_xcm_config p)))"
    using assms(2) mock_builder_ingress(1,2) [of H p] by auto
  then obtain msgs where msgs: "(a, msgs) \<in> set (mock_horizontal_messages p)" by auto
  show ?thesis
    using mock_of_sender [OF msgs] mock_builder_ingress(4) [OF msgs, of H] assms(1)
    by (simp add: c entry_head_def starting_head_def)
qed

lemma mock_ingress_sorted: "sorted (map fst (ingress_channels (built_snapshot (mock_builder H p))))"
proof -
  have "is_sorted_index (sb_hrmp_ingress_channel_index (mock_builder H p))" by (rule sproof_wfD(2) [OF mock_builder_wf])
  then have "sorted (ingress_ids (mock_builder H p))"
    by (auto simp: ingress_ids_def is_sorted_index_def split: option.splits) (metis sorted_sort)
  then show ?thesis by (simp add: mock_builder_ingress(1) comp_def)
qed

lemma mock_builder_fields:
  "dmq_mqc_head (built_snapshot (mock_builder H p)) =
     foldl (extend_downward H) (mx_starting_dmq_mqc_head (mp_xcm_config p)) (mock_downward_messages p)"
  "sb_upgrade_go_ahead (mock_builder H p) = None"
  by (simp_all add: built_snapshot_def mock_builder_def Let_def sproof_default_def)

text \<open>C6. Mocked inherent data is accepted: whatever messages are injected, fewer than 2 to the 32, the data made from the heads in the
  storage of the parent block passes every check of the parachain system.
\<close>

theorem mock_inherent_accepted:
  fixes s :: "('p, 'w) psys_state"
  assumes backend: "sproof_backend_ok (ps_backend cfg) e"
    and handlers: "psys_frames cfg" "dmp_handler_pulls_all cfg" "psys_handlers_return cfg" "ps_validation_params cfg = None"
    and dmq: "storage_has storage (twox_128 name @ twox_128 (ascii ''LastDmqMqcHead'')) dec_head zero_hash (LastDmqMqcHead s)"
    and hrmp: "storage_has storage (twox_128 name @ twox_128 (ascii ''LastHrmpMqcHeads'')) dec_heads Map.empty (LastHrmpMqcHeads s)"
    and new: "mock_xcm_config_new storage twox_128 dec_head dec_heads (ps_self_para_id cfg) name = Some (mp_xcm_config p)"
    and block: "ValidationData s = None" "ps_check_relay_number cfg (mock_relay_parent_number p) (LastRelayChainBlockNumber s)"
    and len: "length (mp_raw_downward_messages p) < 2 ^ 32"
  shows "\<exists>data w s'. mock_provide_inherent_data (ps_backend cfg) e (ps_hasher cfg) p = Some data \<and>
    set_validation_data cfg (NoneOrigin :: 'acc origin) data s = Some (Inr (w, s'))"
proof -
  let ?r = "ps_backend cfg" and ?H = "ps_hasher cfg" and ?b = "mock_builder (ps_hasher cfg) p"
  note x = mock_xcm_config_new_heads [OF dmq hrmp new]
  obtain root pr where built: "into_state_root_and_proof ?r e ?b = Some (root, pr)" "rb_contains_root ?r pr root"
    "rb_trie ?r pr root = (\<lambda>key. Inr (sproof_state ?r e ?b key))"
    using into_state_root_and_proof_Some [OF backend mock_builder_wf] by blast
  let ?vfp = "\<lparr>pvd_parent_head = [], pvd_relay_parent_number = mock_relay_parent_number p,
    pvd_relay_parent_storage_root = root, pvd_max_pov_size = 0\<rparr>"
  let ?data = "\<lparr>validation_data = ?vfp, relay_chain_state = pr, downward_messages = mock_downward_messages p,
    horizontal_messages = mock_horizontal_messages p\<rparr>"
  note reads = sproof_reads [OF backend mock_builder_wf, of ?H p, unfolded mock_builder_ingress(3) x(1)]
  let ?s3 = "s\<lparr>LastRelayChainBlockNumber := mock_relay_parent_number p, UpgradeRestrictionSignal := None,
    ValidationData := Some ?vfp, RelayStateProof := Some pr, RelevantMessagingState := Some (built_snapshot ?b),
    HostConfiguration := Some (sb_host_config ?b)\<rparr>"
  obtain s4 where s4: "ps_on_validation_data cfg ?vfp ?s3 = Some s4"
    using handlers(3) unfolding psys_handlers_return_def by blast
  have heads4: "LastDmqMqcHead s4 = LastDmqMqcHead s" "LastHrmpMqcHeads s4 = LastHrmpMqcHeads s"
    using psys_framesD(1) [OF handlers(1) s4] by (simp_all add: psys_private_def)
  obtain w5 s5 where s5: "process_inbound_downward_messages cfg (dmq_mqc_head (built_snapshot ?b)) (mock_downward_messages p) s4 = Some (w5, s5)"
    using process_downward_accepts [OF handlers(3,2), of "mock_downward_messages p" s4] len
    by (auto simp: mock_builder_fields heads4 x mock_downward_messages_def)
  have "LastHrmpMqcHeads s5 = LastHrmpMqcHeads s" using process_downward_frames [OF s5 handlers(1)] heads4 by simp
  then have "mx_starting_hrmp_mqc_heads (mp_xcm_config p) = LastHrmpMqcHeads s5" using x by simp
  note heads5 = mock_heads_match [OF this]
  have senders: "fst ` set (mock_horizontal_messages p) \<subseteq> fst ` set (ingress_channels (built_snapshot ?b))"
    by (auto simp: mock_builder_ingress(1,2) image_image)
  obtain w6 s6 where s6: "process_inbound_horizontal_messages cfg (ingress_channels (built_snapshot ?b))
      (mock_horizontal_messages p) (mock_relay_parent_number p) s5 = Some (w6, s6)"
    using process_horizontal_accepts [OF handlers(3) mock_ingress_sorted senders heads5] by blast
  have "set_validation_data_body cfg ?data s = Some (w5 + w6, s6)"
    using block reads s4 s5 s6 built(2,3) handlers(4)
    by (simp add: set_validation_data_body_def Let_def validate_validation_data_def relay_proof_new_def
        apply_go_ahead_signal_def mock_builder_fields expect_def)
  then show ?thesis
    using built(1) by (simp add: mock_provide_inherent_data_def set_validation_data_def ensure_none_def)
qed

section \<open>A concrete instance\<close>

definition u32s_encode :: "u32 list \<Rightarrow> bytes" where
  "u32s_encode ws = concat (map (to_be_bytes 4) ws)"

definition u32s_decode :: "nat \<Rightarrow> bytes \<Rightarrow> u32 list" where
  "u32s_decode n bs = map (\<lambda>i. from_be_bytes (take 4 (drop (4 * i) bs))) [0..<n]"

lemma length_u32s_encode [simp]: "length (u32s_encode ws) = 4 * length ws"
  by (induction ws) (simp_all add: u32s_encode_def)

lemma u32s_decode_encode: "u32s_decode (length ws) (u32s_encode ws @ rest) = ws"
proof (induction ws)
  case (Cons w ws)
  have "from_be_bytes (to_be_bytes 4 w) = w" using unsigned_less [of w] by (intro from_to_be_bytes) simp
  moreover have "u32s_decode (Suc n) bs = from_be_bytes (take 4 bs) # u32s_decode n (drop 4 bs)" for n bs
    by (simp add: u32s_decode_def upt_rec [of 0 "Suc n"] map_Suc_upt [symmetric] add.commute del: upt_Suc)
  ultimately show ?case using Cons.IH by (simp add: u32s_encode_def)
qed (simp add: u32s_decode_def)

definition channel_words :: "abridged_hrmp_channel \<Rightarrow> u32 list" where
  "channel_words c = [ch_max_capacity c, ch_max_total_size c, ch_max_message_size c, ch_msg_count c, ch_total_size c]"

definition host_words :: "abridged_host_configuration \<Rightarrow> u32 list" where
  "host_words c = [hc_max_code_size c, hc_max_head_data_size c, hc_max_upward_queue_count c, hc_max_upward_queue_size c,
     hc_max_upward_message_size c, hc_max_upward_message_num_per_candidate c, hc_hrmp_max_message_num_per_candidate c,
     hc_validation_upgrade_cooldown c, hc_validation_upgrade_delay c]"

definition wide_backend :: "(bytes \<times> bytes) list relay_backend" where
  "wide_backend = toy_backend\<lparr>
     key_dmq_mqc_head := (\<lambda>a. 1 # to_be_bytes 4 a),
     key_relay_dispatch_queue_size := (\<lambda>a. 2 # to_be_bytes 4 a),
     key_hrmp_ingress_channel_index := (\<lambda>a. 3 # to_be_bytes 4 a),
     key_hrmp_egress_channel_index := (\<lambda>a. 4 # to_be_bytes 4 a),
     key_hrmp_channels := (\<lambda>a b. 5 # u32s_encode [a, b]),
     key_upgrade_go_ahead := (\<lambda>a. 8 # to_be_bytes 4 a),
     key_upgrade_restriction := (\<lambda>a. 9 # to_be_bytes 4 a),
     dec_queue_size := (\<lambda>bs. case u32s_decode 2 bs of [a, b] \<Rightarrow> Some (a, b) | _ \<Rightarrow> None),
     dec_para_ids := (\<lambda>bs. Some (u32s_decode (length bs div 4) bs)),
     dec_channel := (\<lambda>bs. case u32s_decode 5 bs of
         [a, b, c, d, e] \<Rightarrow> Some \<lparr>ch_max_capacity = a, ch_max_total_size = b, ch_max_message_size = c, ch_msg_count = d,
           ch_total_size = e, ch_mqc_head = (if drop 20 bs = [] then None else Some (drop 21 bs))\<rparr>
       | _ \<Rightarrow> None),
     dec_host_config := (\<lambda>bs. case u32s_decode 9 bs of
         [a, b, c, d, e, f, g, h, i] \<Rightarrow> Some \<lparr>hc_max_code_size = a, hc_max_head_data_size = b, hc_max_upward_queue_count = c,
           hc_max_upward_queue_size = d, hc_max_upward_message_size = e, hc_max_upward_message_num_per_candidate = f,
           hc_hrmp_max_message_num_per_candidate = g, hc_validation_upgrade_cooldown = h, hc_validation_upgrade_delay = i\<rparr>
       | _ \<Rightarrow> None),
     dec_slot := (\<lambda>bs. Some (from_be_bytes bs))\<rparr>"

definition example_sproof :: "(bytes \<times> bytes) list sproof_backend" where
  "example_sproof = \<lparr>enc_hash = id, enc_queue_size = (\<lambda>(a, b). u32s_encode [a, b]), enc_para_ids = u32s_encode,
     enc_channel = (\<lambda>c. u32s_encode (channel_words c) @ (case ch_mqc_head c of None \<Rightarrow> [] | Some h \<Rightarrow> 1 # h)),
     enc_host_config = (\<lambda>c. u32s_encode (host_words c)),
     enc_go_ahead = (\<lambda>g. case g of Abort \<Rightarrow> [0] | GoAhead \<Rightarrow> [1]),
     enc_u64 = to_be_bytes 8, key_epoch_index = [10], key_one_epoch_ago_randomness = [11],
     trie_root = (\<lambda>_. [1]),
     trie_prove_read = (\<lambda>state keys. Some (concat (map (\<lambda>key. optional (Pair key) (state key)) keys)))\<rparr>"

lemma u32s_decode_words:
  "length ws = n \<Longrightarrow> u32s_decode n (u32s_encode ws) = ws" "length ws = n \<Longrightarrow> u32s_decode n (u32s_encode ws @ rest) = ws"
  using u32s_decode_encode [of ws "[]"] u32s_decode_encode [of ws rest] by auto

lemma wide_keys:
  "well_known_key wide_backend example_sproof self KConfig = [6]"
  "well_known_key wide_backend example_sproof self KDmq = 1 # to_be_bytes 4 self"
  "well_known_key wide_backend example_sproof self KSize = 2 # to_be_bytes 4 self"
  "well_known_key wide_backend example_sproof self KGoAhead = 8 # to_be_bytes 4 self"
  "well_known_key wide_backend example_sproof self KRestriction = 9 # to_be_bytes 4 self"
  "well_known_key wide_backend example_sproof self KIngress = 3 # to_be_bytes 4 self"
  "well_known_key wide_backend example_sproof self KEgress = 4 # to_be_bytes 4 self"
  "well_known_key wide_backend example_sproof self (KChannel a b) = 5 # u32s_encode [a, b]"
  "well_known_key wide_backend example_sproof self KEpoch = [10]"
  "well_known_key wide_backend example_sproof self KRandomness = [11]"
  "well_known_key wide_backend example_sproof self KSlot = [7]"
  by (simp_all add: wide_backend_def toy_backend_def example_sproof_def)

lemma u32s_encode_pair: "u32s_encode [a, b] = u32s_encode [c, d] \<longleftrightarrow> a = c \<and> b = d"
proof
  assume "u32s_encode [a, b] = u32s_encode [c, d]"
  then have "u32s_decode 2 (u32s_encode [a, b]) = u32s_decode 2 (u32s_encode [c, d])" by simp
  then show "a = c \<and> b = d" by (simp add: u32s_decode_words)
qed simp

lemma example_sproof_keys: "inj (well_known_key wide_backend example_sproof self)"
proof
  show "x = y" if "well_known_key wide_backend example_sproof self x = well_known_key wide_backend example_sproof self y" for x y
    using that by (cases x; cases y; simp add: wide_keys u32s_encode_pair del: well_known_key.simps)
qed

lemma example_trie:
  assumes "dom state \<subseteq> set keys"
  shows "map_of (concat (map (\<lambda>key. optional (Pair key) (state key)) keys)) key = state key"
proof -
  have "map_of (concat (map (\<lambda>key. optional (Pair key) (state key)) keys)) key = (if key \<in> set keys then state key else None)"
    by (induction keys) (auto simp: optional_def map_add_def split: option.split)
  then show ?thesis using assms by (cases "state key") auto
qed

lemma example_sproof_ok: "sproof_backend_ok wide_backend example_sproof"
proof -
  have u64: "from_be_bytes (to_be_bytes 8 (x :: u64)) = x" for x
    using unsigned_less [of x] by (intro from_to_be_bytes) simp
  have ids: "dec_para_ids wide_backend (enc_para_ids example_sproof xs) = Some xs" for xs
    by (simp add: wide_backend_def example_sproof_def u32s_decode_words)
  have chan: "dec_channel wide_backend (enc_channel example_sproof c) = Some c" for c
    by (simp add: wide_backend_def example_sproof_def u32s_decode_words channel_words_def split: option.split)
  have host: "dec_host_config wide_backend (enc_host_config example_sproof c) = Some c" for c
    by (simp add: wide_backend_def example_sproof_def u32s_decode_words host_words_def)
  have trie: "\<exists>p. trie_prove_read example_sproof state keys = Some p \<and>
      rb_contains_root wide_backend p (trie_root example_sproof state) \<and>
      (\<forall>key. rb_trie wide_backend p (trie_root example_sproof state) key = Inr (state key))"
    if "dom state \<subseteq> set keys" for state keys
    using example_trie [OF that] by (simp add: wide_backend_def toy_backend_def example_sproof_def)
  have codecs: "dec_hash wide_backend (enc_hash example_sproof h) = Some h"
    "dec_queue_size wide_backend (enc_queue_size example_sproof q) = Some q"
    "dec_go_ahead wide_backend (enc_go_ahead example_sproof g) = Some g"
    "dec_slot wide_backend (enc_u64 example_sproof sl) = Some sl" for h q g sl
    by (simp_all add: wide_backend_def toy_backend_def example_sproof_def u32s_decode_words u64
        split: prod.split upgrade_go_ahead.split)
  show ?thesis
    unfolding sproof_backend_ok_def by (intro conjI allI impI example_sproof_keys ids chan host codecs trie)
qed

definition example_builder :: relay_state_sproof_builder where
  "example_builder = upsert_inbound_channel 7 id (upsert_inbound_channel 300 (\<lambda>c. c\<lparr>ch_mqc_head := Some [1, 2]\<rparr>)
     (sproof_default\<lparr>sb_para_id := 9, sb_relay_dispatch_queue_size := Some (2, 70)\<rparr>))"

lemma example_builder_wf: "sproof_wf example_builder"
proof -
  have "sproof_wf (sproof_default\<lparr>sb_para_id := 9, sb_relay_dispatch_queue_size := Some (2, 70)\<rparr>)"
    by (simp add: sproof_wf_def sproof_default_def is_sorted_index_def)
  then show ?thesis by (simp add: example_builder_def upsert_wf)
qed

theorem sproof_read_back_witness:
  "\<exists>root pr p. into_state_root_and_proof wide_backend example_sproof example_builder = Some (root, pr) \<and>
     relay_proof_new wide_backend 9 root pr = Inr p \<and>
     (case read_messaging_state_snapshot wide_backend p of Inl _ \<Rightarrow> False | Inr snap \<Rightarrow>
        map fst (ingress_channels snap) = [7, 300] \<and> relay_dispatch_queue_size snap = (2, 70) \<and> egress_channels snap = [])"
proof -
  have "sb_para_id example_builder = 9" "map fst (ingress_channels (built_snapshot example_builder)) = [7, 300]"
    "relay_dispatch_queue_size (built_snapshot example_builder) = (2, 70)" "egress_channels (built_snapshot example_builder) = []"
    by code_simp+
  then show ?thesis using sproof_read_back [OF example_sproof_ok example_builder_wf] by auto
qed

text \<open>The example parachain system on this relay chain, and a provider with two downward and three horizontal messages.\<close>

definition wide_psys :: "((bytes \<times> bytes) list, nat) psys_config" where
  "wide_psys = toy_psys\<lparr>ps_backend := wide_backend\<rparr>"

definition example_provider :: mock_validation_data_provider where
  "example_provider = \<lparr>mp_current_para_block = 3, mp_relay_offset = 1000, mp_relay_blocks_per_para_block = 2,
     mp_para_blocks_per_relay_epoch = 10, mp_relay_randomness_config = generate_randomness,
     mp_xcm_config = \<lparr>mx_para_id = 9, mx_starting_dmq_mqc_head = zero_hash, mx_starting_hrmp_mqc_heads = Map.empty\<rparr>,
     mp_raw_downward_messages = [[1], [2]], mp_raw_horizontal_messages = [(300, [3]), (7, [4]), (300, [5])]\<rparr>"

lemma wide_psys_ok:
  "sproof_backend_ok (ps_backend wide_psys) example_sproof" "psys_frames wide_psys" "dmp_handler_pulls_all wide_psys"
  "psys_handlers_return wide_psys" "ps_validation_params wide_psys = None"
  using example_sproof_ok
  by (auto simp: wide_psys_def example_psys_def psys_frames_def dmp_handler_pulls_all_def psys_handlers_return_def)

lemma mock_provide_fields:
  assumes "mock_provide_inherent_data r e H p = Some data"
  shows "horizontal_messages data = mock_horizontal_messages p"
    and "pvd_relay_parent_number (validation_data data) = mock_relay_parent_number p"
  using assms by (auto simp: mock_provide_inherent_data_def Option.bind_eq_Some_conv)

theorem mock_inherent_accepted_witness:
  "\<exists>data w s'. mock_provide_inherent_data wide_backend example_sproof toy_hasher example_provider = Some data \<and>
     map fst (horizontal_messages data) = [7, 300] \<and> pvd_relay_parent_number (validation_data data) = 1006 \<and>
     set_validation_data wide_psys (NoneOrigin :: nat origin) data (psys_genesis [] 0) = Some (Inr (w, s'))"
proof -
  let ?s = "psys_genesis [] 0 :: ((bytes \<times> bytes) list, nat) psys_state"
  let ?storage = "\<lambda>_. Inr None :: (unit, bytes option) result"
  have msgs: "map fst (mock_horizontal_messages example_provider) = [7, 300]" "mock_relay_parent_number example_provider = 1006"
    by code_simp+
  moreover have "mock_xcm_config_new ?storage id Some (\<lambda>_. None) 9 parachain_system_name_default = Some (mp_xcm_config example_provider)"
    by (simp add: mock_xcm_config_new_def read_parent_storage_def example_provider_def)
  moreover have "ps_self_para_id wide_psys = 9" "ps_backend wide_psys = wide_backend" "ps_hasher wide_psys = toy_hasher"
    "ps_check_relay_number wide_psys = relay_number_strictly_increases"
    by (simp_all add: wide_psys_def example_psys_def)
  moreover have "length (mp_raw_downward_messages example_provider) < 2 ^ 32" by (simp add: example_provider_def)
  moreover have "LastDmqMqcHead ?s = zero_hash" "LastHrmpMqcHeads ?s = Map.empty" "ValidationData ?s = None" "LastRelayChainBlockNumber ?s = 0"
    by (simp_all add: psys_genesis_def)
  ultimately obtain data w s' where
    "mock_provide_inherent_data wide_backend example_sproof toy_hasher example_provider = Some data"
    "set_validation_data wide_psys (NoneOrigin :: nat origin) data ?s = Some (Inr (w, s'))"
    using mock_inherent_accepted [OF wide_psys_ok, of ?storage id parachain_system_name_default Some ?s "\<lambda>_. None" example_provider,
        where 'acc = nat]
    by (auto simp: storage_has_def relay_number_strictly_increases_def)
  with mock_provide_fields [OF this(1)] msgs show ?thesis by metis
qed
end
