(* ===== verification/Relay_Interface.thy ===== *)
theory Relay_Interface
  imports Inherent_Data
begin

text \<open>
  The two ways a parachain node talks to the relay chain: a relay chain node in the same process,
  \<^verbatim>\<open>src/client/relay-chain-inprocess-interface/src/lib.rs\<close>, and one reached over RPC,
  \<^verbatim>\<open>src/client/relay-chain-rpc-interface/src\<close>.  Both implement
  \<^verbatim>\<open>src/client/relay-chain-interface/src/lib.rs\<close>.  The relay chain client, the web socket client with its retry
  policy and the channels between tasks are parameters; what a task selects is the list of its events.
\<close>

datatype ('h, 'e) relay_chain_error =
    ApiError 'e
  | WaitTimeout 'h
  | ImportListenerClosed 'h
  | WaitBlockchainError 'h 'e
  | BlockchainError 'e
  | StateMachineError 'e
  | RpcCallError string 'e
  | JsonRpcError 'e
  | WorkerCommunicationError string
  | DeserializationError 'e
  | ServiceError 'e
  | GenericError 'e

section \<open>Waiting for a block\<close>

datatype 'h wait_event = Timeout | Notified 'h | Closed

fun wait_loop :: "'h \<Rightarrow> 'h wait_event list \<Rightarrow> (('h, 'e) relay_chain_error, unit) result option" where
  "wait_loop hash [] = None"
| "wait_loop hash (Timeout # evts) = Some (Inl (WaitTimeout hash))"
| "wait_loop hash (Notified h # evts) = (if h = hash then Some (Inr ()) else wait_loop hash evts)"
| "wait_loop hash (Closed # evts) = Some (Inl (ImportListenerClosed hash))"

datatype block_check_status = InChain | UnknownBlock

text \<open>The status is read and the listener is made while the import of blocks is locked.\<close>

definition check_block_in_chain :: "('e, bool) result \<Rightarrow> (('h, 'e) relay_chain_error, block_check_status) result" where
  "check_block_in_chain status =
     rbind (map_err BlockchainError status) (\<lambda>in_chain. if in_chain then Inr InChain else Inr UnknownBlock)"

definition inprocess_wait_for_block :: "('e, bool) result \<Rightarrow> 'h wait_event list \<Rightarrow> 'h \<Rightarrow>
    (('h, 'e) relay_chain_error, unit) result option" where
  "inprocess_wait_for_block status listener hash =
     (case check_block_in_chain status of
        Inl e \<Rightarrow> Some (Inl e)
      | Inr InChain \<Rightarrow> Some (Inr ())
      | Inr UnknownBlock \<Rightarrow> wait_loop hash listener)"

definition rpc_wait_for_block :: "(('h, 'e) relay_chain_error, unit) result \<Rightarrow> (('h, 'e) relay_chain_error, 'hd option) result \<Rightarrow>
    'h wait_event list \<Rightarrow> 'h \<Rightarrow> (('h, 'e) relay_chain_error, unit) result option" where
  "rpc_wait_for_block get_imported_heads_stream chain_get_header head_stream wait_for_hash =
     (case get_imported_heads_stream of
        Inl e \<Rightarrow> Some (Inl e)
      | Inr _ \<Rightarrow>
          (case chain_get_header of
             Inl e \<Rightarrow> Some (Inl e)
           | Inr (Some _) \<Rightarrow> Some (Inr ())
           | Inr None \<Rightarrow> wait_loop wait_for_hash head_stream))"

text \<open>The notifications before waiting ends for another reason.\<close>

fun notified_before_end :: "'h wait_event list \<Rightarrow> 'h set" where
  "notified_before_end (Notified h # evts) = insert h (notified_before_end evts)"
| "notified_before_end evts = {}"

lemma wait_loop_Ok: "wait_loop hash evts = Some (Inr u) \<longleftrightarrow> hash \<in> notified_before_end evts"
  by (induction hash evts rule: wait_loop.induct) auto

lemma wait_loop_ends: "Timeout \<in> set evts \<Longrightarrow> \<exists>r. wait_loop hash evts = Some r"
  by (induction hash evts rule: wait_loop.induct) auto

lemma notified_before_end_append:
  "notified_before_end (map Notified hs @ evts) = set hs \<union> notified_before_end evts"
  by (induction hs) auto

text \<open>
  Neither interface misses a block.  Let \<open>chain\<close> be the blocks imported when waiting begins, \<open>during\<close> those
  imported while the remote node looks for the block, of which its answer knows the first \<open>n\<close>, and \<open>evts\<close> what happens until
  the timeout.  Waiting succeeds exactly if the block is among them, and it always ends.
\<close>

theorem wait_for_block_misses_nothing:
  fixes status :: "('e, bool) result" and stream :: "(('h, 'e) relay_chain_error, unit) result"
  assumes "Timeout \<in> set evts"
  shows "(inprocess_wait_for_block (Inr (hash \<in> chain) :: ('e, bool) result) evts hash = Some (Inr ()) \<longleftrightarrow> hash \<in> chain \<union> notified_before_end evts) \<and>
    (rpc_wait_for_block (Inr () :: (('h, 'e) relay_chain_error, unit) result) (Inr (if hash \<in> chain \<union> set (take n during) then Some h else None))
       (map Notified during @ evts) hash = Some (Inr ()) \<longleftrightarrow> hash \<in> chain \<union> set during \<union> notified_before_end evts) \<and>
    inprocess_wait_for_block status evts hash \<noteq> None \<and> rpc_wait_for_block stream header evts hash \<noteq> None"
  using in_set_takeD [of hash n during]
  by (auto intro: wait_loop_ends [OF assms] simp: inprocess_wait_for_block_def rpc_wait_for_block_def check_block_in_chain_def rbind_def map_err_def
      wait_loop_Ok notified_before_end_append split: sum.splits option.splits)


theorem wait_for_block_misses_nothing_witness:
  "Timeout \<in> set [Notified 5, Timeout, Notified (8 :: nat)] \<and>
   inprocess_wait_for_block (Inr (5 \<in> {1, 2 :: nat}) :: (unit, bool) result) [Notified 5, Timeout, Notified (8 :: nat)] 5 = Some (Inr ()) \<and>
   inprocess_wait_for_block (Inr (8 \<in> {1, 2 :: nat}) :: (unit, bool) result) [Notified 5, Timeout, Notified (8 :: nat)] 8 \<noteq> Some (Inr ())"
  using wait_for_block_misses_nothing [where 'e = unit and evts = "[Notified 5, Timeout, Notified (8 :: nat)]" and hash = 5 and chain = "{1, 2}", THEN conjunct1]
    wait_for_block_misses_nothing [where 'e = unit and evts = "[Notified 5, Timeout, Notified (8 :: nat)]" and hash = 8 and chain = "{1, 2}", THEN conjunct1]
  by simp

section \<open>The worker that distributes notifications\<close>

text \<open>What becomes of sending to a channel without waiting.\<close>

datatype try_send_outcome = Sent | Full | Disconnected




definition distribute :: "('hd \<Rightarrow> 'tx \<Rightarrow> try_send_outcome \<times> 'tx) \<Rightarrow> 'hd \<Rightarrow> 'tx list \<Rightarrow> 'tx list" where
  "distribute try_send header senders =
     concat (map (\<lambda>e. case try_send header e of (Disconnected, _) \<Rightarrow> [] | (Full, e') \<Rightarrow> [e'] | (Sent, e') \<Rightarrow> [e']) senders)"





text \<open>
  What is intended of one kind of notification: registrations and headers in their order, and for each listener the headers
  that come after its registration.
\<close>

datatype ('hd, 'tx) stream_op = Listen 'tx | Header 'hd

fun heads :: "('hd, 'tx) stream_op list \<Rightarrow> 'hd list" where
  "heads [] = []"
| "heads (Listen _ # ops) = heads ops"
| "heads (Header h # ops) = h # heads ops"

fun registrations :: "('hd, 'tx) stream_op list \<Rightarrow> ('tx \<times> 'hd list) list" where
  "registrations [] = []"
| "registrations (Listen tx # ops) = (tx, heads ops) # registrations ops"
| "registrations (Header _ # ops) = registrations ops"










text \<open>The listeners that a list of listeners has become after headers were distributed.\<close>

fun deliver :: "('hd \<Rightarrow> 'tx \<Rightarrow> try_send_outcome \<times> 'tx) \<Rightarrow> 'tx \<Rightarrow> 'hd list \<Rightarrow> 'tx list" where
  "deliver try_send tx [] = [tx]"
| "deliver try_send tx (h # hs) = (case try_send h tx of (Disconnected, _) \<Rightarrow> [] | (_, tx') \<Rightarrow> deliver try_send tx' hs)"

definition deliver_all :: "('hd \<Rightarrow> 'tx \<Rightarrow> try_send_outcome \<times> 'tx) \<Rightarrow> 'tx list \<Rightarrow> 'hd list \<Rightarrow> 'tx list" where
  "deliver_all try_send txs hs = concat (map (\<lambda>tx. deliver try_send tx hs) txs)"

definition served :: "('hd \<Rightarrow> 'tx \<Rightarrow> try_send_outcome \<times> 'tx) \<Rightarrow> ('hd, 'tx) stream_op list \<Rightarrow> 'tx list" where
  "served try_send ops = concat (map (\<lambda>(tx, hs). deliver try_send tx hs) (registrations ops))"

lemma served_simps [simp]:
  "served try_send [] = []"
  "served try_send (Listen tx # ops) = deliver_all try_send [tx] (heads ops) @ served try_send ops"
  "served try_send (Header h # ops) = served try_send ops"
  by (simp_all add: served_def deliver_all_def)

lemma deliver_all_Nil [simp]: "deliver_all try_send txs [] = txs"
  by (simp add: deliver_all_def)

lemma deliver_all_append [simp]:
  "deliver_all try_send (txs @ txs') hs = deliver_all try_send txs hs @ deliver_all try_send txs' hs"
  by (simp add: deliver_all_def)

lemma deliver_all_distribute [simp]: "deliver_all try_send (distribute try_send h txs) hs = deliver_all try_send txs (h # hs)"
  by (induction txs) (auto simp: distribute_def deliver_all_def split: prod.split try_send_outcome.split)











section \<open>Requests over RPC\<close>

text \<open>
  The attempts of a request as the web socket client makes them, each with whether the retry policy allows
  another one: errors of the transport are transient, all others are permanent.
\<close>

fun request_tracing :: "('e \<Rightarrow> bool) \<Rightarrow> string \<Rightarrow> (('e, 'a) result \<times> bool) list \<Rightarrow> (('h, 'e) relay_chain_error, 'a) result option" where
  "request_tracing is_transport meth [] = None"
| "request_tracing is_transport meth ((Inr a, _) # attempts) = Some (Inr a)"
| "request_tracing is_transport meth ((Inl err, again) # attempts) =
     (if is_transport err \<and> again then request_tracing is_transport meth attempts
      else Some (Inl (RpcCallError meth err)))"

text \<open>A request gives the first success, and an error only if it is not of the transport or the policy gave up.\<close>

lemma request_tracing_outcome:
  "request_tracing is_transport meth attempts = Some r \<Longrightarrow>
     \<exists>tried final again rest. attempts = tried @ (final, again) # rest \<and> r = map_err (RpcCallError meth) final \<and>
       (\<forall>(a, m) \<in> set tried. m \<and> (\<exists>e. a = Inl e \<and> is_transport e)) \<and> (\<forall>e. final = Inl e \<longrightarrow> \<not> (is_transport e \<and> again))"
proof (induction is_transport meth attempts rule: request_tracing.induct)
  case (2 is_transport meth a m attempts)
  then show ?case by (intro exI [of _ "[]"] exI [of _ "Inr a"]) (auto simp: map_err_def)
next
  case (3 is_transport meth err again attempts)
  show ?case
  proof (cases "is_transport err \<and> again")
    case True
    then obtain tried final again2 rest where "attempts = tried @ (final, again2) # rest" "r = map_err (RpcCallError meth) final"
      "\<forall>(a, m) \<in> set tried. m \<and> (\<exists>e. a = Inl e \<and> is_transport e)" "\<forall>e. final = Inl e \<longrightarrow> \<not> (is_transport e \<and> again2)"
      using 3 by auto
    then show ?thesis
      using True by (intro exI [of _ "(Inl err, again) # tried"] exI [of _ final] exI [of _ again2] exI [of _ rest]) auto
  next
    case False
    then show ?thesis
      using "3.prems" by (intro exI [of _ "[]"] exI [of _ "Inl err"] exI [of _ again] exI [of _ attempts]) (auto simp: map_err_def)
  qed
qed simp

text \<open>What the remote node answers, by method.\<close>

record ('h, 'hd, 'p, 'e) rpc_node =
  rpc_state_call :: "string \<Rightarrow> bytes \<Rightarrow> 'h \<Rightarrow> (('h, 'e) relay_chain_error, bytes) result"
  rpc_state_get_read_proof :: "bytes list \<Rightarrow> 'h option \<Rightarrow> (('h, 'e) relay_chain_error, 'p) result"
  rpc_state_get_storage :: "bytes \<Rightarrow> 'h option \<Rightarrow> (('h, 'e) relay_chain_error, bytes option) result"
  rpc_chain_get_head :: "(('h, 'e) relay_chain_error, 'h) result"
  rpc_chain_get_header :: "'h option \<Rightarrow> (('h, 'e) relay_chain_error, 'hd option) result"
  rpc_system_health_is_syncing :: "(('h, 'e) relay_chain_error, bool) result"

definition call_remote_runtime_function :: "('h, 'hd, 'p, 'e) rpc_node \<Rightarrow> (bytes \<Rightarrow> ('e, 'r) result) \<Rightarrow> string \<Rightarrow> 'h \<Rightarrow>
    bytes option \<Rightarrow> (('h, 'e) relay_chain_error, 'r) result" where
  "call_remote_runtime_function node decode method_name hash payload =
     (let payload_bytes = (case payload of None \<Rightarrow> [] | Some v \<Rightarrow> v) in
      rbind (rpc_state_call node method_name payload_bytes hash) (\<lambda>res.
      map_err DeserializationError (decode res)))"

definition parachain_host_dmq_contents where
  "parachain_host_dmq_contents node encode_id decode para_id at =
     call_remote_runtime_function node decode ''ParachainHost_dmq_contents'' at (Some (encode_id para_id))"

definition parachain_host_inbound_hrmp_channels_contents where
  "parachain_host_inbound_hrmp_channels_contents node encode_id decode para_id at =
     call_remote_runtime_function node decode ''ParachainHost_inbound_hrmp_channels_contents'' at (Some (encode_id para_id))"

definition parachain_host_persisted_validation_data where
  "parachain_host_persisted_validation_data node encode_pair decode at para_id assumption =
     call_remote_runtime_function node decode ''ParachainHost_persisted_validation_data'' at (Some (encode_pair (para_id, assumption)))"

definition parachain_host_candidate_pending_availability where
  "parachain_host_candidate_pending_availability node encode_id decode at para_id =
     call_remote_runtime_function node decode ''ParachainHost_candidate_pending_availability'' at (Some (encode_id para_id))"

definition parachain_host_session_index_for_child where
  "parachain_host_session_index_for_child node decode at =
     call_remote_runtime_function node decode ''ParachainHost_session_index_for_child'' at None"

definition parachain_host_validators where
  "parachain_host_validators node decode at =
     call_remote_runtime_function node decode ''ParachainHost_validators'' at None"

definition rpc_get_storage_by_key :: "('h, 'hd, 'p, 'e) rpc_node \<Rightarrow> 'h \<Rightarrow> bytes \<Rightarrow> (('h, 'e) relay_chain_error, bytes option) result" where
  "rpc_get_storage_by_key node relay_parent key = rpc_state_get_storage node key (Some relay_parent)"

definition rpc_prove_read :: "('h, 'hd, 'p, 'e) rpc_node \<Rightarrow> 'h \<Rightarrow> bytes list \<Rightarrow> (('h, 'e) relay_chain_error, 'p) result" where
  "rpc_prove_read node relay_parent keys = rpc_state_get_read_proof node keys (Some relay_parent)"

section \<open>The node in the same process\<close>

record ('h, 'hd, 'st, 'p, 'e) inprocess_node =
  ip_dmq_contents :: "'h \<Rightarrow> para_id \<Rightarrow> ('e, inbound_downward_message list) result"
  ip_inbound_hrmp_channels_contents :: "'h \<Rightarrow> para_id \<Rightarrow> ('e, (para_id \<times> inbound_hrmp_message list) list) result"
  ip_state_at :: "'h \<Rightarrow> ('e, 'st) result"
  ip_storage :: "'st \<Rightarrow> bytes \<Rightarrow> ('e, bytes option) result"
  ip_state_prove_read :: "'st \<Rightarrow> bytes list \<Rightarrow> ('e, 'p) result"

definition inprocess_retrieve_dmq_contents :: "('h, 'hd, 'st, 'p, 'e) inprocess_node \<Rightarrow> para_id \<Rightarrow> 'h \<Rightarrow>
    (('h, 'e) relay_chain_error, inbound_downward_message list) result" where
  "inprocess_retrieve_dmq_contents node para_id relay_parent = map_err ApiError (ip_dmq_contents node relay_parent para_id)"

definition inprocess_retrieve_all_inbound_hrmp_channel_contents :: "('h, 'hd, 'st, 'p, 'e) inprocess_node \<Rightarrow> para_id \<Rightarrow> 'h \<Rightarrow>
    (('h, 'e) relay_chain_error, (para_id \<times> inbound_hrmp_message list) list) result" where
  "inprocess_retrieve_all_inbound_hrmp_channel_contents node para_id relay_parent =
     map_err ApiError (ip_inbound_hrmp_channels_contents node relay_parent para_id)"

definition inprocess_get_storage_by_key :: "('h, 'hd, 'st, 'p, 'e) inprocess_node \<Rightarrow> 'h \<Rightarrow> bytes \<Rightarrow>
    (('h, 'e) relay_chain_error, bytes option) result" where
  "inprocess_get_storage_by_key node relay_parent key =
     rbind (map_err BlockchainError (ip_state_at node relay_parent)) (\<lambda>state. map_err GenericError (ip_storage node state key))"

definition inprocess_prove_read :: "('h, 'hd, 'st, 'p, 'e) inprocess_node \<Rightarrow> 'h \<Rightarrow> bytes list \<Rightarrow> (('h, 'e) relay_chain_error, 'p) result" where
  "inprocess_prove_read node relay_parent keys =
     rbind (map_err BlockchainError (ip_state_at node relay_parent)) (\<lambda>state_backend.
     map_err StateMachineError (ip_state_prove_read node state_backend keys))"

text \<open>Notification streams of the client, as lists of a header and whether it is a new best block.\<close>

definition inprocess_import_notification_stream :: "('hd \<times> bool) list \<Rightarrow> 'hd list" where
  "inprocess_import_notification_stream ns = map fst ns"

definition inprocess_new_best_notification_stream :: "('hd \<times> bool) list \<Rightarrow> 'hd list" where
  "inprocess_new_best_notification_stream ns = map fst (filter snd ns)"

end
