(* ===== verification/Wait_For_Aura.thy ===== *)
theory Wait_For_Aura
  imports Prelude
begin

text \<open>
  The consensus and the verifier of \<^verbatim>\<open>src/polkadot-parachain/src/service.rs\<close> that wait for the runtime to support aura:
  an instance of aura that is built when it is first used, beside one of the relay chain's consensus.  \<open>None\<close> is a panic.
\<close>

section \<open>Building on access\<close>

text \<open>A value that is built when it is first used, from the client \<open>'s\<close> as it then is.\<close>

datatype ('s, 'r) build_on_access = Uninitialized "('s \<Rightarrow> 'r option) option" | Initialized 'r

fun get_mut :: "'s \<Rightarrow> ('s, 'r) build_on_access \<Rightarrow> 'r option" where
  "get_mut s (Initialized r) = Some r"
| "get_mut s (Uninitialized f) = (case f of None \<Rightarrow> None | Some build \<Rightarrow> build s)"

section \<open>Consensus and verifier\<close>

text \<open>
  A consensus or a verifier \<open>'c\<close> that is run on an argument \<open>'a\<close> and may change; \<open>has_api\<close> is whether the runtime of
  the parent block has the interface of aura.
\<close>

record ('s, 'c) wait_for_aura =
  wa_aura :: "('s, 'c) build_on_access"
  wa_relay_chain :: 'c

text \<open>The instance of aura needs the slot duration, which is unwrapped.\<close>

definition build_aura :: "('s \<Rightarrow> ('e, nat) result) \<Rightarrow> (nat \<Rightarrow> 'c) \<Rightarrow> 's \<Rightarrow> 'c option" where
  "build_aura slot_duration build s = (case slot_duration s of Inl _ \<Rightarrow> None | Inr d \<Rightarrow> Some (build d))"

definition wait_for_aura_consensus :: "('s \<Rightarrow> ('e, nat) result) \<Rightarrow> (nat \<Rightarrow> 'c) \<Rightarrow> 'c \<Rightarrow> ('s, 'c) wait_for_aura" where
  "wait_for_aura_consensus slot_duration build_consensus relay_chain_consensus =
     \<lparr>wa_aura = Uninitialized (Some (build_aura slot_duration build_consensus)), wa_relay_chain = relay_chain_consensus\<rparr>"

definition wait_for_aura_verifier :: "('s \<Rightarrow> ('e, nat) result) \<Rightarrow> (nat \<Rightarrow> 'c) \<Rightarrow> 'c \<Rightarrow> ('s, 'c) wait_for_aura" where
  "wait_for_aura_verifier slot_duration build_verifier relay_chain_verifier =
     \<lparr>wa_aura = Uninitialized (Some (build_aura slot_duration build_verifier)), wa_relay_chain = relay_chain_verifier\<rparr>"

definition runtime_has_aura :: "('s \<Rightarrow> 'h \<Rightarrow> ('e, bool) result) \<Rightarrow> 's \<Rightarrow> 'h \<Rightarrow> bool" where
  "runtime_has_aura has_api s block_id = (case has_api s block_id of Inl _ \<Rightarrow> False | Inr b \<Rightarrow> b)"

definition wait_for_aura_produce_candidate :: "('c \<Rightarrow> 'a \<Rightarrow> 'r \<times> 'c) \<Rightarrow> ('s \<Rightarrow> 'h \<Rightarrow> ('e, bool) result) \<Rightarrow> ('a \<Rightarrow> 'h) \<Rightarrow> 's \<times> 'a \<Rightarrow>
    ('s, 'c) wait_for_aura \<Rightarrow> ('r \<times> ('s, 'c) wait_for_aura) option" where
  "wait_for_aura_produce_candidate produce has_api parent_hash = (\<lambda>(s, arg) w.
     if runtime_has_aura has_api s (parent_hash arg) then
       (case get_mut s (wa_aura w) of
          None \<Rightarrow> None
        | Some consensus \<Rightarrow> (case produce consensus arg of (r, consensus') \<Rightarrow> Some (r, w\<lparr>wa_aura := Initialized consensus'\<rparr>)))
     else
       (case produce (wa_relay_chain w) arg of (r, consensus') \<Rightarrow> Some (r, w\<lparr>wa_relay_chain := consensus'\<rparr>)))"

definition wait_for_aura_verify :: "('c \<Rightarrow> 'a \<Rightarrow> 'r \<times> 'c) \<Rightarrow> ('s \<Rightarrow> 'h \<Rightarrow> ('e, bool) result) \<Rightarrow> ('a \<Rightarrow> 'h) \<Rightarrow> 's \<times> 'a \<Rightarrow>
    ('s, 'c) wait_for_aura \<Rightarrow> ('r \<times> ('s, 'c) wait_for_aura) option" where
  "wait_for_aura_verify verify has_api parent_hash = (\<lambda>(s, block_import) w.
     if runtime_has_aura has_api s (parent_hash block_import) then
       (case get_mut s (wa_aura w) of
          None \<Rightarrow> None
        | Some verifier \<Rightarrow> (case verify verifier block_import of (r, verifier') \<Rightarrow> Some (r, w\<lparr>wa_aura := Initialized verifier'\<rparr>)))
     else
       (case verify (wa_relay_chain w) block_import of (r, verifier') \<Rightarrow> Some (r, w\<lparr>wa_relay_chain := verifier'\<rparr>)))"

text \<open>A sequence of blocks, each with the client as it is then.\<close>

fun wait_for_aura_run where
  "wait_for_aura_run step [] w = Some []"
| "wait_for_aura_run step (block # blocks) w =
     (case step block w of None \<Rightarrow> None | Some (r, w') \<Rightarrow> map_option (Cons r) (wait_for_aura_run step blocks w'))"

section \<open>Switching\<close>

text \<open>The two algorithms side by side, each seeing only its own blocks.\<close>

fun run_separately :: "('c \<Rightarrow> 'a \<Rightarrow> 'r \<times> 'c) \<Rightarrow> ('s \<times> 'a \<Rightarrow> bool) \<Rightarrow> ('s \<times> 'a) list \<Rightarrow> 'c \<Rightarrow> 'c \<Rightarrow> 'r list" where
  "run_separately run on_aura [] aura relay = []"
| "run_separately run on_aura (block # blocks) aura relay =
     (if on_aura block then (case run aura (snd block) of (r, aura') \<Rightarrow> r # run_separately run on_aura blocks aura' relay)
      else (case run relay (snd block) of (r, relay') \<Rightarrow> r # run_separately run on_aura blocks aura relay'))"

text \<open>With the instance of aura built in the client of the first block it is needed for; before that it does not matter.\<close>

definition run_waiting :: "('c \<Rightarrow> 'a \<Rightarrow> 'r \<times> 'c) \<Rightarrow> ('s \<times> 'a \<Rightarrow> bool) \<Rightarrow> ('s \<Rightarrow> ('e, nat) result) \<Rightarrow> (nat \<Rightarrow> 'c) \<Rightarrow> ('s \<times> 'a) list \<Rightarrow> 'c \<Rightarrow>
    'r list option" where
  "run_waiting run on_aura slot_duration build blocks relay =
     (case List.find on_aura blocks of
        None \<Rightarrow> Some (run_separately run on_aura blocks (build 0) relay)
      | Some (s, _) \<Rightarrow>
          (case slot_duration s of Inl _ \<Rightarrow> None | Inr d \<Rightarrow> Some (run_separately run on_aura blocks (build d) relay)))"

lemma wait_for_aura_same:
  "wait_for_aura_verify = wait_for_aura_produce_candidate" "wait_for_aura_verifier = wait_for_aura_consensus"
  by (intro ext; simp add: wait_for_aura_verify_def wait_for_aura_produce_candidate_def wait_for_aura_verifier_def wait_for_aura_consensus_def)+

lemma produce_candidate_pair:
  "wait_for_aura_produce_candidate run has_api parent_hash (s, arg) w =
     (if runtime_has_aura has_api s (parent_hash arg) then
        map_option (\<lambda>c. (fst (run c arg), w\<lparr>wa_aura := Initialized (snd (run c arg))\<rparr>)) (get_mut s (wa_aura w))
      else Some (fst (run (wa_relay_chain w) arg), w\<lparr>wa_relay_chain := snd (run (wa_relay_chain w) arg)\<rparr>))"
  by (simp add: wait_for_aura_produce_candidate_def split: option.split prod.split)

lemma initialized_runs:
  "wa_aura w = Initialized aura \<Longrightarrow>
     wait_for_aura_run (wait_for_aura_produce_candidate run has_api parent_hash) blocks w =
       Some (run_separately run (\<lambda>(s, arg). runtime_has_aura has_api s (parent_hash arg)) blocks aura (wa_relay_chain w))"
  by (induction blocks arbitrary: w aura) (auto simp: produce_candidate_pair split: prod.split)

lemma uninitialized_runs:
  "wa_aura w = Uninitialized (Some (build_aura slot_duration build)) \<Longrightarrow>
     wait_for_aura_run (wait_for_aura_produce_candidate run has_api parent_hash) blocks w =
       run_waiting run (\<lambda>(s, arg). runtime_has_aura has_api s (parent_hash arg)) slot_duration build blocks (wa_relay_chain w)"
proof (induction blocks arbitrary: w)
  case (Cons block blocks)
  obtain s arg where block: "block = (s, arg)" by fastforce
  show ?case
  proof (cases "runtime_has_aura has_api s (parent_hash arg)")
    case True
    then show ?thesis
      by (auto simp: block run_waiting_def produce_candidate_pair Cons.prems build_aura_def initialized_runs
          split: sum.split prod.split)
  next
    case False
    then show ?thesis
      by (auto simp: block run_waiting_def produce_candidate_pair Cons.prems Cons.IH split: sum.split prod.split option.split)
  qed
qed (simp add: run_waiting_def)

text \<open>C34. Waiting for aura never mixes the algorithms up: over any sequence of blocks, blocks whose parent has the interface of aura
  are produced and verified by the one aura instance, built for the first of them, and all others by the relay chain's, also when
  the runtime is changed back.  It panics exactly if the slot duration cannot be read when that instance is built.
\<close>

theorem wait_for_aura_switches:
  "wait_for_aura_run (wait_for_aura_produce_candidate produce has_api parent_hash) blocks
       (wait_for_aura_consensus slot_duration build relay) =
     run_waiting produce (\<lambda>(s, arg). runtime_has_aura has_api s (parent_hash arg)) slot_duration build blocks relay \<and>
   wait_for_aura_run (wait_for_aura_verify verify has_api parent_hash) blocks
       (wait_for_aura_verifier slot_duration build' relay') =
     run_waiting verify (\<lambda>(s, arg). runtime_has_aura has_api s (parent_hash arg)) slot_duration build' blocks relay'"
  unfolding wait_for_aura_same by (simp add: uninitialized_runs wait_for_aura_consensus_def)

end
