(* ===== verification/Chain_Specs.thy ===== *)
theory Chain_Specs
  imports Collator_Selection
begin

text \<open>
  The chain specifications that are made in code: \<^verbatim>\<open>src/polkadot-parachain/src/chain_spec\<close> and
  \<^verbatim>\<open>src/parachain-template/node/src/chain_spec.rs\<close>, with the genesis of each runtime.  Accounts and keys are their 32 bytes,
  read as a number.  Parameters are the derivation of keys from seeds, the account of a key, the code of the runtimes, the
  version of XCM and the existential deposits of the relay chains.
\<close>

section \<open>Keys and constants\<close>

type_synonym u256 = "256 word"

datatype crypto = Sr25519 | Ed25519

datatype runtime_crate =
    rococo_parachain_runtime | shell_runtime | seedling_runtime | statemint_runtime | statemine_runtime | westmint_runtime
  | penpal_runtime | contracts_rococo_runtime | collectives_polkadot_runtime | parachain_template_runtime

record spec_env =
  env_public :: "crypto \<Rightarrow> string \<Rightarrow> u256"
  env_into_account :: "u256 \<Rightarrow> u256"
  env_wasm_binary :: "runtime_crate \<Rightarrow> bytes option"
  env_xcm_version :: u32
  env_polkadot_ed :: balance
  env_kusama_ed :: balance
  env_westend_ed :: balance

definition get_from_seed :: "spec_env \<Rightarrow> crypto \<Rightarrow> string \<Rightarrow> u256" where
  "get_from_seed env c seed = env_public env c (''//'' @ seed)"

definition get_account_id_from_seed :: "spec_env \<Rightarrow> string \<Rightarrow> u256" where
  "get_account_id_from_seed env seed = env_into_account env (get_from_seed env Sr25519 seed)"

definition get_collator_keys_from_seed :: "spec_env \<Rightarrow> crypto \<Rightarrow> string \<Rightarrow> u256" where
  "get_collator_keys_from_seed env c seed = get_from_seed env c seed"

definition collator_from_seed :: "spec_env \<Rightarrow> crypto \<Rightarrow> string \<Rightarrow> u256 \<times> u256" where
  "collator_from_seed env c seed = (get_account_id_from_seed env seed, get_collator_keys_from_seed env c seed)"

text \<open>The accounts that development and local chains endow.\<close>

definition dev_seeds :: "string list" where
  "dev_seeds = [''Alice'', ''Bob'', ''Alice//stash'', ''Bob//stash'']"

definition local_seeds :: "string list" where
  "local_seeds = [''Alice'', ''Bob'', ''Charlie'', ''Dave'', ''Eve'', ''Ferdie'', ''Alice//stash'', ''Bob//stash'',
     ''Charlie//stash'', ''Dave//stash'', ''Eve//stash'', ''Ferdie//stash'']"

definition STATEMINT_ED :: "spec_env \<Rightarrow> balance" where
  "STATEMINT_ED env = env_polkadot_ed env div 10"

definition STATEMINE_ED :: "spec_env \<Rightarrow> balance" where
  "STATEMINE_ED env = env_kusama_ed env div 10"

definition WESTMINT_ED :: "spec_env \<Rightarrow> balance" where
  "WESTMINT_ED env = env_westend_ed env div 10"

definition COLLECTIVES_POLKADOT_ED :: "spec_env \<Rightarrow> balance" where
  "COLLECTIVES_POLKADOT_ED env = env_polkadot_ed env div 10"

definition CONTRACTS_ROCOCO_ED :: "spec_env \<Rightarrow> balance" where
  "CONTRACTS_ROCOCO_ED env = env_kusama_ed env div 10"

definition PENPAL_ED :: balance where
  "PENPAL_ED = 1000000000"

definition TEMPLATE_ED :: balance where
  "TEMPLATE_ED = 1000000000"

definition ROCOCO_PARACHAIN_ED :: balance where
  "ROCOCO_PARACHAIN_ED = 1000000000"

section \<open>Genesis\<close>

record collator_selection_genesis =
  csg_invulnerables :: "u256 list"
  csg_candidacy_bond :: balance
  csg_desired_candidates :: u32

definition csg_default :: collator_selection_genesis where
  "csg_default = \<lparr>csg_invulnerables = [], csg_candidacy_bond = 0, csg_desired_candidates = 0\<rparr>"

text \<open>The parts of a genesis; a runtime without a part has none of it.\<close>

record genesis_config =
  gc_code :: bytes
  gc_balances :: "(u256 \<times> balance) list"
  gc_parachain_id :: u32
  gc_collator_selection :: "collator_selection_genesis option"
  gc_session_keys :: "(u256 \<times> u256 \<times> u256) list"
  gc_aura_authorities :: "u256 list"
  gc_safe_xcm_version :: "u32 option"
  gc_sudo :: "u256 option"

text \<open>The genesis of a runtime with collator selection: endowed accounts get \<open>amount\<close>, and the collators are
  invulnerable, with session keys for aura.\<close>

definition collator_genesis :: "spec_env \<Rightarrow> runtime_crate \<Rightarrow> balance \<Rightarrow> balance \<Rightarrow> u256 option \<Rightarrow> (u256 \<times> u256) list \<Rightarrow> u256 list \<Rightarrow> u32 \<Rightarrow>
    genesis_config option" where
  "collator_genesis env crate amount ed sudo invulnerables endowed_accounts para_id =
     (case env_wasm_binary env crate of
        None \<Rightarrow> None
      | Some code \<Rightarrow> Some
          \<lparr>gc_code = code,
           gc_balances = map (\<lambda>k. (k, amount)) endowed_accounts,
           gc_parachain_id = para_id,
           gc_collator_selection = Some (csg_default\<lparr>
             csg_invulnerables := map (\<lambda>(acc, _). acc) invulnerables,
             csg_candidacy_bond := ed * 16\<rparr>),
           gc_session_keys = map (\<lambda>(acc, aura). (acc, acc, aura)) invulnerables,
           gc_aura_authorities = [],
           gc_safe_xcm_version = Some (env_xcm_version env),
           gc_sudo = sudo\<rparr>)"

definition statemint_genesis :: "spec_env \<Rightarrow> (u256 \<times> u256) list \<Rightarrow> u256 list \<Rightarrow> u32 \<Rightarrow> genesis_config option" where
  "statemint_genesis env = collator_genesis env statemint_runtime (STATEMINT_ED env * 4096) (STATEMINT_ED env) None"

definition statemine_genesis :: "spec_env \<Rightarrow> (u256 \<times> u256) list \<Rightarrow> u256 list \<Rightarrow> u32 \<Rightarrow> genesis_config option" where
  "statemine_genesis env = collator_genesis env statemine_runtime (STATEMINE_ED env * 524288) (STATEMINE_ED env) None"

definition westmint_genesis :: "spec_env \<Rightarrow> (u256 \<times> u256) list \<Rightarrow> u256 list \<Rightarrow> u32 \<Rightarrow> genesis_config option" where
  "westmint_genesis env = collator_genesis env westmint_runtime (WESTMINT_ED env * 4096) (WESTMINT_ED env) None"

definition collectives_polkadot_genesis :: "spec_env \<Rightarrow> (u256 \<times> u256) list \<Rightarrow> u256 list \<Rightarrow> u32 \<Rightarrow> genesis_config option" where
  "collectives_polkadot_genesis env = collator_genesis env collectives_polkadot_runtime (COLLECTIVES_POLKADOT_ED env * 4096) (COLLECTIVES_POLKADOT_ED env) None"

definition contracts_rococo_genesis :: "spec_env \<Rightarrow> (u256 \<times> u256) list \<Rightarrow> u256 list \<Rightarrow> u32 \<Rightarrow> genesis_config option" where
  "contracts_rococo_genesis env = collator_genesis env contracts_rococo_runtime (push_bit 60 1) (CONTRACTS_ROCOCO_ED env) (Some 0x2681a28014e7d3a5bfb32a003b3571f53c408acbc28d351d6bf58f5028c4ef14)"

definition penpal_testnet_genesis :: "spec_env \<Rightarrow> (u256 \<times> u256) list \<Rightarrow> u256 list \<Rightarrow> u32 \<Rightarrow> genesis_config option" where
  "penpal_testnet_genesis env = collator_genesis env penpal_runtime (PENPAL_ED * 4096) PENPAL_ED (Some (get_account_id_from_seed env ''Alice''))"

definition template_testnet_genesis :: "spec_env \<Rightarrow> (u256 \<times> u256) list \<Rightarrow> u256 list \<Rightarrow> u32 \<Rightarrow> genesis_config option" where
  "template_testnet_genesis env = collator_genesis env parachain_template_runtime (push_bit 60 1) TEMPLATE_ED None"

definition rococo_testnet_genesis :: "spec_env \<Rightarrow> u256 \<Rightarrow> u256 list \<Rightarrow> u256 list \<Rightarrow> u32 \<Rightarrow> genesis_config option" where
  "rococo_testnet_genesis env root_key initial_authorities endowed_accounts para_id =
     (case env_wasm_binary env rococo_parachain_runtime of
        None \<Rightarrow> None
      | Some code \<Rightarrow> Some
          \<lparr>gc_code = code,
           gc_balances = map (\<lambda>k. (k, push_bit 60 1)) endowed_accounts,
           gc_parachain_id = para_id,
           gc_collator_selection = None,
           gc_session_keys = [],
           gc_aura_authorities = initial_authorities,
           gc_safe_xcm_version = Some (env_xcm_version env),
           gc_sudo = Some root_key\<rparr>)"

definition seedling_testnet_genesis :: "spec_env \<Rightarrow> u256 \<Rightarrow> u32 \<Rightarrow> genesis_config option" where
  "seedling_testnet_genesis env root_key parachain_id =
     (case env_wasm_binary env seedling_runtime of
        None \<Rightarrow> None
      | Some code \<Rightarrow> Some
          \<lparr>gc_code = code, gc_balances = [], gc_parachain_id = parachain_id, gc_collator_selection = None, gc_session_keys = [],
           gc_aura_authorities = [], gc_safe_xcm_version = None, gc_sudo = Some root_key\<rparr>)"

definition shell_testnet_genesis :: "spec_env \<Rightarrow> u32 \<Rightarrow> genesis_config option" where
  "shell_testnet_genesis env parachain_id =
     (case env_wasm_binary env shell_runtime of
        None \<Rightarrow> None
      | Some code \<Rightarrow> Some
          \<lparr>gc_code = code, gc_balances = [], gc_parachain_id = parachain_id, gc_collator_selection = None, gc_session_keys = [],
           gc_aura_authorities = [], gc_safe_xcm_version = None, gc_sudo = None\<rparr>)"

section \<open>Specifications\<close>

datatype chain_type = Development | Local | Live

datatype property_value = Number nat | Text string

text \<open>The genesis is made when it is needed, which may panic; a specification from a file has its storage instead.\<close>

datatype genesis_source = FromGenesis "genesis_config option" | RawStorage

record chain_spec =
  spec_crate :: runtime_crate
  spec_name :: string
  spec_id :: string
  spec_chain_type :: chain_type
  spec_genesis :: genesis_source
  spec_boot_nodes :: "string list"
  spec_protocol_id :: "string option"
  spec_properties :: "(string \<times> property_value) list option"
  ext_relay_chain :: string
  ext_para_id :: u32

definition from_genesis :: "runtime_crate \<Rightarrow> string \<Rightarrow> string \<Rightarrow> chain_type \<Rightarrow> genesis_config option \<Rightarrow> string list \<Rightarrow> string option \<Rightarrow>
    (string \<times> property_value) list option \<Rightarrow> string \<times> u32 \<Rightarrow> chain_spec" where
  "from_genesis crate name chain_id chain_type genesis boot_nodes protocol_id properties extensions =
     \<lparr>spec_crate = crate, spec_name = name, spec_id = chain_id, spec_chain_type = chain_type, spec_genesis = FromGenesis genesis,
      spec_boot_nodes = boot_nodes, spec_protocol_id = protocol_id, spec_properties = properties,
      ext_relay_chain = fst extensions, ext_para_id = snd extensions\<rparr>"

definition token_properties :: "nat option \<Rightarrow> string \<Rightarrow> nat \<Rightarrow> (string \<times> property_value) list" where
  "token_properties ss58_format symbol decimals =
     (case ss58_format of None \<Rightarrow> [] | Some n \<Rightarrow> [(''ss58Format'', Number n)]) @
     [(''tokenSymbol'', Text symbol), (''tokenDecimals'', Number decimals)]"

definition rococo_parachain_local_config :: "spec_env \<Rightarrow> chain_spec" where
  "rococo_parachain_local_config env =
     from_genesis rococo_parachain_runtime ''Rococo Parachain Local'' ''local_testnet'' Local
       (rococo_testnet_genesis env (get_account_id_from_seed env ''Alice'')
          (map (get_from_seed env Sr25519) [''Alice'', ''Bob'']) (map (get_account_id_from_seed env) local_seeds) 1000)
       [] None None (''rococo-local'', 1000)"

definition staging_rococo_parachain_local_config :: "spec_env \<Rightarrow> chain_spec" where
  "staging_rococo_parachain_local_config env =
     from_genesis rococo_parachain_runtime ''Staging Rococo Parachain Local'' ''staging_testnet'' Live
       (rococo_testnet_genesis env 0x9ed7705e3c7da027ba0583a22a3212042f7e715d3c168ba14f1424e2bc111d00
          [0xaad9fa2249f87a210a0f93400b7f90e47b810c6d65caa0ca3f5af982904c2a33,
           0xd47753f0cca9dd8da00c70e82ec4fc5501a69c49a5952a643d18802837c88212]
          [0x9ed7705e3c7da027ba0583a22a3212042f7e715d3c168ba14f1424e2bc111d00] 1000)
       [] None None (''rococo-local'', 1000)"

definition get_shell_chain_spec :: "spec_env \<Rightarrow> chain_spec" where
  "get_shell_chain_spec env =
     from_genesis shell_runtime ''Shell Local Testnet'' ''shell_local_testnet'' Local
       (shell_testnet_genesis env 1000)
       [] None None (''westend'', 1000)"

definition get_seedling_chain_spec :: "spec_env \<Rightarrow> chain_spec" where
  "get_seedling_chain_spec env =
     from_genesis seedling_runtime ''Seedling Local Testnet'' ''seedling_local_testnet'' Local
       (seedling_testnet_genesis env (get_account_id_from_seed env ''Alice'') 2000)
       [] None None (''westend'', 2000)"

definition statemint_development_config :: "spec_env \<Rightarrow> chain_spec" where
  "statemint_development_config env =
     from_genesis statemint_runtime ''Statemint Development'' ''statemint_dev'' Local
       (statemint_genesis env (map (collator_from_seed env Ed25519) [''Alice'']) (map (get_account_id_from_seed env) dev_seeds) 1000)
       [] None (Some (token_properties (Some 0) ''DOT'' 10)) (''polkadot-dev'', 1000)"

definition statemint_local_config :: "spec_env \<Rightarrow> chain_spec" where
  "statemint_local_config env =
     from_genesis statemint_runtime ''Statemint Local'' ''statemint_local'' Local
       (statemint_genesis env (map (collator_from_seed env Ed25519) [''Alice'', ''Bob'']) (map (get_account_id_from_seed env) local_seeds) 1000)
       [] None (Some (token_properties (Some 0) ''DOT'' 10)) (''polkadot-local'', 1000)"

definition statemint_config :: "spec_env \<Rightarrow> chain_spec" where
  "statemint_config env =
     from_genesis statemint_runtime ''Statemint'' ''statemint'' Live
       (statemint_genesis env
         [(0x4c3d674d2a01060f0ded218e5dcc6f90c1726f43df79885eb3e22d97a20d5421, 0x4c3d674d2a01060f0ded218e5dcc6f90c1726f43df79885eb3e22d97a20d5421),
          (0xc7d7d38d16bc23c6321152c50306212dc22c0efc04a2e52b5cccfc31ab3d7811, 0xc7d7d38d16bc23c6321152c50306212dc22c0efc04a2e52b5cccfc31ab3d7811),
          (0xc5c07ba203d7375675f5c1ebe70f0a5bb729ae57b48bcc877fcc2ab21309b762, 0xc5c07ba203d7375675f5c1ebe70f0a5bb729ae57b48bcc877fcc2ab21309b762),
          (0x0b2d0013fb974794bd7aa452465b567d48ef70373fe231a637c1fb7c547e85b3, 0x0b2d0013fb974794bd7aa452465b567d48ef70373fe231a637c1fb7c547e85b3)]
         [] 1000)
       [''/ip4/34.65.251.121/tcp/30334/p2p/12D3KooWG3GrM6XKMM4gp3cvemdwUvu96ziYoJmqmetLZBXE8bSa'',
       ''/ip4/34.65.35.228/tcp/30334/p2p/12D3KooWMRyTLrCEPcAQD6c4EnudL3vVzg9zji3whvsMYPUYevpq'',
       ''/ip4/34.83.247.146/tcp/30334/p2p/12D3KooWE4jFh5FpJDkWVZhnWtFnbSqRhdjvC7Dp9b8b3FTuubQC'',
       ''/ip4/104.199.117.230/tcp/30334/p2p/12D3KooWG9R8pVXKumVo2rdkeVD4j5PVhRTqmYgLHY3a4yPYgLqM''] None (Some (token_properties (Some 0) ''DOT'' 10)) (''polkadot'', 1000)"

definition statemine_development_config :: "spec_env \<Rightarrow> chain_spec" where
  "statemine_development_config env =
     from_genesis statemine_runtime ''Statemine Development'' ''statemine_dev'' Local
       (statemine_genesis env (map (collator_from_seed env Sr25519) [''Alice'']) (map (get_account_id_from_seed env) dev_seeds) 1000)
       [] None (Some (token_properties (Some 2) ''KSM'' 12)) (''kusama-dev'', 1000)"

definition statemine_local_config :: "spec_env \<Rightarrow> chain_spec" where
  "statemine_local_config env =
     from_genesis statemine_runtime ''Statemine Local'' ''statemine_local'' Local
       (statemine_genesis env (map (collator_from_seed env Sr25519) [''Alice'', ''Bob'']) (map (get_account_id_from_seed env) local_seeds) 1000)
       [] None (Some (token_properties (Some 2) ''KSM'' 12)) (''kusama-local'', 1000)"

definition statemine_config :: "spec_env \<Rightarrow> chain_spec" where
  "statemine_config env =
     from_genesis statemine_runtime ''Statemine'' ''statemine'' Live
       (statemine_genesis env
         [(0x50673d59020488a4ffc9d8c6de3062a65977046e6990915617f85fef6d349730, 0x50673d59020488a4ffc9d8c6de3062a65977046e6990915617f85fef6d349730),
          (0xfe8102dbc244e7ea2babd9f53236d67403b046154370da5c3ea99def0bd0747a, 0xfe8102dbc244e7ea2babd9f53236d67403b046154370da5c3ea99def0bd0747a),
          (0x38144b5398e5d0da5ec936a3af23f5a96e782f676ab19d45f29075ee92eca76a, 0x38144b5398e5d0da5ec936a3af23f5a96e782f676ab19d45f29075ee92eca76a),
          (0x3253947640e309120ae70fa458dcacb915e2ddd78f930f52bd3679ec63fc4415, 0x3253947640e309120ae70fa458dcacb915e2ddd78f930f52bd3679ec63fc4415)]
         [] 1000)
       [] None (Some (token_properties (Some 2) ''KSM'' 12)) (''kusama'', 1000)"

definition westmint_development_config :: "spec_env \<Rightarrow> chain_spec" where
  "westmint_development_config env =
     from_genesis westmint_runtime ''Westmint Development'' ''westmint_dev'' Local
       (westmint_genesis env (map (collator_from_seed env Sr25519) [''Alice'']) (map (get_account_id_from_seed env) dev_seeds) 1000)
       [] None (Some (token_properties None ''WND'' 12)) (''westend'', 1000)"

definition westmint_local_config :: "spec_env \<Rightarrow> chain_spec" where
  "westmint_local_config env =
     from_genesis westmint_runtime ''Westmint Local'' ''westmint_local'' Local
       (westmint_genesis env (map (collator_from_seed env Sr25519) [''Alice'', ''Bob'']) (map (get_account_id_from_seed env) local_seeds) 1000)
       [] None (Some (token_properties None ''WND'' 12)) (''westend-local'', 1000)"

definition westmint_config :: "spec_env \<Rightarrow> chain_spec" where
  "westmint_config env =
     from_genesis westmint_runtime ''Westmint'' ''westmint'' Live
       (westmint_genesis env
         [(0x9cfd429fa002114f33c1d3e211501d62830c9868228eb3b4b8ae15a83de04325, 0x9cfd429fa002114f33c1d3e211501d62830c9868228eb3b4b8ae15a83de04325),
          (0x12a03fb4e7bda6c9a07ec0a11d03c24746943e054ff0bb04938970104c783876, 0x12a03fb4e7bda6c9a07ec0a11d03c24746943e054ff0bb04938970104c783876),
          (0x1256436307dfde969324e95b8c62cb9101f520a39435e6af0f7ac07b34e1931f, 0x1256436307dfde969324e95b8c62cb9101f520a39435e6af0f7ac07b34e1931f),
          (0x98102b7bca3f070f9aa19f58feed2c0a4e107d203396028ec17a47e1ed80e322, 0x98102b7bca3f070f9aa19f58feed2c0a4e107d203396028ec17a47e1ed80e322)]
         [] 1000)
       [] None (Some (token_properties None ''WND'' 12)) (''westend'', 1000)"

definition collectives_polkadot_development_config :: "spec_env \<Rightarrow> chain_spec" where
  "collectives_polkadot_development_config env =
     from_genesis collectives_polkadot_runtime ''Polkadot Collectives Development'' ''collectives_polkadot_dev'' Local
       (collectives_polkadot_genesis env (map (collator_from_seed env Sr25519) [''Alice'']) (map (get_account_id_from_seed env) dev_seeds) 1002)
       [] None (Some (token_properties (Some 0) ''DOT'' 10)) (''polkadot-dev'', 1002)"

definition collectives_polkadot_local_config :: "spec_env \<Rightarrow> chain_spec" where
  "collectives_polkadot_local_config env =
     from_genesis collectives_polkadot_runtime ''Polkadot Collectives Local'' ''collectives_polkadot_local'' Local
       (collectives_polkadot_genesis env (map (collator_from_seed env Sr25519) [''Alice'', ''Bob'']) (map (get_account_id_from_seed env) local_seeds) 1002)
       [] None (Some (token_properties (Some 0) ''DOT'' 10)) (''polkadot-local'', 1002)"

definition CONTRACTS_PARACHAIN_ID :: u32 where
  "CONTRACTS_PARACHAIN_ID = 1002"

text \<open>The properties of the development chain are made and not used.\<close>

definition contracts_rococo_development_config :: "spec_env \<Rightarrow> chain_spec" where
  "contracts_rococo_development_config env =
     from_genesis contracts_rococo_runtime ''Contracts on Rococo Development'' ''contracts-rococo-dev'' Development
       (contracts_rococo_genesis env (map (collator_from_seed env Sr25519) [''Alice'', ''Bob'']) (map (get_account_id_from_seed env) local_seeds) CONTRACTS_PARACHAIN_ID)
       [] None None (''rococo-local'', CONTRACTS_PARACHAIN_ID)"

definition contracts_rococo_local_config :: "spec_env \<Rightarrow> chain_spec" where
  "contracts_rococo_local_config env =
     from_genesis contracts_rococo_runtime ''Contracts on Rococo'' ''contracts-rococo-local'' Local
       (contracts_rococo_genesis env (map (collator_from_seed env Sr25519) [''Alice'', ''Bob'']) (map (get_account_id_from_seed env) local_seeds) CONTRACTS_PARACHAIN_ID)
       [] None (Some (token_properties None ''ROC'' 12)) (''rococo-local'', CONTRACTS_PARACHAIN_ID)"

definition contracts_rococo_config :: "spec_env \<Rightarrow> chain_spec" where
  "contracts_rococo_config env =
     from_genesis contracts_rococo_runtime ''Contracts on Rococo'' ''contracts-rococo'' Live
       (contracts_rococo_genesis env
         [(0xbc09354c12c054c8f6b3da208485eacec4ac648bad348895273b37bab5a0937c, 0xbc09354c12c054c8f6b3da208485eacec4ac648bad348895273b37bab5a0937c),
          (0x66be63b7bcbfb91040e5248e2d1ceb822cf219c57848c5924ffa3a1f8e67ba72, 0x66be63b7bcbfb91040e5248e2d1ceb822cf219c57848c5924ffa3a1f8e67ba72),
          (0xba62886472a0a9f66b5e39f1469ce1c5b3d8cad6be39078daf16f111e89d1e44, 0xba62886472a0a9f66b5e39f1469ce1c5b3d8cad6be39078daf16f111e89d1e44),
          (0x8e97f65cda001976311df9bed39e8d0c956089093e94a75ef76fe9347a0eda7b, 0x8e97f65cda001976311df9bed39e8d0c956089093e94a75ef76fe9347a0eda7b)]
         [0xbaa78c7154c7f82d6d377177e20bcab65d327eca0086513f9964f5a0f6bdad56,
          0x0e47e2344d523c3cc5c34394b0d58b9a4200e813a038e6c5a6163cc07d70b069] CONTRACTS_PARACHAIN_ID)
       [''/dns/contracts-collator-0.parity-testnet.parity.io/tcp/30333/p2p/12D3KooWKg3Rpxcr9oJ8n6khoxpGKWztCZydtUZk2cojHqnfLrpj'',
       ''/dns/contracts-collator-1.parity-testnet.parity.io/tcp/30333/p2p/12D3KooWPEXYrz8tHU3nDtPoPw4V7ou5dzMEWSTuUj7vaWiYVAVh'',
       ''/dns/contracts-collator-2.parity-testnet.parity.io/tcp/30333/p2p/12D3KooWEVU8AFNary4nP4qEnEcwJaRuy59Wefekzdu9pKbnVEhk'',
       ''/dns/contracts-collator-3.parity-testnet.parity.io/tcp/30333/p2p/12D3KooWP6pV3ZmcXzGDjv8ZMgA6nZxfAKDxSz4VNiLx6vVCQgJX''] None (Some (token_properties None ''ROC'' 12)) (''rococo'', CONTRACTS_PARACHAIN_ID)"

text \<open>Replacing of every occurrence of a non-empty pattern, from the left.\<close>

definition starts_with :: "string \<Rightarrow> string \<Rightarrow> bool" where
  "starts_with pre s \<longleftrightarrow> take (length pre) s = pre"

fun replace_str :: "string \<Rightarrow> string \<Rightarrow> string \<Rightarrow> string" where
  "replace_str pat rep [] = []"
| "replace_str pat rep (c # cs) =
     (if starts_with pat (c # cs) then rep @ replace_str pat rep (drop (length pat - 1) cs)
      else c # replace_str pat rep cs)"

text \<open>Here, too, properties are made and not used.\<close>

definition get_penpal_chain_spec :: "spec_env \<Rightarrow> u32 \<Rightarrow> string \<Rightarrow> chain_spec" where
  "get_penpal_chain_spec env para_id relay_chain =
     from_genesis penpal_runtime ''Penpal Parachain'' (''penpal-'' @ replace_str ''-local'' [] relay_chain) Development
       (penpal_testnet_genesis env (map (collator_from_seed env Sr25519) [''Alice'', ''Bob'']) (map (get_account_id_from_seed env) local_seeds) para_id)
       [] None None (relay_chain, para_id)"

text \<open>The chains of the template; the properties of the first are made and not used.\<close>

definition template_development_config :: "spec_env \<Rightarrow> chain_spec" where
  "template_development_config env =
     from_genesis parachain_template_runtime ''Development'' ''dev'' Development
       (template_testnet_genesis env (map (collator_from_seed env Sr25519) [''Alice'', ''Bob'']) (map (get_account_id_from_seed env) local_seeds) 1000)
       [] None None (''rococo-local'', 1000)"

definition template_local_testnet_config :: "spec_env \<Rightarrow> chain_spec" where
  "template_local_testnet_config env =
     from_genesis parachain_template_runtime ''Local Testnet'' ''local_testnet'' Local
       (template_testnet_genesis env (map (collator_from_seed env Sr25519) [''Alice'', ''Bob'']) (map (get_account_id_from_seed env) local_seeds) 1000)
       [] (Some ''template-local'') (Some (token_properties None ''UNIT'' 12 @ [(''ss58Format'', Number 42)])) (''rococo-local'', 1000)"

section \<open>Every genesis can be built\<close>

text \<open>The limits that the runtimes set for collator selection, and their existential deposits.\<close>

definition MaxCandidates :: u32 where
  "MaxCandidates = 1000"

definition MaxInvulnerables :: u32 where
  "MaxInvulnerables = 100"

fun existential_deposit :: "spec_env \<Rightarrow> runtime_crate \<Rightarrow> balance" where
  "existential_deposit env statemint_runtime = STATEMINT_ED env"
| "existential_deposit env statemine_runtime = STATEMINE_ED env"
| "existential_deposit env westmint_runtime = WESTMINT_ED env"
| "existential_deposit env collectives_polkadot_runtime = COLLECTIVES_POLKADOT_ED env"
| "existential_deposit env contracts_rococo_runtime = CONTRACTS_ROCOCO_ED env"
| "existential_deposit env penpal_runtime = PENPAL_ED"
| "existential_deposit env parachain_template_runtime = TEMPLATE_ED"
| "existential_deposit env rococo_parachain_runtime = ROCOCO_PARACHAIN_ED"
| "existential_deposit env _ = 0"

text \<open>The runtimes were built, the well-known seeds give different accounts, and the deposits of the relay chains are amounts
  that can be multiplied.\<close>

definition env_ok :: "spec_env \<Rightarrow> bool" where
  "env_ok env \<longleftrightarrow> (\<forall>crate. env_wasm_binary env crate \<noteq> None) \<and> distinct (map (get_account_id_from_seed env) local_seeds) \<and>
     env_polkadot_ed env \<le> push_bit 60 1 \<and> env_kusama_ed env \<le> push_bit 60 1 \<and> env_westend_ed env \<le> push_bit 60 1"

text \<open>
  What the pallets ask of a genesis: the balances pallet refuses an account twice and an amount below the deposit, collator
  selection has its own checks, every collator needs session keys, and the aura pallet refuses authorities besides those of the
  session.
\<close>

definition genesis_ok :: "(u256, 'v, 'w) cs_config \<Rightarrow> balance \<Rightarrow> u32 \<Rightarrow> genesis_config \<Rightarrow> bool" where
  "genesis_ok cfg ed para_id g \<longleftrightarrow>
     gc_parachain_id g = para_id \<and> distinct (map fst (gc_balances g)) \<and> list_all (\<lambda>(_, amount). ed \<le> amount) (gc_balances g) \<and>
     (case gc_collator_selection g of
        None \<Rightarrow> gc_session_keys g = []
      | Some c \<Rightarrow>
          (\<forall>w. cs_genesis_build cfg (csg_invulnerables c) (csg_candidacy_bond c) (csg_desired_candidates c) w \<noteq> None) \<and>
          map fst (gc_session_keys g) = csg_invulnerables c \<and> list_all (\<lambda>(acc, validator, _). validator = acc) (gc_session_keys g) \<and>
          csg_invulnerables c \<noteq> [] \<and> gc_aura_authorities g = [])"

definition spec_builds :: "(u256, 'v, 'w) cs_config \<Rightarrow> spec_env \<Rightarrow> chain_spec \<Rightarrow> bool" where
  "spec_builds cfg env spec \<longleftrightarrow>
     (case spec_genesis spec of
        FromGenesis (Some g) \<Rightarrow> genesis_ok cfg (existential_deposit env (spec_crate spec)) (ext_para_id spec) g
      | _ \<Rightarrow> False)"

lemma multiple_ge:
  fixes x c :: balance
  assumes "x \<le> push_bit 60 1" "unat c \<le> 2 ^ 60" "c \<noteq> 0"
  shows "x div 10 \<le> x div 10 * c"
proof -
  have "unat x \<le> unat (push_bit 60 1 :: balance)" using assms(1) by (simp add: word_le_nat_alt)
  also have "unat (push_bit 60 1 :: balance) = 2 ^ 60" by simp
  finally have "unat x \<le> 2 ^ 60" .
  then have "unat x div 10 \<le> 2 ^ 60" by linarith
  then have "unat x div 10 * unat c \<le> 2 ^ 60 * 2 ^ 60" using assms(2) by (rule mult_le_mono)
  then have lt: "unat x div 10 * unat c < 2 ^ LENGTH(128)" by simp
  have "0 < unat c" using assms(3) by (simp only: unat_eq_zero neq0_conv [symmetric] not_False_eq_True)
  then have "unat x div 10 \<le> unat x div 10 * unat c" by simp
  then show ?thesis using lt by (simp add: word_le_nat_alt unat_div unat_word_ariths(2))
qed

lemma collator_genesis_builds:
  assumes "env_ok env" "cs_max_invulnerables cfg = MaxInvulnerables" "cs_max_candidates cfg = MaxCandidates"
    and "distinct (map fst invulnerables)" "invulnerables \<noteq> []" "length invulnerables \<le> 100" "distinct endowed" "deposit \<le> amount"
  shows "\<exists>g. collator_genesis env crate amount ed sudo invulnerables endowed para_id = Some g \<and> genesis_ok cfg deposit para_id g"
proof -
  obtain code where "env_wasm_binary env crate = Some code" using assms(1) by (auto simp: env_ok_def)
  moreover have "map (\<lambda>(acc, _). acc) invulnerables = map fst invulnerables" by (simp add: case_prod_beta')
  ultimately show ?thesis
    using assms
    by (auto simp: collator_genesis_def genesis_ok_def csg_default_def cs_genesis_build_def assert_that_def MaxInvulnerables_def
        MaxCandidates_def comp_def case_prod_beta' list_all_iff)
qed

definition code_specs :: "spec_env \<Rightarrow> u32 \<Rightarrow> string \<Rightarrow> chain_spec list" where
  "code_specs env para_id relay_chain =
     [rococo_parachain_local_config env, staging_rococo_parachain_local_config env, get_shell_chain_spec env,
      get_seedling_chain_spec env, statemint_development_config env, statemint_local_config env, statemint_config env,
      statemine_development_config env, statemine_local_config env, statemine_config env, westmint_development_config env,
      westmint_local_config env, westmint_config env, collectives_polkadot_development_config env,
      collectives_polkadot_local_config env, contracts_rococo_development_config env, contracts_rococo_local_config env,
      contracts_rococo_config env, get_penpal_chain_spec env para_id relay_chain, template_development_config env,
      template_local_testnet_config env]"

lemma seeds_distinct:
  assumes "env_ok env"
  shows "distinct (map (get_account_id_from_seed env) local_seeds)" "distinct (map (get_account_id_from_seed env) dev_seeds)"
    "distinct (map fst (map (collator_from_seed env c) [''Alice'', ''Bob'']))"
    "distinct (map fst (map (collator_from_seed env c) [''Alice'']))"
  using assms by (auto simp: env_ok_def local_seeds_def dev_seeds_def collator_from_seed_def)

lemma amounts_ge:
  assumes "env_ok env"
  shows "STATEMINT_ED env \<le> STATEMINT_ED env * 4096" "STATEMINE_ED env \<le> STATEMINE_ED env * 524288"
    "WESTMINT_ED env \<le> WESTMINT_ED env * 4096" "COLLECTIVES_POLKADOT_ED env \<le> COLLECTIVES_POLKADOT_ED env * 4096"
    "PENPAL_ED \<le> PENPAL_ED * 4096" "TEMPLATE_ED \<le> push_bit 60 1" "ROCOCO_PARACHAIN_ED \<le> push_bit 60 1"
  using assms
  by (simp_all add: env_ok_def STATEMINT_ED_def STATEMINE_ED_def WESTMINT_ED_def COLLECTIVES_POLKADOT_ED_def multiple_ge
      PENPAL_ED_def TEMPLATE_ED_def ROCOCO_PARACHAIN_ED_def)

lemma contracts_amount_ge: "env_ok env \<Longrightarrow> CONTRACTS_ROCOCO_ED env \<le> push_bit 60 1"
proof -
  assume "env_ok env"
  then have "env_kusama_ed env \<le> push_bit 60 1" by (simp add: env_ok_def)
  moreover have "CONTRACTS_ROCOCO_ED env \<le> env_kusama_ed env"
    by (simp add: CONTRACTS_ROCOCO_ED_def word_le_nat_alt unat_div)
  ultimately show ?thesis by (rule order_trans [rotated])
qed

lemma spec_builds_from:
  "spec_builds cfg env (from_genesis crate name chain_id typ genesis boot proto props (relay, para_id)) \<longleftrightarrow>
     (\<exists>g. genesis = Some g \<and> genesis_ok cfg (existential_deposit env crate) para_id g)"
  by (auto simp: spec_builds_def from_genesis_def split: option.split)

lemmas genesis_defs = statemint_genesis_def statemine_genesis_def westmint_genesis_def collectives_polkadot_genesis_def
  contracts_rococo_genesis_def penpal_testnet_genesis_def template_testnet_genesis_def

lemma seed_specs_build:
  assumes "env_ok env" "cs_max_invulnerables cfg = MaxInvulnerables" "cs_max_candidates cfg = MaxCandidates"
  shows "list_all (spec_builds cfg env)
    [statemint_development_config env, statemint_local_config env, statemine_development_config env, statemine_local_config env,
     westmint_development_config env, westmint_local_config env, collectives_polkadot_development_config env,
     collectives_polkadot_local_config env, contracts_rococo_development_config env, contracts_rococo_local_config env,
     get_penpal_chain_spec env para_id relay_chain, template_development_config env, template_local_testnet_config env]"
  unfolding statemint_development_config_def statemint_local_config_def statemine_development_config_def
    statemine_local_config_def westmint_development_config_def westmint_local_config_def
    collectives_polkadot_development_config_def collectives_polkadot_local_config_def contracts_rococo_development_config_def
    contracts_rococo_local_config_def get_penpal_chain_spec_def template_development_config_def
    template_local_testnet_config_def spec_builds_from genesis_defs existential_deposit.simps list.pred_inject
  by (intro conjI TrueI)
    ((rule collator_genesis_builds [OF assms],
      (rule seeds_distinct [OF assms(1)] amounts_ge [OF assms(1)] contracts_amount_ge [OF assms(1)] | (simp; fail))+)+)

lemma live_specs_build:
  assumes "env_ok env" "cs_max_invulnerables cfg = MaxInvulnerables" "cs_max_candidates cfg = MaxCandidates"
  shows "list_all (spec_builds cfg env) [statemint_config env, statemine_config env, westmint_config env, contracts_rococo_config env]"
  unfolding statemint_config_def statemine_config_def westmint_config_def contracts_rococo_config_def spec_builds_from
    genesis_defs existential_deposit.simps list.pred_inject
  by (intro conjI TrueI)
    ((rule collator_genesis_builds [OF assms],
      (rule amounts_ge [OF assms(1)] contracts_amount_ge [OF assms(1)] | (simp; fail))+)+)

lemma simple_specs_build:
  assumes "env_ok env"
  shows "list_all (spec_builds cfg env)
    [rococo_parachain_local_config env, staging_rococo_parachain_local_config env, get_shell_chain_spec env, get_seedling_chain_spec env]"
proof -
  obtain a b c where "env_wasm_binary env rococo_parachain_runtime = Some a" "env_wasm_binary env shell_runtime = Some b"
    "env_wasm_binary env seedling_runtime = Some c"
    using assms unfolding env_ok_def by (metis option.exhaust)
  then show ?thesis
    using seeds_distinct(1) [OF assms] amounts_ge(7) [OF assms]
    unfolding rococo_parachain_local_config_def staging_rococo_parachain_local_config_def get_shell_chain_spec_def
      get_seedling_chain_spec_def list.pred_inject spec_builds_from
    by (simp add: rococo_testnet_genesis_def shell_testnet_genesis_def seedling_testnet_genesis_def genesis_ok_def comp_def
        list_all_iff)
qed

text \<open>C38. Every chain specification made in code gives a genesis that can be built: the parachain id in it is the one of the
  extension, no account is endowed twice or with less than the existential deposit, collator selection accepts the
  invulnerables, of which there is at least one and each has session keys under its own account, and where the session
  provides the authorities none are given to aura.\<close>

theorem code_specs_build:
  assumes "env_ok env" "cs_max_invulnerables cfg = MaxInvulnerables" "cs_max_candidates cfg = MaxCandidates"
  shows "list_all (spec_builds cfg env) (code_specs env para_id relay_chain)"
  using seed_specs_build [OF assms, of para_id relay_chain] live_specs_build [OF assms] simple_specs_build [OF assms(1), of cfg]
  unfolding code_specs_def list.pred_inject by blast

text \<open>Keys that are the characters of their seed, and deposits as on the relay chains.\<close>

definition example_env :: spec_env where
  "example_env = \<lparr>env_public = (\<lambda>_ seed. foldl (\<lambda>n c. n * 256 + of_char c) 0 seed), env_into_account = (\<lambda>key. key),
     env_wasm_binary = (\<lambda>_. Some [0]), env_xcm_version = 2, env_polkadot_ed = 10000000000, env_kusama_ed = 333333333,
     env_westend_ed = 10000000000\<rparr>"

lemma example_env_ok: "env_ok example_env"
  by (simp add: env_ok_def example_env_def get_account_id_from_seed_def get_from_seed_def local_seeds_def)

definition example_limits :: "(u256, u256, unit) cs_config" where
  "example_limits = \<lparr>cs_reserve = (\<lambda>_ _ w. Inr w), cs_unreserve = (\<lambda>_ _ w. w), cs_transfer = (\<lambda>_ _ _ w. Inr w),
     cs_free_balance = (\<lambda>_ _. 0), cs_minimum_balance = 1, cs_update_origin = (\<lambda>_. True), cs_pot = 0,
     cs_max_candidates = MaxCandidates, cs_min_candidates = 5, cs_max_invulnerables = MaxInvulnerables, cs_kick_threshold = 10,
     cs_validator_id_of = (\<lambda>acc _. Some acc), cs_is_registered = (\<lambda>_ _. True), cs_weight_register = (\<lambda>_. 0),
     cs_weight_leave = (\<lambda>_. 0), cs_weight_note_author = 0, cs_weight_new_session = (\<lambda>_ _. 0)\<rparr>"

theorem code_specs_build_witness:
  "list_all (spec_builds example_limits example_env) (code_specs example_env 2004 ''kusama-local'')"
  using code_specs_build [OF example_env_ok, of example_limits 2004 "''kusama-local''"] by (simp add: example_limits_def)

text \<open>Three specifications drop the properties of their token; the one for the same chain in the local network has them.\<close>

lemma properties_dropped:
  "spec_properties (contracts_rococo_development_config env) = None"
  "spec_properties (contracts_rococo_local_config env) = Some (token_properties None ''ROC'' 12)"
  "spec_properties (template_development_config env) = None"
  "spec_properties (get_penpal_chain_spec env para_id relay_chain) = None"
  by (simp_all add: contracts_rococo_development_config_def contracts_rococo_local_config_def template_development_config_def
      get_penpal_chain_spec_def from_genesis_def)

end
