(* ===== verification/Node_Service.thy ===== *)
theory Node_Service
  imports Chain_Specs
begin

text \<open>
  The parts that nodes start: \<^verbatim>\<open>src/client/service/src/lib.rs\<close>, the arguments of
  \<^verbatim>\<open>src/client/cli/src/lib.rs\<close> that decide how, and the interface to the relay chain of
  \<^verbatim>\<open>src/polkadot-parachain/src/service.rs\<close>.  What Substrate and the relay chain build is a parameter that may fail;
  what is started is recorded in order.  \<open>None\<close> is a panic.
\<close>

section \<open>Arguments\<close>

text \<open>The base of the command has the flag \<^verbatim>\<open>--validator\<close> and one flag per development key.\<close>

record 'url run_cmd =
  run_validator :: bool
  run_dev_key :: bool
  run_collator :: bool
  run_relay_chain_rpc_url :: "'url option"
  run_relaychain_args :: "string list"

definition validate_relay_chain_url :: "(string \<Rightarrow> (string, 'url) result) \<Rightarrow> ('url \<Rightarrow> string) \<Rightarrow> string \<Rightarrow> (string, 'url) result" where
  "validate_relay_chain_url parse scheme arg =
     rbind (parse arg) (\<lambda>url.
     if scheme url = ''ws'' then Inr url
     else Inl ([CHR 0x27] @ scheme url @ [CHR 0x27] @ '' URL scheme not supported. Only websocket RPC is currently supported''))"

text \<open>The conflicts that the arguments declare.\<close>

definition arguments_accepted :: "'url run_cmd \<Rightarrow> bool" where
  "arguments_accepted cmd \<longleftrightarrow>
     \<not> (run_collator cmd \<and> run_validator cmd) \<and>
     \<not> (run_relay_chain_rpc_url cmd \<noteq> None \<and> run_dev_key cmd) \<and>
     \<not> (run_relaychain_args cmd \<noteq> [] \<and> run_relay_chain_rpc_url cmd \<noteq> None)"

definition normalize :: "'url run_cmd \<Rightarrow> 'url run_cmd" where
  "normalize cmd = cmd\<lparr>run_validator := run_validator cmd \<or> run_collator cmd\<rparr>"

section \<open>Errors and the task manager\<close>

text \<open>An error of Substrate itself, or a message.\<close>

datatype 'x service_error = Substrate 'x | Other string

text \<open>The errors of building an interface to the relay chain: an error of Substrate in the service of the relay chain node, or
  any other, which is only printed.\<close>

datatype 'x relay_build_error = ServiceErrorSub 'x | OtherRelayError string

fun relay_error_into :: "'x relay_build_error \<Rightarrow> 'x service_error" where
  "relay_error_into (ServiceErrorSub x) = Substrate x"
| "relay_error_into (OtherRelayError s) = Other s"

datatype recovery_delay = WithMax nat | WithMinAndMax nat nat

text \<open>What a node produces and verifies blocks with: aura with keys of some kind and a slot duration, the relay chain's
  consensus, or one after the other.\<close>

datatype consensus = AuraConsensus crypto nat | RelayChainConsensus | WaitForAuraConsensus crypto

datatype verifier = AuraVerifier crypto nat | RelayChainVerifier | AuraOrRelayChainVerifier crypto

text \<open>The function that builds the RPC server.\<close>

datatype rpc_builder = RpcExt | CreateFull | CreateContractsRococo | TemplateCreateFull

text \<open>What a start leaves behind, in order: the tasks of the task manager and the start of the network.\<close>

datatype ('o, 'k) node_task =
    TelemetryTask
  | TransactionPoolTask
  | ImportQueueTask verifier
  | RpcWorker
  | RelayChainNode
  | SubstrateTasks rpc_builder
  | TelemetryHwbench
  | ConsensusTask
  | PovRecoveryTask 'o recovery_delay
  | CollatorTask 'o 'k consensus
  | NetworkStart

type_synonym ('o, 'k, 'e, 'a) starting = "('o, 'k) node_task list \<Rightarrow> ('o, 'k) node_task list \<times> ('e, 'a) result option"

definition spawn :: "('o, 'k) node_task \<Rightarrow> ('o, 'k, 'e, unit) starting" where
  "spawn task = (\<lambda>tasks. (tasks @ [task], Some (Inr ())))"

definition from_result :: "('e, 'a) result \<Rightarrow> ('o, 'k, 'e, 'a) starting" where
  "from_result r = (\<lambda>tasks. (tasks, Some r))"

definition panics :: "('o, 'k, 'e, 'a) starting" where
  "panics = (\<lambda>tasks. (tasks, None))"

definition and_then :: "('o, 'k, 'e, 'a) starting \<Rightarrow> ('a \<Rightarrow> ('o, 'k, 'e, 'b) starting) \<Rightarrow> ('o, 'k, 'e, 'b) starting" where
  "and_then m f = (\<lambda>tasks. case m tasks of
      (tasks', None) \<Rightarrow> (tasks', None)
    | (tasks', Some (Inl e)) \<Rightarrow> (tasks', Some (Inl e))
    | (tasks', Some (Inr a)) \<Rightarrow> f a tasks')"

definition starting_map_err :: "('e \<Rightarrow> 'f) \<Rightarrow> ('o, 'k, 'e, 'a) starting \<Rightarrow> ('o, 'k, 'f, 'a) starting" where
  "starting_map_err g m = (\<lambda>tasks. case m tasks of (tasks', r) \<Rightarrow> (tasks', map_option (map_sum g id) r))"

lemmas starting_defs = spawn_def from_result_def panics_def and_then_def starting_map_err_def

lemma and_then_from_result:
  "and_then (from_result (Inl e)) f = from_result (Inl e)" "and_then (from_result (Inr a)) f = f a"
  by (simp_all add: and_then_def from_result_def)

section \<open>Collators and full nodes\<close>

datatype 'o relay_chain_interface = InProcess "'o option" | Rpc

text \<open>The handle of the overseer is not implemented over RPC.\<close>

fun overseer_handle :: "'o relay_chain_interface \<Rightarrow> ('o, 'k, 'e, 'o option) starting" where
  "overseer_handle (InProcess h) = from_result (Inr h)"
| "overseer_handle Rpc = panics"

definition handle_or_error :: "'o option \<Rightarrow> ('x service_error, 'o) result" where
  "handle_or_error h = (case h of
      None \<Rightarrow> Inl (Other ''Polkadot full node did not provide an `OverseerHandle`!'')
    | Some handle \<Rightarrow> Inr handle)"

definition start_collator :: "'o relay_chain_interface \<Rightarrow> nat \<Rightarrow> consensus \<Rightarrow> 'k \<Rightarrow> ('o, 'k, 'x service_error, unit) starting" where
  "start_collator relay_chain_interface slot_duration parachain_consensus collator_key =
     and_then (spawn ConsensusTask) (\<lambda>_.
     and_then (overseer_handle relay_chain_interface) (\<lambda>h.
     and_then (from_result (handle_or_error h)) (\<lambda>handle.
     and_then (spawn (PovRecoveryTask handle (WithMax slot_duration))) (\<lambda>_.
     spawn (CollatorTask handle collator_key parachain_consensus)))))"

definition start_full_node :: "'o relay_chain_interface \<Rightarrow> nat \<Rightarrow> 'url option \<Rightarrow> ('o, 'k, 'x service_error, unit) starting" where
  "start_full_node relay_chain_interface slot_duration relay_chain_rpc_url =
     and_then (spawn ConsensusTask) (\<lambda>_.
     if relay_chain_rpc_url \<noteq> None then from_result (Inr ())
     else
       and_then (overseer_handle relay_chain_interface) (\<lambda>h.
       and_then (from_result (handle_or_error h)) (\<lambda>handle.
       spawn (PovRecoveryTask handle (WithMinAndMax (slot_duration * 25) (slot_duration * 50))))))"

section \<open>The relay chain\<close>

text \<open>
  What is built elsewhere: telemetry for the endpoints of the configuration, the client, the slot duration in the client's
  runtime as read for the import queue and read again for the consensus, the import queue of aura, the connection to a remote relay chain node with its subscriptions, a relay chain node in
  the process, the network and the tasks of Substrate; and whether there is a hardware benchmark to report.
\<close>

record ('url, 'o, 'k, 'x) node_parts =
  np_telemetry_endpoints :: "string list option"
  np_telemetry_worker :: "('x service_error, unit) result"
  np_full_parts :: "('x service_error, unit) result"
  np_queue_slot_duration :: "('x service_error, nat) result"
  np_consensus_slot_duration :: "('x service_error, nat) result"
  np_aura_import_queue :: "('x service_error, unit) result"
  np_connect :: "'url \<Rightarrow> ('x relay_build_error, unit) result"
  np_build_full :: "('x relay_build_error, 'o option) result"
  np_generate_key :: 'k
  np_build_network :: "('x service_error, unit) result"
  np_spawn_tasks :: "('x service_error, unit) result"
  np_hwbench :: bool

definition create_client_and_start_worker :: "('url, 'o, 'k, 'x) node_parts \<Rightarrow> 'url \<Rightarrow> ('o, 'k, 'x relay_build_error, unit) starting" where
  "create_client_and_start_worker parts url = and_then (from_result (np_connect parts url)) (\<lambda>_. spawn RpcWorker)"

definition build_polkadot_full_node :: "('url, 'o, 'k, 'x) node_parts \<Rightarrow> bool \<Rightarrow> ('x relay_build_error, 'o option \<times> 'k option) result" where
  "build_polkadot_full_node parts is_authority =
     (let maybe_collator_key = (if is_authority then Some (np_generate_key parts) else None) in
      rbind (np_build_full parts) (\<lambda>handle. Inr (handle, maybe_collator_key)))"

definition build_inprocess_relay_chain :: "('url, 'o, 'k, 'x) node_parts \<Rightarrow> bool \<Rightarrow>
    ('o, 'k, 'x relay_build_error, 'o relay_chain_interface \<times> 'k option) starting" where
  "build_inprocess_relay_chain parts is_authority =
     and_then (from_result (build_polkadot_full_node parts is_authority)) (\<lambda>(handle, collator_key).
     and_then (spawn RelayChainNode) (\<lambda>_.
     from_result (Inr (InProcess handle, collator_key))))"

definition build_relay_chain_interface :: "('url, 'o, 'k, 'x) node_parts \<Rightarrow> bool \<Rightarrow> 'url option \<Rightarrow>
    ('o, 'k, 'x relay_build_error, 'o relay_chain_interface \<times> 'k option) starting" where
  "build_relay_chain_interface parts is_authority relay_chain_rpc_url =
     (case relay_chain_rpc_url of
        Some relay_chain_url \<Rightarrow>
          and_then (create_client_and_start_worker parts relay_chain_url) (\<lambda>_. from_result (Inr (Rpc, None)))
      | None \<Rightarrow> build_inprocess_relay_chain parts is_authority)"

end
