(* ===== verification/Node_Start.thy ===== *)
theory Node_Start
  imports Node_Service Consensus_Adapters
begin

text \<open>
  Starting a node (\<^verbatim>\<open>src/polkadot-parachain/src/service.rs\<close> and
  \<^verbatim>\<open>src/parachain-template/node/src/service.rs\<close>): its parts, the import queue and the consensus of each kind of node, and
  the command without a subcommand.
\<close>

section \<open>The parts of a node\<close>

type_synonym ('url, 'o, 'k, 'x) build_import_queue = "('url, 'o, 'k, 'x) node_parts \<Rightarrow> ('o, 'k, 'x service_error, unit) starting"
type_synonym ('url, 'o, 'k, 'x) build_consensus = "('url, 'o, 'k, 'x) node_parts \<Rightarrow> ('x service_error, consensus) result"
type_synonym ('url, 'o, 'k, 'x) start_node =
  "('url, 'o, 'k, 'x) node_parts \<Rightarrow> bool \<Rightarrow> 'url option \<Rightarrow> ('o, 'k, 'x service_error, unit) starting"

text \<open>The result is whether there is telemetry.\<close>

definition new_partial :: "('url, 'o, 'k, 'x) node_parts \<Rightarrow> ('url, 'o, 'k, 'x) build_import_queue \<Rightarrow>
    ('o, 'k, 'x service_error, bool) starting" where
  "new_partial parts build_import_queue =
     and_then (from_result (case np_telemetry_endpoints parts of
         None \<Rightarrow> Inr False
       | Some endpoints \<Rightarrow> if endpoints = [] then Inr False else rbind (np_telemetry_worker parts) (\<lambda>_. Inr True))) (\<lambda>telemetry.
     and_then (from_result (np_full_parts parts)) (\<lambda>_.
     and_then (if telemetry then spawn TelemetryTask else from_result (Inr ())) (\<lambda>_.
     and_then (spawn TransactionPoolTask) (\<lambda>_.
     and_then (build_import_queue parts) (\<lambda>_.
     from_result (Inr telemetry))))))"

text \<open>The text that the functions starting a node share; they differ in the RPC server.\<close>

definition start_with_rpc :: "rpc_builder \<Rightarrow> ('url, 'o, 'k, 'x) build_import_queue \<Rightarrow> ('url, 'o, 'k, 'x) build_consensus \<Rightarrow>
    ('url, 'o, 'k, 'x) start_node" where
  "start_with_rpc rpc build_import_queue build_consensus parts validator relay_chain_rpc_url =
     and_then (new_partial parts build_import_queue) (\<lambda>telemetry.
     and_then (starting_map_err relay_error_into (build_relay_chain_interface parts validator relay_chain_rpc_url))
       (\<lambda>(relay_chain_interface, collator_key).
     and_then (from_result (np_build_network parts)) (\<lambda>_.
     and_then (from_result (np_spawn_tasks parts)) (\<lambda>_.
     and_then (spawn (SubstrateTasks rpc)) (\<lambda>_.
     and_then (if np_hwbench parts \<and> telemetry then spawn TelemetryHwbench else from_result (Inr ())) (\<lambda>_.
     and_then
       (if validator then
          and_then (from_result (build_consensus parts)) (\<lambda>parachain_consensus.
          (case collator_key of
             None \<Rightarrow> panics
           | Some key \<Rightarrow> start_collator relay_chain_interface 6 parachain_consensus key))
        else start_full_node relay_chain_interface 6 relay_chain_rpc_url) (\<lambda>_.
     spawn NetworkStart)))))))"

definition start_shell_node_impl :: "('url, 'o, 'k, 'x) build_import_queue \<Rightarrow> ('url, 'o, 'k, 'x) build_consensus \<Rightarrow> ('url, 'o, 'k, 'x) start_node" where
  "start_shell_node_impl = start_with_rpc RpcExt"

definition start_node_impl :: "('url, 'o, 'k, 'x) build_import_queue \<Rightarrow> ('url, 'o, 'k, 'x) build_consensus \<Rightarrow> ('url, 'o, 'k, 'x) start_node" where
  "start_node_impl = start_with_rpc CreateFull"

definition start_contracts_rococo_node_impl :: "('url, 'o, 'k, 'x) build_import_queue \<Rightarrow> ('url, 'o, 'k, 'x) build_consensus \<Rightarrow> ('url, 'o, 'k, 'x) start_node" where
  "start_contracts_rococo_node_impl = start_with_rpc CreateContractsRococo"

definition template_start_node_impl :: "('url, 'o, 'k, 'x) build_import_queue \<Rightarrow> ('url, 'o, 'k, 'x) build_consensus \<Rightarrow> ('url, 'o, 'k, 'x) start_node" where
  "template_start_node_impl = start_with_rpc TemplateCreateFull"

lemmas start_impl_defs = start_shell_node_impl_def start_node_impl_def start_contracts_rococo_node_impl_def template_start_node_impl_def

section \<open>Kinds of nodes\<close>

definition rococo_parachain_build_import_queue :: "('url, 'o, 'k, 'x) build_import_queue" where
  "rococo_parachain_build_import_queue parts =
     and_then (from_result (np_queue_slot_duration parts)) (\<lambda>slot_duration.
     and_then (from_result (np_aura_import_queue parts)) (\<lambda>_.
     spawn (ImportQueueTask (AuraVerifier Sr25519 slot_duration))))"

definition rococo_parachain_consensus :: "('url, 'o, 'k, 'x) build_consensus" where
  "rococo_parachain_consensus parts = rbind (np_consensus_slot_duration parts) (\<lambda>slot_duration. Inr (AuraConsensus Sr25519 slot_duration))"

definition start_rococo_parachain_node :: "('url, 'o, 'k, 'x) start_node" where
  "start_rococo_parachain_node = start_node_impl rococo_parachain_build_import_queue rococo_parachain_consensus"

definition shell_build_import_queue :: "('url, 'o, 'k, 'x) build_import_queue" where
  "shell_build_import_queue parts = spawn (ImportQueueTask RelayChainVerifier)"

definition shell_consensus :: "('url, 'o, 'k, 'x) build_consensus" where
  "shell_consensus parts = Inr RelayChainConsensus"

definition start_shell_node :: "('url, 'o, 'k, 'x) start_node" where
  "start_shell_node = start_shell_node_impl shell_build_import_queue shell_consensus"

text \<open>Nothing of aura is built when a node that waits for it starts.\<close>

definition aura_build_import_queue :: "crypto \<Rightarrow> ('url, 'o, 'k, 'x) build_import_queue" where
  "aura_build_import_queue aura_id parts = spawn (ImportQueueTask (AuraOrRelayChainVerifier aura_id))"

definition generic_aura_consensus :: "crypto \<Rightarrow> ('url, 'o, 'k, 'x) build_consensus" where
  "generic_aura_consensus aura_id parts = Inr (WaitForAuraConsensus aura_id)"

definition start_generic_aura_node :: "crypto \<Rightarrow> ('url, 'o, 'k, 'x) start_node" where
  "start_generic_aura_node aura_id = start_node_impl (aura_build_import_queue aura_id) (generic_aura_consensus aura_id)"

definition contracts_rococo_build_import_queue :: "('url, 'o, 'k, 'x) build_import_queue" where
  "contracts_rococo_build_import_queue parts =
     and_then (from_result (np_queue_slot_duration parts)) (\<lambda>slot_duration.
     and_then (from_result (np_aura_import_queue parts)) (\<lambda>_.
     spawn (ImportQueueTask (AuraVerifier Sr25519 slot_duration))))"

definition contracts_rococo_consensus :: "('url, 'o, 'k, 'x) build_consensus" where
  "contracts_rococo_consensus parts = rbind (np_consensus_slot_duration parts) (\<lambda>slot_duration. Inr (AuraConsensus Sr25519 slot_duration))"

definition start_contracts_rococo_node :: "('url, 'o, 'k, 'x) start_node" where
  "start_contracts_rococo_node = start_contracts_rococo_node_impl contracts_rococo_build_import_queue contracts_rococo_consensus"

definition template_build_import_queue :: "('url, 'o, 'k, 'x) build_import_queue" where
  "template_build_import_queue parts =
     and_then (from_result (np_queue_slot_duration parts)) (\<lambda>slot_duration.
     and_then (from_result (np_aura_import_queue parts)) (\<lambda>_.
     spawn (ImportQueueTask (AuraVerifier Sr25519 slot_duration))))"

definition template_consensus :: "('url, 'o, 'k, 'x) build_consensus" where
  "template_consensus parts = rbind (np_consensus_slot_duration parts) (\<lambda>slot_duration. Inr (AuraConsensus Sr25519 slot_duration))"

definition start_parachain_node :: "('url, 'o, 'k, 'x) start_node" where
  "start_parachain_node = template_start_node_impl template_build_import_queue template_consensus"

section \<open>Inherent data of the collators\<close>

text \<open>
  The closures that the collators create their inherent data with: the time of the system, the slot it is in, and the inherent
  of the parachain, without which there is no data.
\<close>

definition aura_inherent_data_providers :: "'t \<Rightarrow> ('t \<Rightarrow> nat \<Rightarrow> 'slot) \<Rightarrow> nat \<Rightarrow> 'i option \<Rightarrow> (string, 't \<times> 'slot \<times> 'i) result" where
  "aura_inherent_data_providers timestamp from_timestamp_and_slot_duration slot_duration parachain_inherent =
     (let slot = from_timestamp_and_slot_duration timestamp slot_duration in
      rbind (ok_or parachain_inherent ''Failed to create parachain inherent'') (\<lambda>parachain_inherent.
      Inr (timestamp, slot, parachain_inherent)))"

definition relay_chain_inherent_data_providers :: "'i option \<Rightarrow> (string, 'i) result" where
  "relay_chain_inherent_data_providers parachain_inherent = ok_or parachain_inherent ''Failed to create parachain inherent''"

text \<open>Without an inherent a collator under the relay chain's consensus proposes nothing and imports nothing.\<close>

lemma no_inherent_no_candidate:
  assumes "is_create_providers (rc_inherents cfg) = (\<lambda>_ (relay_parent, vdata). relay_chain_inherent_data_providers (create_at relay_parent vdata))"
    and "create_at relay_parent vdata = None"
  shows "relay_chain_produce_candidate cfg parent relay_parent vdata s = (None, s)"
  using assms by (auto simp: relay_chain_produce_candidate_def relay_chain_inherent_data_def relay_chain_inherent_data_providers_def
      ok_or_def split: sum.split)

section \<open>The command\<close>

text \<open>
  The command without a subcommand.  \<open>role\<close> is how Substrate decides that a node is an authority; the parachain id, the
  genesis block and the configuration of the relay chain node come from the chain specification and the arguments, and
  \<open>start\<close> is the function for the runtime.
\<close>

definition run_node :: "('url, 'o, 'k, 'x) start_node \<Rightarrow> ('url, 'o, 'k, 'x) node_parts \<Rightarrow> ('url run_cmd \<Rightarrow> bool) \<Rightarrow> 'p option \<Rightarrow>
    (string, unit) result \<Rightarrow> (string, unit) result \<Rightarrow> 'url run_cmd \<Rightarrow> ('o, 'k, 'x service_error, unit) starting" where
  "run_node start parts role para_id genesis_block polkadot_config cmd =
     and_then (from_result (case para_id of
         None \<Rightarrow> Inl (Other ''Could not find parachain extension in chain-spec.'')
       | Some p \<Rightarrow> Inr p)) (\<lambda>_.
     and_then (from_result (map_sum Other id genesis_block)) (\<lambda>_.
     and_then (from_result (map_sum (\<lambda>err. Other (''Relay chain argument error: '' @ err)) id polkadot_config)) (\<lambda>_.
     start parts (role (normalize cmd)) (run_relay_chain_rpc_url cmd))))"

section \<open>How a node starts\<close>

text \<open>Everything that is built elsewhere is built, with the slot durations read for the import queue and for the collator.\<close>

definition parts_work :: "('url, 'o, 'k, 'x) node_parts \<Rightarrow> 'o \<Rightarrow> nat \<times> nat \<Rightarrow> bool" where
  "parts_work parts handle slot_durations \<longleftrightarrow>
     np_telemetry_worker parts = Inr () \<and> np_full_parts parts = Inr () \<and>
     np_queue_slot_duration parts = Inr (fst slot_durations) \<and> np_consensus_slot_duration parts = Inr (snd slot_durations) \<and>
     np_aura_import_queue parts = Inr () \<and> np_build_network parts = Inr () \<and> np_spawn_tasks parts = Inr () \<and>
     (\<forall>url. np_connect parts url = Inr ()) \<and> np_build_full parts = Inr (Some handle)"

definition has_telemetry :: "('url, 'o, 'k, 'x) node_parts \<Rightarrow> bool" where
  "has_telemetry parts \<longleftrightarrow> np_telemetry_endpoints parts \<noteq> None \<and> np_telemetry_endpoints parts \<noteq> Some []"

text \<open>The tasks that a node has before its role matters, and those of its role.\<close>

definition common_tasks :: "('url, 'o, 'k, 'x) node_parts \<Rightarrow> rpc_builder \<Rightarrow> verifier \<Rightarrow> 'url option \<Rightarrow> ('o, 'k) node_task list" where
  "common_tasks parts rpc v url =
     (if has_telemetry parts then [TelemetryTask] else []) @ [TransactionPoolTask, ImportQueueTask v] @
     [if url = None then RelayChainNode else RpcWorker, SubstrateTasks rpc] @
     (if np_hwbench parts \<and> has_telemetry parts then [TelemetryHwbench] else [])"

definition role_tasks :: "'k \<Rightarrow> 'o \<Rightarrow> consensus \<Rightarrow> bool \<Rightarrow> 'url option \<Rightarrow> ('o, 'k) node_task list" where
  "role_tasks key handle c validator url =
     (if validator then [ConsensusTask, PovRecoveryTask handle (WithMax 6), CollatorTask handle key c]
      else if url = None then [ConsensusTask, PovRecoveryTask handle (WithMinAndMax 150 300)]
      else [ConsensusTask]) @ [NetworkStart]"

lemma new_partial_eq:
  assumes "parts_work parts handle d" "build_import_queue parts = spawn (ImportQueueTask v)"
  shows "new_partial parts build_import_queue tasks =
    (tasks @ (if has_telemetry parts then [TelemetryTask] else []) @ [TransactionPoolTask, ImportQueueTask v], Some (Inr (has_telemetry parts)))"
  using assms
  by (auto simp: new_partial_def starting_defs parts_work_def has_telemetry_def split: option.split)

lemma start_with_rpc_eq:
  assumes "parts_work parts handle d" "build_import_queue parts = spawn (ImportQueueTask v)" "build_consensus parts = Inr c"
  shows "start_with_rpc rpc build_import_queue build_consensus parts validator url [] =
    (if validator \<and> url \<noteq> None then (common_tasks parts rpc v url, None)
     else (common_tasks parts rpc v url @ role_tasks (np_generate_key parts) handle c validator url, Some (Inr ())))"
  using assms(1,3) new_partial_eq [of parts handle d build_import_queue v "[]"] assms(2)
  by (cases url; cases validator; cases "np_hwbench parts"; cases "has_telemetry parts")
    (simp_all add: start_with_rpc_def build_relay_chain_interface_def build_inprocess_relay_chain_def
      build_polkadot_full_node_def create_client_and_start_worker_def rbind_def start_collator_def start_full_node_def
      handle_or_error_def parts_work_def common_tasks_def role_tasks_def starting_defs)

text \<open>The kinds of nodes, with the RPC server, verifier and consensus that each runs.\<close>

definition node_kinds :: "nat \<times> nat \<Rightarrow> (('url, 'o, 'k, 'x) start_node \<times> rpc_builder \<times> verifier \<times> consensus) list" where
  "node_kinds d =
     [(start_rococo_parachain_node, CreateFull, AuraVerifier Sr25519 (fst d), AuraConsensus Sr25519 (snd d)),
      (start_shell_node, RpcExt, RelayChainVerifier, RelayChainConsensus),
      (start_generic_aura_node Sr25519, CreateFull, AuraOrRelayChainVerifier Sr25519, WaitForAuraConsensus Sr25519),
      (start_generic_aura_node Ed25519, CreateFull, AuraOrRelayChainVerifier Ed25519, WaitForAuraConsensus Ed25519),
      (start_contracts_rococo_node, CreateContractsRococo, AuraVerifier Sr25519 (fst d), AuraConsensus Sr25519 (snd d)),
      (start_parachain_node, TemplateCreateFull, AuraVerifier Sr25519 (fst d), AuraConsensus Sr25519 (snd d))]"

lemmas start_kind_defs = start_rococo_parachain_node_def start_shell_node_def start_generic_aura_node_def
  start_contracts_rococo_node_def start_parachain_node_def start_impl_defs

lemmas queue_defs = rococo_parachain_build_import_queue_def shell_build_import_queue_def aura_build_import_queue_def
  contracts_rococo_build_import_queue_def template_build_import_queue_def

lemmas consensus_defs = rococo_parachain_consensus_def shell_consensus_def generic_aura_consensus_def contracts_rococo_consensus_def
  template_consensus_def

lemma node_kinds_eq:
  assumes "parts_work parts handle d" "(start, rpc, v, c) \<in> set (node_kinds d)"
  shows "start parts validator url [] =
    (if validator \<and> url \<noteq> None then (common_tasks parts rpc v url, None)
     else (common_tasks parts rpc v url @ role_tasks (np_generate_key parts) handle c validator url, Some (Inr ())))"
proof -
  obtain q b where "start = start_with_rpc rpc q b" "q parts = spawn (ImportQueueTask v)" "b parts = Inr c"
    using assms by (auto simp: node_kinds_def start_kind_defs queue_defs consensus_defs parts_work_def and_then_def from_result_def)
  then show ?thesis using start_with_rpc_eq [OF assms(1)] by blast
qed

definition example_parts :: "(string, nat, nat, unit) node_parts" where
  "example_parts = \<lparr>np_telemetry_endpoints = None, np_telemetry_worker = Inr (), np_full_parts = Inr (), np_queue_slot_duration = Inr 12000,
     np_consensus_slot_duration = Inr 12000,     np_aura_import_queue = Inr (), np_connect = (\<lambda>_. Inr ()), np_build_full = Inr (Some 1), np_generate_key = 2,
     np_build_network = Inr (), np_spawn_tasks = Inr (), np_hwbench = False\<rparr>"

lemma example_parts_work: "parts_work example_parts 1 (12000, 12000)"
  by (simp add: parts_work_def example_parts_def)

lemma shell_is_kind: "(start_shell_node, RpcExt, RelayChainVerifier, RelayChainConsensus) \<in> set (node_kinds d)"
  by (simp add: node_kinds_def)

text \<open>
  How a node of any kind starts when everything it is built from works: it panics exactly if it is an authority and its relay
  chain node is remote, and then neither consensus nor the network has started.  Otherwise a collator runs consensus, recovers
  blocks within a relay chain slot and collates; a full node recovers blocks after 25 to 50 slots, or not at all if its relay chain
  node is remote; and the network starts last.
\<close>

theorem start_node_outcome:
  assumes "parts_work parts handle d" "(start, rpc, v, c) \<in> set (node_kinds d)"
  shows "start parts validator url [] =
    (if validator \<and> url \<noteq> None then (common_tasks parts rpc v url, None)
     else (common_tasks parts rpc v url @ role_tasks (np_generate_key parts) handle c validator url, Some (Inr ()))) \<and>
    ConsensusTask \<notin> set (common_tasks parts rpc v url) \<and> NetworkStart \<notin> set (common_tasks parts rpc v url)"
  using node_kinds_eq [OF assms] by (simp add: common_tasks_def)

theorem start_node_outcome_witness:
  "start_shell_node example_parts True (Some ''ws://localhost'') [] =
     ([TransactionPoolTask, ImportQueueTask RelayChainVerifier, RpcWorker, SubstrateTasks RpcExt], None)"
  using start_node_outcome [OF example_parts_work shell_is_kind, of True "Some ''ws://localhost''"]
  by (simp add: example_parts_def common_tasks_def has_telemetry_def)

text \<open>C35. The arguments do allow a collator whose relay chain node is remote.  For every such URL there are accepted arguments with
  which a node of any kind panics where it expects the key of the collator, given that Substrate makes a validator an
  authority.
\<close>

theorem collator_over_rpc_panics:
  assumes "parts_work parts handle d" "(start, rpc, v, c) \<in> set (node_kinds d)" "\<And>cmd. run_validator cmd \<Longrightarrow> role cmd"
  shows "\<exists>cmd. arguments_accepted cmd \<and> run_collator cmd \<and> run_relay_chain_rpc_url cmd = Some url \<and>
    snd (run_node start parts role (Some para_id) (Inr ()) (Inr ()) cmd []) = None"
proof -
  let ?cmd = "\<lparr>run_validator = False, run_dev_key = False, run_collator = True, run_relay_chain_rpc_url = Some url,
    run_relaychain_args = []\<rparr>"
  have "role (normalize ?cmd)" by (rule assms(3)) (simp add: normalize_def)
  then have "snd (run_node start parts role (Some para_id) (Inr ()) (Inr ()) ?cmd []) = None"
    by (simp add: run_node_def node_kinds_eq [OF assms(1,2)] and_then_def from_result_def)
  then show ?thesis by (intro exI [of _ ?cmd]) (simp add: arguments_accepted_def)
qed

theorem collator_over_rpc_panics_witness:
  "\<exists>cmd. arguments_accepted cmd \<and> run_collator cmd \<and> run_relay_chain_rpc_url cmd = Some ''ws://localhost'' \<and>
     snd (run_node start_shell_node example_parts run_validator (Some (2000::nat)) (Inr ()) (Inr ()) cmd []) = None"
  using collator_over_rpc_panics [OF example_parts_work shell_is_kind, of run_validator "''ws://localhost''" "2000::nat"] by blast

section \<open>Production and verification\<close>

text \<open>The verifiers and the consensus in the tasks of a node, whether they follow the same consensus with the same keys, and the
  keys they need.\<close>

definition import_queues :: "('o, 'k) node_task list \<Rightarrow> verifier list" where
  "import_queues = List.map_filter (\<lambda>t. case t of ImportQueueTask v \<Rightarrow> Some v | _ \<Rightarrow> None)"

definition collators :: "('o, 'k) node_task list \<Rightarrow> consensus list" where
  "collators = List.map_filter (\<lambda>t. case t of CollatorTask _ _ c \<Rightarrow> Some c | _ \<Rightarrow> None)"

fun verifies :: "verifier \<Rightarrow> consensus \<Rightarrow> bool" where
  "verifies (AuraVerifier k _) (AuraConsensus k' _) = (k = k')"
| "verifies RelayChainVerifier RelayChainConsensus = True"
| "verifies (AuraOrRelayChainVerifier k) (WaitForAuraConsensus k') = (k = k')"
| "verifies _ _ = False"

fun verifier_key :: "verifier \<Rightarrow> crypto option" where
  "verifier_key (AuraVerifier k _) = Some k"
| "verifier_key RelayChainVerifier = None"
| "verifier_key (AuraOrRelayChainVerifier k) = Some k"

lemma started_tasks:
  assumes "start_with_rpc rpc q b parts validator url [] = (tasks, Some (Inr ()))"
    and "q parts = spawn (ImportQueueTask v)"
  shows "import_queues tasks = [v] \<and> (if validator then \<exists>c. b parts = Inr c \<and> collators tasks = [c] else collators tasks = [])"
  using assms
  by (auto simp: start_with_rpc_def new_partial_def build_relay_chain_interface_def build_inprocess_relay_chain_def
      build_polkadot_full_node_def create_client_and_start_worker_def start_collator_def start_full_node_def
      handle_or_error_def starting_defs import_queues_def collators_def map_filter_simps rbind_def
      split: option.splits sum.splits if_splits prod.splits)

end
