(* ===== verification/Node_Command.thy ===== *)
theory Node_Command
  imports Node_Start
begin

text \<open>
  The commands of the node: \<^verbatim>\<open>src/polkadot-parachain/src/command.rs\<close>, which finds the chain specification and the runtime
  for an identifier, and the same of the template node.  Files and their JSON are parameters; \<open>None\<close> is a panic.
\<close>

section \<open>Strings\<close>

lemma starts_with_append [simp]: "starts_with pre (pre @ s)"
  by (simp add: starts_with_def)

text \<open>Parsing of an unsigned number: an optional plus sign and at least one digit, without overflow.\<close>

definition digit_of :: "char \<Rightarrow> nat option" where
  "digit_of c = (let n = of_char c in if 48 \<le> n \<and> n \<le> 57 then Some (n - 48) else None)"

fun parse_digits :: "nat \<Rightarrow> string \<Rightarrow> nat option" where
  "parse_digits acc [] = Some acc"
| "parse_digits acc (c # cs) =
     (case digit_of c of
        None \<Rightarrow> None
      | Some d \<Rightarrow> if acc * 10 + d < 2 ^ 32 then parse_digits (acc * 10 + d) cs else None)"

definition parse_u32 :: "string \<Rightarrow> u32 option" where
  "parse_u32 s =
     (case s of
        [] \<Rightarrow> None
      | c # cs \<Rightarrow>
          if c = CHR ''+'' then (if cs = [] then None else map_option of_nat (parse_digits 0 cs))
          else map_option of_nat (parse_digits 0 s))"

section \<open>Runtimes\<close>

datatype runtime_kind =
    Default | Shell | Seedling | Statemint | Statemine | Westmint | Penpal u32 | ContractsRococo | CollectivesPolkadot
  | CollectivesWestend

definition KUSAMA_TEST_PARA_PREFIX :: string where
  "KUSAMA_TEST_PARA_PREFIX = ''penpal-kusama-''"

definition POLKADOT_TEST_PARA_PREFIX :: string where
  "POLKADOT_TEST_PARA_PREFIX = ''penpal-polkadot-''"

definition extract_parachain_id :: "string \<Rightarrow> (string \<times> string \<times> u32 option) option" where
  "extract_parachain_id chain_id =
     (if starts_with KUSAMA_TEST_PARA_PREFIX chain_id then
        (case parse_u32 (drop (length KUSAMA_TEST_PARA_PREFIX) chain_id) of
           None \<Rightarrow> None
         | Some para_id \<Rightarrow> Some (take (length KUSAMA_TEST_PARA_PREFIX - 1) chain_id, chain_id, Some para_id))
      else if starts_with POLKADOT_TEST_PARA_PREFIX chain_id then
        (case parse_u32 (drop (length POLKADOT_TEST_PARA_PREFIX) chain_id) of
           None \<Rightarrow> None
         | Some para_id \<Rightarrow> Some (take (length POLKADOT_TEST_PARA_PREFIX - 1) chain_id, chain_id, Some para_id))
      else Some (chain_id, chain_id, None))"

definition runtime :: "string \<Rightarrow> runtime_kind option" where
  "runtime chain_id =
     do {
       (_, chain_id, para_id) \<leftarrow> extract_parachain_id (replace_str ''_'' ''-'' chain_id);
       Some
         (if starts_with ''shell'' chain_id then Shell
          else if starts_with ''seedling'' chain_id then Seedling
          else if starts_with ''statemint'' chain_id then Statemint
          else if starts_with ''statemine'' chain_id then Statemine
          else if starts_with ''westmint'' chain_id then Westmint
          else if starts_with ''penpal'' chain_id then Penpal (case para_id of None \<Rightarrow> 0 | Some p \<Rightarrow> p)
          else if starts_with ''contracts-rococo'' chain_id then ContractsRococo
          else if starts_with ''collectives-polkadot'' chain_id then CollectivesPolkadot
          else if starts_with ''collectives-westend'' chain_id then CollectivesWestend
          else Default)
     }"


text \<open>The functions that start a node, with the runtime interface and the keys of aura they are instantiated for.\<close>

datatype node_start =
    GenericAuraNode runtime_crate crypto
  | ShellNode runtime_crate
  | ContractsRococoNode
  | RococoParachainNode

fun run_start :: "runtime_kind \<Rightarrow> node_start" where
  "run_start Statemint = GenericAuraNode statemint_runtime Ed25519"
| "run_start Statemine = GenericAuraNode statemine_runtime Sr25519"
| "run_start Westmint = GenericAuraNode westmint_runtime Sr25519"
| "run_start CollectivesPolkadot = GenericAuraNode collectives_polkadot_runtime Sr25519"
| "run_start CollectivesWestend = GenericAuraNode collectives_polkadot_runtime Sr25519"
| "run_start Shell = ShellNode shell_runtime"
| "run_start Seedling = ShellNode seedling_runtime"
| "run_start ContractsRococo = ContractsRococoNode"
| "run_start (Penpal para_id) = RococoParachainNode"
| "run_start Default = RococoParachainNode"

fun start_function :: "node_start \<Rightarrow> ('url, 'o, 'k, 'x) start_node" where
  "start_function (GenericAuraNode _ aura_id) = start_generic_aura_node aura_id"
| "start_function (ShellNode _) = start_shell_node"
| "start_function ContractsRococoNode = start_contracts_rococo_node"
| "start_function RococoParachainNode = start_rococo_parachain_node"


text \<open>The import queue of the subcommands.\<close>

fun async_run_import_queue :: "runtime_kind \<Rightarrow> ('url, 'o, 'k, 'x) build_import_queue" where
  "async_run_import_queue Westmint = aura_build_import_queue Sr25519"
| "async_run_import_queue Statemine = aura_build_import_queue Sr25519"
| "async_run_import_queue Statemint = aura_build_import_queue Ed25519"
| "async_run_import_queue CollectivesPolkadot = aura_build_import_queue Sr25519"
| "async_run_import_queue CollectivesWestend = aura_build_import_queue Sr25519"
| "async_run_import_queue Shell = shell_build_import_queue"
| "async_run_import_queue Seedling = shell_build_import_queue"
| "async_run_import_queue ContractsRococo = contracts_rococo_build_import_queue"
| "async_run_import_queue (Penpal para_id) = rococo_parachain_build_import_queue"
| "async_run_import_queue Default = rococo_parachain_build_import_queue"

fun construct_benchmark_partials :: "runtime_kind \<Rightarrow> (string, runtime_crate) result" where
  "construct_benchmark_partials Statemine = Inr statemine_runtime"
| "construct_benchmark_partials Westmint = Inr westmint_runtime"
| "construct_benchmark_partials Statemint = Inr statemint_runtime"
| "construct_benchmark_partials CollectivesPolkadot = Inr collectives_polkadot_runtime"
| "construct_benchmark_partials CollectivesWestend = Inr collectives_polkadot_runtime"
| "construct_benchmark_partials _ = Inl ''The chain is not supported''"

section \<open>Chain specifications\<close>

text \<open>
  Files, those built into the node by their name and those on disk by their path.  Reading gives a specification for the
  runtime that is asked for, or an error; reading only the identifier may fail, which is a panic.
\<close>

record spec_files =
  from_json_bytes :: "runtime_crate \<Rightarrow> string \<Rightarrow> (string, chain_spec) result"
  from_json_file :: "runtime_crate \<Rightarrow> string \<Rightarrow> (string, chain_spec) result"
  file_id :: "string \<Rightarrow> string option"

definition path_runtime :: "spec_files \<Rightarrow> string \<Rightarrow> runtime_kind option" where
  "path_runtime files path = do { chain_id \<leftarrow> file_id files path; runtime chain_id }"

definition load_spec_file :: "spec_files \<Rightarrow> string \<Rightarrow> (string, chain_spec) result option" where
  "load_spec_file files path = do {
     kind \<leftarrow> path_runtime files path;
     Some (from_json_file files
       (case kind of
          Statemint \<Rightarrow> statemint_runtime
        | Statemine \<Rightarrow> statemine_runtime
        | Westmint \<Rightarrow> westmint_runtime
        | CollectivesPolkadot \<Rightarrow> collectives_polkadot_runtime
        | CollectivesWestend \<Rightarrow> collectives_polkadot_runtime
        | Shell \<Rightarrow> shell_runtime
        | Seedling \<Rightarrow> seedling_runtime
        | ContractsRococo \<Rightarrow> contracts_rococo_runtime
        | Penpal _ \<Rightarrow> penpal_runtime
        | Default \<Rightarrow> rococo_parachain_runtime) path)
   }"

text \<open>The identifiers that name a specification built into the node, other than penpal's.\<close>

definition built_in_specs :: "spec_env \<Rightarrow> spec_files \<Rightarrow> (string \<times> (string, chain_spec) result) list" where
  "built_in_specs env files =
     [(''staging'', Inr (staging_rococo_parachain_local_config env)),
      (''tick'', from_json_bytes files rococo_parachain_runtime ''tick.json''),
      (''trick'', from_json_bytes files rococo_parachain_runtime ''trick.json''),
      (''track'', from_json_bytes files rococo_parachain_runtime ''track.json''),
      (''shell'', Inr (get_shell_chain_spec env)),
      (''seedling'', Inr (get_seedling_chain_spec env)),
      (''statemint-dev'', Inr (statemint_development_config env)),
      (''statemint-local'', Inr (statemint_local_config env)),
      (''statemint-genesis'', Inr (statemint_config env)),
      (''statemint'', from_json_bytes files statemint_runtime ''statemint.json''),
      (''statemine-dev'', Inr (statemine_development_config env)),
      (''statemine-local'', Inr (statemine_local_config env)),
      (''statemine-genesis'', Inr (statemine_config env)),
      (''statemine'', from_json_bytes files statemine_runtime ''statemine.json''),
      (''westmint-dev'', Inr (westmint_development_config env)),
      (''westmint-local'', Inr (westmint_local_config env)),
      (''westmint-genesis'', Inr (westmint_config env)),
      (''westmint'', from_json_bytes files westmint_runtime ''westmint.json''),
      (''collectives-polkadot-dev'', Inr (collectives_polkadot_development_config env)),
      (''collectives-polkadot-local'', Inr (collectives_polkadot_local_config env)),
      (''collectives-polkadot'', from_json_bytes files collectives_polkadot_runtime ''collectives-polkadot.json''),
      (''collectives-westend'', from_json_bytes files collectives_polkadot_runtime ''collectives-westend.json''),
      (''contracts-rococo-dev'', Inr (contracts_rococo_development_config env)),
      (''contracts-rococo-local'', Inr (contracts_rococo_local_config env)),
      (''contracts-rococo-genesis'', Inr (contracts_rococo_config env)),
      (''contracts-rococo'', from_json_bytes files contracts_rococo_runtime ''contracts-rococo.json''),
      ('''', Inr (rococo_parachain_local_config env))]"

definition load_spec :: "spec_env \<Rightarrow> spec_files \<Rightarrow> string \<Rightarrow> (string, chain_spec) result option" where
  "load_spec env files chain_id =
     do {
       (norm_id, _, para_id) \<leftarrow> extract_parachain_id chain_id;
       if norm_id = ''penpal-kusama'' then map_option (\<lambda>p. Inr (get_penpal_chain_spec env p ''kusama-local'')) para_id
       else if norm_id = ''penpal-polkadot'' then map_option (\<lambda>p. Inr (get_penpal_chain_spec env p ''polkadot-local'')) para_id
       else (case map_of (built_in_specs env files) norm_id of
           Some spec \<Rightarrow> Some spec
         | None \<Rightarrow> load_spec_file files norm_id)
     }"

section \<open>Parachain ids in identifiers\<close>

fun show_nat :: "nat \<Rightarrow> string" where
  "show_nat n = (if n < 10 then [char_of (48 + n)] else show_nat (n div 10) @ [char_of (48 + n mod 10)])"

declare show_nat.simps [simp del]

lemma digit_of_char: "d < 10 \<Longrightarrow> digit_of (char_of (48 + d)) = Some d"
  by (simp add: digit_of_def of_char_of)

lemma parse_digits_append: "parse_digits acc (s @ t) = Option.bind (parse_digits acc s) (\<lambda>a. parse_digits a t)"
  by (induction acc s rule: parse_digits.induct) (auto split: option.split)

lemma parse_digits_show: "n < 2 ^ 32 \<Longrightarrow> parse_digits 0 (show_nat n) = Some n"
proof (induction n rule: show_nat.induct)
  case (1 n)
  show ?case
  proof (cases "n < 10")
    case True
    then show ?thesis using digit_of_char [OF True] by (simp add: show_nat.simps [of n])
  next
    case False
    have "n div 10 \<le> n" by simp
    then have IH: "parse_digits 0 (show_nat (n div 10)) = Some (n div 10)" using 1 False by linarith
    have "digit_of (char_of (48 + n mod 10)) = Some (n mod 10)" by (rule digit_of_char) simp
    then show ?thesis
      using 1(2) by (subst show_nat.simps) (simp add: False IH parse_digits_append)
  qed
qed

lemma show_nat_not_Nil [simp]: "show_nat n \<noteq> []"
  by (subst show_nat.simps) simp

lemma parse_u32_digits: "s \<noteq> [] \<Longrightarrow> parse_digits 0 s = Some v \<Longrightarrow> parse_u32 s = Some (of_nat v)"
  by (cases s) (auto simp: parse_u32_def digit_of_def)

lemma parse_u32_show [simp]: "parse_u32 (show_nat (unat n)) = Some n"
proof -
  have "unat n < 2 ^ 32" using unsigned_less [of n, where 'a = nat] by simp
  then show ?thesis using parse_u32_digits [OF show_nat_not_Nil parse_digits_show] by simp
qed

lemma extract_penpal:
  "extract_parachain_id (''penpal-kusama-'' @ show_nat (unat n)) =
     Some (''penpal-kusama'', ''penpal-kusama-'' @ show_nat (unat n), Some n)"
  "extract_parachain_id (''penpal-polkadot-'' @ show_nat (unat n)) =
     Some (''penpal-polkadot'', ''penpal-polkadot-'' @ show_nat (unat n), Some n)"
  by (simp_all add: extract_parachain_id_def KUSAMA_TEST_PARA_PREFIX_def POLKADOT_TEST_PARA_PREFIX_def starts_with_def)

lemma penpal_spec:
  "spec_id (get_penpal_chain_spec env n ''kusama-local'') = ''penpal-kusama''"
  "spec_id (get_penpal_chain_spec env n ''polkadot-local'') = ''penpal-polkadot''"
  "spec_crate (get_penpal_chain_spec env n relay) = penpal_runtime"
  "ext_para_id (get_penpal_chain_spec env n relay) = n" "ext_relay_chain (get_penpal_chain_spec env n relay) = relay"
  by (simp_all add: get_penpal_chain_spec_def from_genesis_def starts_with_def)

text \<open>The identifier of a test chain carries its parachain id: with the decimal digits of any id behind the prefix, the
  specification is for this id and the relay chain of the prefix.\<close>

theorem penpal_id_round_trip:
  "load_spec env files (''penpal-kusama-'' @ show_nat (unat n)) = Some (Inr (get_penpal_chain_spec env n ''kusama-local'')) \<and>
   load_spec env files (''penpal-polkadot-'' @ show_nat (unat n)) = Some (Inr (get_penpal_chain_spec env n ''polkadot-local'')) \<and>
   ext_para_id (get_penpal_chain_spec env n relay) = n \<and> ext_relay_chain (get_penpal_chain_spec env n relay) = relay"
  by (simp add: load_spec_def extract_penpal [simplified] penpal_spec)

section \<open>The runtime of a specification\<close>

fun started_crate :: "node_start \<Rightarrow> runtime_crate" where
  "started_crate (GenericAuraNode c _) = c"
| "started_crate (ShellNode c) = c"
| "started_crate ContractsRococoNode = contracts_rococo_runtime"
| "started_crate RococoParachainNode = rococo_parachain_runtime"


text \<open>The identifiers in the files that are built in.\<close>

definition json_ids :: "(string \<times> string) list" where
  "json_ids = [(''tick.json'', ''tick_v9''), (''trick.json'', ''trick_v9''), (''track.json'', ''track_v9''),
     (''statemint.json'', ''statemint''), (''statemine.json'', ''statemine''), (''westmint.json'', ''westmint''),
     (''collectives-polkadot.json'', ''collectives_polkadot''), (''collectives-westend.json'', ''collectives_westend''),
     (''contracts-rococo.json'', ''contracts-rococo'')]"

definition files_ok :: "spec_files \<Rightarrow> bool" where
  "files_ok files \<longleftrightarrow>
     (\<forall>crate name spec. from_json_bytes files crate name = Inr spec \<longrightarrow>
        spec_crate spec = crate \<and> map_of json_ids name = Some (spec_id spec)) \<and>
     (\<forall>crate path spec. from_json_file files crate path = Inr spec \<longrightarrow>
        spec_crate spec = crate \<and> file_id files path = Some (spec_id spec))"


lemmas runtime_defs = runtime_def extract_parachain_id_def KUSAMA_TEST_PARA_PREFIX_def POLKADOT_TEST_PARA_PREFIX_def
  starts_with_def









text \<open>Files with the identifiers above, and one on disk.\<close>

definition raw_spec :: "runtime_crate \<Rightarrow> string \<Rightarrow> string \<Rightarrow> u32 \<Rightarrow> chain_spec" where
  "raw_spec crate chain_id relay_chain para_id = (from_genesis crate [] chain_id Live None [] None None (relay_chain, para_id))
     \<lparr>spec_genesis := RawStorage\<rparr>"

lemma raw_spec_simps [simp]:
  "spec_crate (raw_spec crate chain_id relay_chain para_id) = crate" "spec_id (raw_spec crate chain_id relay_chain para_id) = chain_id"
  by (simp_all add: raw_spec_def from_genesis_def)




text \<open>The identifier of a test chain's specification has no parachain id, so the runtime found for it always has id 0.\<close>

lemma penpal_runtime_id_lost:
  "runtime (spec_id (get_penpal_chain_spec env n ''kusama-local'')) = Some (Penpal 0)"
  "runtime (spec_id (get_penpal_chain_spec env n ''polkadot-local'')) = Some (Penpal 0)"
  by (simp_all add: penpal_spec runtime_defs)

section \<open>The template node\<close>

definition template_load_spec :: "spec_env \<Rightarrow> spec_files \<Rightarrow> string \<Rightarrow> (string, chain_spec) result" where
  "template_load_spec env files chain_id =
     (if chain_id = ''dev'' then Inr (template_development_config env)
      else if chain_id = ''template-rococo'' then Inr (template_local_testnet_config env)
      else if chain_id = [] \<or> chain_id = ''local'' then Inr (template_local_testnet_config env)
      else from_json_file files parachain_template_runtime chain_id)"

text \<open>The template node has one runtime, and every specification it loads is for it.\<close>

lemma template_spec_runtime:
  "files_ok files \<Longrightarrow> template_load_spec env files chain_id = Inr spec \<Longrightarrow> spec_crate spec = parachain_template_runtime"
  unfolding template_load_spec_def files_ok_def
  by (auto simp: template_development_config_def template_local_testnet_config_def from_genesis_def split: if_splits)

section \<open>The consensus of a runtime\<close>

text \<open>The keys of aura that a runtime is configured with.\<close>

fun aura_key :: "runtime_crate \<Rightarrow> crypto option" where
  "aura_key statemint_runtime = Some Ed25519"
| "aura_key shell_runtime = None"
| "aura_key seedling_runtime = None"
| "aura_key _ = Some Sr25519"

lemma failed_queue_fails:
  "q parts = from_result (Inl e) \<Longrightarrow> snd (start_with_rpc rpc q b parts validator url tasks) \<noteq> Some (Inr ())"
  by (auto simp: start_with_rpc_def new_partial_def starting_defs split: option.splits sum.splits prod.splits)

fun rpc_of :: "node_start \<Rightarrow> rpc_builder" where
  "rpc_of (ShellNode _) = RpcExt"
| "rpc_of ContractsRococoNode = CreateContractsRococo"
| "rpc_of _ = CreateFull"

fun consensus_of :: "node_start \<Rightarrow> ('url, 'o, 'k, 'x) build_consensus" where
  "consensus_of (GenericAuraNode _ aura_id) = generic_aura_consensus aura_id"
| "consensus_of (ShellNode _) = shell_consensus"
| "consensus_of ContractsRococoNode = contracts_rococo_consensus"
| "consensus_of RococoParachainNode = rococo_parachain_consensus"

lemma start_function_eq:
  "start_function (run_start kind) = start_with_rpc (rpc_of (run_start kind)) (async_run_import_queue kind) (consensus_of (run_start kind))"
  by (cases kind) (simp_all add: start_kind_defs)

text \<open>A queue that cannot be built, or one whose verifier has the keys and fits the consensus, if that can be built.\<close>

definition agreeing :: "('o, 'k, 'x service_error, unit) starting \<Rightarrow> ('x service_error, consensus) result \<Rightarrow> crypto option \<Rightarrow> bool" where
  "agreeing q b key \<longleftrightarrow> (\<exists>e. q = from_result (Inl e)) \<or>
     (\<exists>v. q = spawn (ImportQueueTask v) \<and> verifier_key v = key \<and> (\<forall>c. b = Inr c \<longrightarrow> verifies v c))"

lemma agreeing_spawn:
  "(\<And>c. b = Inr c \<Longrightarrow> verifies v c) \<Longrightarrow> verifier_key v = key \<Longrightarrow> agreeing (spawn (ImportQueueTask v)) b key"
  unfolding agreeing_def by blast

lemma agreeing_failed: "agreeing (from_result (Inl e)) b key"
  unfolding agreeing_def by blast

lemma agreeing_aura:
  "agreeing (and_then (from_result slot) (\<lambda>d. and_then (from_result queue) (\<lambda>_. spawn (ImportQueueTask (AuraVerifier k d)))))
     (rbind slot' (\<lambda>d. Inr (AuraConsensus k d))) (Some k)"
  by (cases slot; cases queue; cases slot') (auto simp: and_then_from_result agreeing_failed rbind_def intro!: agreeing_spawn)

lemma queue_of_kind:
  "agreeing (async_run_import_queue kind parts) (consensus_of (run_start kind) parts) (aura_key (started_crate (run_start kind)))"
  by (cases kind) (auto simp: queue_defs consensus_defs agreeing_aura intro!: agreeing_spawn)

text \<open>C39. A node verifies by the consensus it produces by, whatever the runtime: if a node starts, it has one import queue and,
  if it is a validator, one collator; the verifier of the queue is for the consensus and the keys of the collator, the keys are
  those of the runtime, and the subcommands for the runtime import with the same verifier.  The slot durations are read apart
  and not compared.\<close>

theorem node_verifies_what_it_produces:
  assumes "start_function (run_start kind) parts validator url [] = (tasks, Some (Inr ()))"
  shows "\<exists>v. import_queues tasks = [v] \<and> list_all (verifies v) (collators tasks) \<and>
    length (collators tasks) = (if validator then 1 else 0) \<and>
    verifier_key v = aura_key (started_crate (run_start kind)) \<and>
    async_run_import_queue kind parts [] = ([ImportQueueTask v], Some (Inr ()))"
proof -
  let ?q = "async_run_import_queue kind" and ?b = "consensus_of (run_start kind)" and ?rpc = "rpc_of (run_start kind)"
  have started: "start_with_rpc ?rpc ?q ?b parts validator url [] = (tasks, Some (Inr ()))"
    using assms by (simp only: start_function_eq)
  then have "\<nexists>e. ?q parts = from_result (Inl e)"
    using failed_queue_fails [of ?q parts _ ?rpc ?b validator url "[]"] by force
  with queue_of_kind [of kind parts, unfolded agreeing_def] obtain v where v: "?q parts = spawn (ImportQueueTask v)"
    "verifier_key v = aura_key (started_crate (run_start kind))" "\<forall>c. ?b parts = Inr c \<longrightarrow> verifies v c" by blast
  with started_tasks [OF started v(1)] show ?thesis by (auto simp: spawn_def split: if_splits)
qed

theorem node_verifies_what_it_produces_witness:
  "\<exists>v c tasks. start_function (run_start Statemint) example_parts True None [] = (tasks, Some (Inr ())) \<and>
     import_queues tasks = [v] \<and> collators tasks = [c] \<and> verifies v c \<and> verifier_key v = Some Ed25519"
proof -
  have "(start_generic_aura_node Ed25519, CreateFull, AuraOrRelayChainVerifier Ed25519, WaitForAuraConsensus Ed25519) \<in> set (node_kinds (12000, 12000))"
    by (simp add: node_kinds_def)
  from node_kinds_eq [OF example_parts_work this, of True None]
  obtain tasks where started: "start_function (run_start Statemint) example_parts True None [] = (tasks, Some (Inr ()))" by simp
  from node_verifies_what_it_produces [OF this] started show ?thesis by (auto simp: length_Suc_conv)
qed

end
