(* ===== verification/Node_Cli.thy ===== *)
theory Node_Cli
  imports Prelude
begin

text \<open>
  The commands of \<^verbatim>\<open>src/client/cli/src/lib.rs\<close> that purge a chain and export the genesis of a parachain.  The file
  system, the terminal, the trie and the codec of headers are parameters.
\<close>

section \<open>Purging\<close>

datatype 'e io_error = NotFound | OtherIo 'e

datatype 'e cli_error = Input string | Io "'e io_error" | Message string

record purge_chain_cmd =
  purge_yes :: bool
  purge_parachain :: bool
  purge_relaychain :: bool

definition purge_databases :: "purge_chain_cmd \<Rightarrow> 'p option \<Rightarrow> 'p option \<Rightarrow> (string \<times> 'p option) list" where
  "purge_databases cmd para_database relay_database =
     (case (purge_parachain cmd, purge_relaychain cmd) of
        (True, False) \<Rightarrow> [(''parachain'', para_database)]
      | (False, True) \<Rightarrow> [(''relaychain'', relay_database)]
      | _ \<Rightarrow> [(''parachain'', para_database), (''relaychain'', relay_database)])"

fun database_paths :: "(string \<times> 'p option) list \<Rightarrow> (string, 'p list) result" where
  "database_paths [] = Inr []"
| "database_paths ((chain_label, database) # dbs) =
     (case database of
        None \<Rightarrow> Inl (''Cannot purge custom database implementation of: '' @ chain_label)
      | Some path \<Rightarrow> rbind (database_paths dbs) (\<lambda>paths. Inr (path # paths)))"

text \<open>White space of ASCII.\<close>

definition whitespace :: "char \<Rightarrow> bool" where
  "whitespace c \<longleftrightarrow> of_char c \<in> {9, 10, 11, 12, 13, 32 :: nat}"

definition trim :: "string \<Rightarrow> string" where
  "trim s = rev (dropWhile whitespace (rev (dropWhile whitespace s)))"

definition confirms :: "string \<Rightarrow> bool" where
  "confirms input = (case trim input of [] \<Rightarrow> False | c # _ \<Rightarrow> c = CHR ''y'' \<or> c = CHR ''Y'')"

text \<open>Removal of the directories in order, with the ones that it was asked for.\<close>

fun remove_all_dirs :: "('p \<Rightarrow> 'fs \<Rightarrow> ('e io_error, unit) result \<times> 'fs) \<Rightarrow> 'p list \<Rightarrow> 'fs \<Rightarrow> ('e cli_error, unit) result \<times> 'fs \<times> 'p list" where
  "remove_all_dirs remove_dir_all [] fs = (Inr (), fs, [])"
| "remove_all_dirs remove_dir_all (path # paths) fs =
     (case remove_dir_all path fs of
        (Inl (OtherIo e), fs') \<Rightarrow> (Inl (Io (OtherIo e)), fs', [path])
      | (_, fs') \<Rightarrow> (case remove_all_dirs remove_dir_all paths fs' of (r, fs'', asked) \<Rightarrow> (r, fs'', path # asked)))"

definition purge_run :: "('p \<Rightarrow> 'fs \<Rightarrow> ('e io_error, unit) result \<times> 'fs) \<Rightarrow> ('e io_error, string) result \<Rightarrow> purge_chain_cmd \<Rightarrow>
    'p option \<Rightarrow> 'p option \<Rightarrow> 'fs \<Rightarrow> ('e cli_error, unit) result \<times> 'fs \<times> 'p list" where
  "purge_run remove_dir_all read_line cmd para_database relay_database fs =
     (case database_paths (purge_databases cmd para_database relay_database) of
        Inl e \<Rightarrow> (Inl (Input e), fs, [])
      | Inr db_paths \<Rightarrow>
          if purge_yes cmd then remove_all_dirs remove_dir_all db_paths fs
          else
            (case read_line of
               Inl e \<Rightarrow> (Inl (Io e), fs, [])
             | Inr input \<Rightarrow>
                 if confirms input then remove_all_dirs remove_dir_all db_paths fs
                 else (Inr (), fs, [])))"

text \<open>The databases a command is meant for: both, unless exactly one is named.\<close>

definition meant :: "purge_chain_cmd \<Rightarrow> 'p option \<Rightarrow> 'p option \<Rightarrow> 'p option list" where
  "meant cmd para relay = (if purge_parachain cmd \<or> \<not> purge_relaychain cmd then [para] else []) @
     (if purge_relaychain cmd \<or> \<not> purge_parachain cmd then [relay] else [])"

lemma purge_databases_meant: "map snd (purge_databases cmd para relay) = meant cmd para relay"
  by (cases "purge_parachain cmd"; cases "purge_relaychain cmd") (simp_all add: purge_databases_def meant_def)

lemma database_paths_Inr: "database_paths dbs = Inr paths \<longleftrightarrow> map snd dbs = map Some paths"
proof (induction dbs arbitrary: paths)
  case (Cons db dbs)
  obtain label database where db: "db = (label, database)" by fastforce
  show ?case
  proof (cases database)
    case None
    then show ?thesis by (cases paths) (simp_all add: db)
  next
    case (Some path)
    have "rbind (database_paths dbs) (\<lambda>ps. Inr (path # ps)) = Inr paths \<longleftrightarrow>
        (\<exists>ps. database_paths dbs = Inr ps \<and> paths = path # ps)"
      by (auto simp: rbind_def split: sum.split)
    then show ?thesis using Cons.IH by (cases paths) (auto simp: db Some)
  qed
qed auto

lemma remove_all_dirs_asked:
  "remove_all_dirs rm paths fs = (r, fs', asked) \<Longrightarrow>
     asked = take (length asked) paths \<and> (r = Inr () \<longrightarrow> asked = paths) \<and> (asked = [] \<longrightarrow> fs' = fs)"
proof (induction paths arbitrary: r fs fs' asked)
  case (Cons path paths)
  obtain r1 fs1 where rm: "rm path fs = (r1, fs1)" by fastforce
  obtain r2 fs2 asked2 where rest: "remove_all_dirs rm paths fs1 = (r2, fs2, asked2)" using prod_cases3 by blast
  show ?case
    using Cons.prems Cons.IH [OF rest] by (auto simp: rm rest split: sum.splits io_error.splits)
qed simp

definition permitted :: "purge_chain_cmd \<Rightarrow> ('e io_error, string) result \<Rightarrow> bool" where
  "permitted cmd read_line \<longleftrightarrow> purge_yes cmd \<or> (case read_line of Inl _ \<Rightarrow> False | Inr input \<Rightarrow> confirms input)"

lemma purge_run_eq:
  "purge_run rm read_line cmd para relay fs =
     (case database_paths (purge_databases cmd para relay) of
        Inl e \<Rightarrow> (Inl (Input e), fs, [])
      | Inr db_paths \<Rightarrow>
          if permitted cmd read_line then remove_all_dirs rm db_paths fs
          else (case read_line of Inl e \<Rightarrow> Inl (Io e) | Inr _ \<Rightarrow> Inr (), fs, []))"
  by (simp add: purge_run_def permitted_def split: sum.split)

text \<open>Purging removes nothing unconfirmed and nothing but what it is meant for: the directories it asks the file system to
  remove are those of the chains named on the command line, or of both, in order and up to an error; it asks for none without
  the flag or an answer that confirms, and then the file system is as before; and a permitted purge that succeeds has
  asked for all of them.\<close>

theorem purge_removes_only_confirmed:
  assumes "purge_run remove_dir_all read_line cmd para relay fs = (r, fs', asked)"
  shows "map Some asked = take (length asked) (meant cmd para relay) \<and> (asked = [] \<longrightarrow> fs' = fs) \<and>
    (asked \<noteq> [] \<longrightarrow> permitted cmd read_line) \<and>
    (r = Inr () \<and> permitted cmd read_line \<longrightarrow> map Some asked = meant cmd para relay)"
proof (cases "database_paths (purge_databases cmd para relay)")
  case (Inl e)
  then show ?thesis using assms by (auto simp: purge_run_eq)
next
  case (Inr paths)
  then have meant: "meant cmd para relay = map Some paths" by (simp add: database_paths_Inr flip: purge_databases_meant)
  show ?thesis
  proof (cases "permitted cmd read_line")
    case True
    then have "remove_all_dirs remove_dir_all paths fs = (r, fs', asked)" using assms Inr by (simp add: purge_run_eq)
    from remove_all_dirs_asked [OF this] show ?thesis using True by (metis meant take_map)
  next
    case False
    then show ?thesis using assms Inr by (auto simp: purge_run_eq)
  qed
qed

text \<open>A file system of two directories; only the relay chain's is named.\<close>

definition example_remove :: "string \<Rightarrow> string list \<Rightarrow> (unit io_error, unit) result \<times> string list" where
  "example_remove path fs = (if path \<in> set fs then (Inr (), removeAll path fs) else (Inl NotFound, fs))"

theorem purge_removes_only_confirmed_witness:
  "purge_run example_remove (Inr '' yes'') \<lparr>purge_yes = False, purge_parachain = False, purge_relaychain = True\<rparr>
      (Some ''/para'') (Some ''/relay'') [''/para'', ''/relay''] = (Inr (), [''/para''], [''/relay'']) \<and>
   meant \<lparr>purge_yes = False, purge_parachain = False, purge_relaychain = True\<rparr> (Some ''/para'') (Some ''/relay'') = [Some ''/relay'']"
proof -
  let ?cmd = "\<lparr>purge_yes = False, purge_parachain = False, purge_relaychain = True\<rparr>"
  have confirms: "confirms '' yes''" by (simp add: confirms_def trim_def whitespace_def)
  have run: "purge_run example_remove (Inr '' yes'') ?cmd (Some ''/para'') (Some ''/relay'') [''/para'', ''/relay''] =
      (Inr (), [''/para''], [''/relay''])"
    by (simp add: purge_run_def purge_databases_def rbind_def confirms example_remove_def)
  have "permitted ?cmd (Inr '' yes'' :: (unit io_error, string) result)" by (simp add: permitted_def confirms)
  then have "map Some [''/relay''] = meant ?cmd (Some ''/para'') (Some ''/relay'')"
    using purge_removes_only_confirmed [OF run] by blast
  then have "meant ?cmd (Some ''/para'') (Some ''/relay'') = [Some ''/relay'']" by (simp only: list.map)
  with run show ?thesis by (rule conjI)
qed

section \<open>Export of the genesis\<close>

text \<open>The storage of a specification: the top trie and the default child tries, both ordered by key.\<close>

record genesis_storage =
  storage_top :: "(bytes \<times> bytes) list"
  storage_children_default :: "(bytes \<times> (bytes \<times> bytes) list) list"

record 'h genesis_header =
  gh_number :: nat
  gh_extrinsics_root :: 'h
  gh_state_root :: 'h
  gh_parent_hash :: 'h
  gh_digest :: "bytes list"

text \<open>\<open>trie_root\<close> is the hash for the state version; a block without extrinsics is its header.\<close>

definition generate_genesis_block :: "((bytes \<times> bytes) list \<Rightarrow> 'h) \<Rightarrow> ('h \<Rightarrow> bytes) \<Rightarrow> 'h \<Rightarrow> (string, genesis_storage) result \<Rightarrow>
    (string, 'h genesis_header) result" where
  "generate_genesis_block trie_root encode_hash default_hash build_storage =
     rbind build_storage (\<lambda>storage.
     let child_roots = map (\<lambda>(sk, child_content). (sk, encode_hash (trie_root child_content))) (storage_children_default storage);
         state_root = trie_root (storage_top storage @ child_roots);
         extrinsics_root = trie_root [] in
     Inr \<lparr>gh_number = 0, gh_extrinsics_root = extrinsics_root, gh_state_root = state_root, gh_parent_hash = default_hash,
       gh_digest = []\<rparr>)"

definition extract_genesis_wasm :: "bytes \<Rightarrow> (string, genesis_storage) result \<Rightarrow> (string, bytes) result" where
  "extract_genesis_wasm code_key build_storage =
     rbind build_storage (\<lambda>storage.
     ok_or (map_of (storage_top storage) code_key) ''Could not find wasm file in genesis state!'')"

definition hex_digit :: "u8 \<Rightarrow> u8" where
  "hex_digit n = (if n < 10 then 48 + n else 87 + n)"

definition hex_display :: "bytes \<Rightarrow> bytes" where
  "hex_display bs = [48, 120] @ concat (map (\<lambda>b. [hex_digit (b div 16), hex_digit (b mod 16)]) bs)"

definition output_buf :: "bool \<Rightarrow> bytes \<Rightarrow> bytes" where
  "output_buf raw blob = (if raw then blob else hex_display blob)"

definition export_genesis_state :: "('h genesis_header \<Rightarrow> bytes) \<Rightarrow> bool \<Rightarrow> (string, 'h genesis_header) result \<Rightarrow> (string, bytes) result" where
  "export_genesis_state encode_header raw block = rbind block (\<lambda>header. Inr (output_buf raw (encode_header header)))"

definition export_genesis_wasm :: "bool \<Rightarrow> (string, bytes) result \<Rightarrow> (string, bytes) result" where
  "export_genesis_wasm raw wasm = rbind wasm (\<lambda>blob. Inr (output_buf raw blob))"

text \<open>What a reader of the exported text does.\<close>

definition hex_value :: "u8 \<Rightarrow> u8" where
  "hex_value c = (if c < 58 then c - 48 else c - 87)"

fun hex_pairs :: "bytes \<Rightarrow> bytes" where
  "hex_pairs (a # b # cs) = (hex_value a * 16 + hex_value b) # hex_pairs cs"
| "hex_pairs _ = []"

lemma hex_digit_value: "n < 16 \<Longrightarrow> hex_value (hex_digit n) = n"
proof -
  assume "n < 16"
  then have "unat n < 16" by (simp add: word_less_nat_alt)
  then have "unat n \<in> set [0..<16]" by simp
  moreover have "list_all (\<lambda>k. hex_value (hex_digit (of_nat k)) = of_nat k) [0..<16]"
    by code_simp
  ultimately have "hex_value (hex_digit (of_nat (unat n))) = of_nat (unat n)" by (simp only: list_all_iff)
  then show ?thesis by simp
qed

text \<open>The hexadecimal form loses nothing.\<close>

lemma hex_display_reads_back: "hex_pairs (drop 2 (output_buf False bs)) = bs"
proof -
  have "unat b div 16 < 16" for b :: u8 using unsigned_less [of b, where 'a = nat] by simp
  then have "b div 16 < 16" for b :: u8 by (simp add: word_less_nat_alt unat_div)
  moreover have "b mod 16 < 16" for b :: u8 by (simp add: word_less_nat_alt unat_mod)
  ultimately have "hex_value (hex_digit (b div 16)) * 16 + hex_value (hex_digit (b mod 16)) = b" for b :: u8
    by (simp only: hex_digit_value div_mult_mod_eq)
  then show ?thesis by (induction bs) (simp_all add: output_buf_def hex_display_def)
qed

end
