(* ===== verification/Runtime_Proxies.thy ===== *)
theory Runtime_Proxies
  imports Prelude
begin

text \<open>
  The kinds of proxies of the asset runtimes (\<^verbatim>\<open>src/parachains/runtimes/assets/statemine/src/lib.rs\<close>, with the
  same text in \<^verbatim>\<open>statemint\<close> and \<^verbatim>\<open>westmint\<close>) and of
  \<^verbatim>\<open>collectives-polkadot\<close>: which calls a proxy may make and which proxies it may hand on.  A call is a variant of the
  runtime's call type, named by its pallet, with the name of the call in the pallet; arguments do not matter to the filters.
\<close>

section \<open>What the filter of a proxy promises\<close>

text \<open>The order of the kinds never gives a proxy more than its filter.\<close>

locale proxy_types =
  fixes allows :: "'t \<Rightarrow> 'c \<Rightarrow> bool" and superset :: "'t \<Rightarrow> 't \<Rightarrow> bool" and top :: 't
  assumes superset_refl: "superset t t"
    and superset_trans: "superset t u \<Longrightarrow> superset u v \<Longrightarrow> superset t v"
    and superset_sound: "superset t u \<Longrightarrow> allows u c \<Longrightarrow> allows t c"
    and top_allows: "allows top c"
    and top_superset: "superset top t"
begin

text \<open>A chain of proxies, each handed on by the one before.\<close>

lemma handed_on: "successively superset ts \<Longrightarrow> ts \<noteq> [] \<Longrightarrow> allows (List.last ts) c \<Longrightarrow> t \<in> set ts \<Longrightarrow> allows t c"
proof (induction ts arbitrary: t)
  case (Cons s ts)
  then show ?case
  proof (cases ts)
    case (Cons u us)
    then have rest: "allows r c" if "r \<in> set ts" for r
      using Cons.prems(1,3) that Cons.IH [of r] by (simp add: Cons)
    moreover have "superset s u" using Cons.prems(1) Cons by simp
    ultimately show ?thesis using Cons.prems(4) superset_sound [of s u c] Cons by auto
  qed simp
qed simp

end

section \<open>Asset runtimes\<close>

datatype asset_pallet =
    System | ParachainSystem | Timestamp | Balances | Authorship | CollatorSelection | Session | XcmpQueue | PolkadotXcm | DmpQueue
  | Utility | Multisig | Proxy | Assets | Uniques

type_synonym asset_call = "asset_pallet \<times> string"

datatype asset_proxy_type = Any | NonTransfer | CancelProxy | AssetsProxy | AssetOwner | AssetManager | Collator

definition asset_proxy_default :: asset_proxy_type where
  "asset_proxy_default = Any"

fun asset_filter :: "asset_proxy_type \<Rightarrow> asset_call \<Rightarrow> bool" where
  "asset_filter Any c = True"
| "asset_filter NonTransfer (p, name) = (p \<notin> {Balances, Assets, Uniques})"
| "asset_filter CancelProxy (p, name) = (p = Proxy \<and> name = ''reject_announcement'' \<or> p \<in> {Utility, Multisig})"
| "asset_filter AssetsProxy (p, name) = (p \<in> {Assets, Utility, Multisig, Uniques})"
| "asset_filter AssetOwner (p, name) =
     (p = Assets \<and> name \<in> {''create'', ''destroy'', ''transfer_ownership'', ''set_team'', ''set_metadata'', ''clear_metadata''} \<or>
      p = Uniques \<and> name \<in> {''create'', ''destroy'', ''transfer_ownership'', ''set_team'', ''set_metadata'', ''set_attribute'',
        ''set_collection_metadata'', ''clear_metadata'', ''clear_attribute'', ''clear_collection_metadata'',
        ''set_collection_max_supply''} \<or>
      p \<in> {Utility, Multisig})"
| "asset_filter AssetManager (p, name) =
     (p = Assets \<and> name \<in> {''mint'', ''burn'', ''freeze'', ''thaw'', ''freeze_asset'', ''thaw_asset''} \<or>
      p = Uniques \<and> name \<in> {''mint'', ''burn'', ''freeze'', ''thaw'', ''freeze_collection'', ''thaw_collection''} \<or>
      p \<in> {Utility, Multisig})"
| "asset_filter Collator (p, name) = (p \<in> {CollatorSelection, Utility, Multisig})"

definition asset_is_superset :: "asset_proxy_type \<Rightarrow> asset_proxy_type \<Rightarrow> bool" where
  "asset_is_superset x y =
     (if x = y then True
      else if x = Any then True
      else if y = Any then False
      else case (x, y) of
        (AssetsProxy, AssetOwner) \<Rightarrow> True
      | (AssetsProxy, AssetManager) \<Rightarrow> True
      | (NonTransfer, Collator) \<Rightarrow> True
      | _ \<Rightarrow> False)"

section \<open>Collectives\<close>

datatype collectives_pallet =
    CSystem | CParachainSystem | CTimestamp | CBalances | CAuthorship | CCollatorSelection | CSession | CXcmpQueue | CPolkadotXcm
  | CDmpQueue | CUtility | CMultisig | CProxy | CAlliance | CAllianceMotion

type_synonym collectives_call = "collectives_pallet \<times> string"

datatype collectives_proxy_type = CAny | CNonTransfer | CCancelProxy | CCollator | CAllianceProxy

definition collectives_proxy_default :: collectives_proxy_type where
  "collectives_proxy_default = CAny"

fun collectives_filter :: "collectives_proxy_type \<Rightarrow> collectives_call \<Rightarrow> bool" where
  "collectives_filter CAny c = True"
| "collectives_filter CNonTransfer (p, name) = (p \<noteq> CBalances)"
| "collectives_filter CCancelProxy (p, name) = (p = CProxy \<and> name = ''reject_announcement'' \<or> p \<in> {CUtility, CMultisig})"
| "collectives_filter CCollator (p, name) = (p \<in> {CCollatorSelection, CUtility, CMultisig})"
| "collectives_filter CAllianceProxy (p, name) = (p \<in> {CAllianceMotion, CAlliance, CUtility, CMultisig})"

definition collectives_is_superset :: "collectives_proxy_type \<Rightarrow> collectives_proxy_type \<Rightarrow> bool" where
  "collectives_is_superset x y =
     (if x = y then True
      else if x = CAny then True
      else if y = CAny then False
      else if x = CNonTransfer then True
      else False)"

section \<open>The order of the kinds against their filters\<close>

lemmas superset_simps = asset_is_superset_def collectives_is_superset_def

text \<open>For every two kinds that are not ordered, a call that only the second may make.\<close>

fun asset_only :: "asset_proxy_type \<Rightarrow> asset_proxy_type \<Rightarrow> asset_call" where
  "asset_only x Any = (case x of NonTransfer \<Rightarrow> (Balances, ''transfer'') | _ \<Rightarrow> (System, ''remark''))"
| "asset_only x NonTransfer = (System, ''remark'')"
| "asset_only x CancelProxy = (Proxy, ''reject_announcement'')"
| "asset_only x AssetsProxy = (Assets, ''transfer'')"
| "asset_only x AssetOwner = (Assets, ''create'')"
| "asset_only x AssetManager = (Assets, ''mint'')"
| "asset_only x Collator = (CollatorSelection, ''leave_intent'')"

fun collectives_only :: "collectives_proxy_type \<Rightarrow> collectives_proxy_type \<Rightarrow> collectives_call" where
  "collectives_only x CAny = (case x of CNonTransfer \<Rightarrow> (CBalances, ''transfer'') | _ \<Rightarrow> (CSystem, ''remark''))"
| "collectives_only x CNonTransfer = (CSystem, ''remark'')"
| "collectives_only x CCancelProxy = (CProxy, ''reject_announcement'')"
| "collectives_only x CCollator = (CCollatorSelection, ''leave_intent'')"
| "collectives_only x CAllianceProxy = (CAlliance, ''vote'')"

lemma asset_only_separates:
  "\<not> asset_is_superset x y \<Longrightarrow> (x, y) \<noteq> (NonTransfer, CancelProxy) \<Longrightarrow>
     asset_filter y (asset_only x y) \<and> \<not> asset_filter x (asset_only x y)"
  by (cases x; cases y; simp add: superset_simps)

lemma collectives_only_separates:
  "\<not> collectives_is_superset x y \<Longrightarrow> collectives_filter y (collectives_only x y) \<and> \<not> collectives_filter x (collectives_only x y)"
  by (cases x; cases y; simp add: superset_simps)

lemma asset_superset_sound: "asset_is_superset x y \<Longrightarrow> asset_filter y c \<Longrightarrow> asset_filter x c"
proof (cases "x = y \<or> x = Any")
  case False
  assume "asset_is_superset x y" "asset_filter y c"
  moreover from this False have "x = AssetsProxy \<and> (y = AssetOwner \<or> y = AssetManager) \<or> x = NonTransfer \<and> y = Collator"
    by (cases x; cases y; simp add: asset_is_superset_def)
  ultimately show ?thesis by (cases c) auto
qed auto

lemma asset_non_transfer_cancel: "asset_filter CancelProxy c \<Longrightarrow> asset_filter NonTransfer c"
  by (cases c) auto

lemma collectives_superset_sound: "collectives_is_superset x y \<Longrightarrow> collectives_filter y c \<Longrightarrow> collectives_filter x c"
proof (cases "x = y \<or> x = CAny")
  case False
  assume "collectives_is_superset x y" "collectives_filter y c"
  moreover from this False have "x = CNonTransfer \<and> y \<noteq> CAny"
    by (cases x; cases y; simp add: collectives_is_superset_def)
  ultimately show ?thesis by (cases c; cases y) auto
qed auto

interpretation asset_proxies: proxy_types asset_filter asset_is_superset asset_proxy_default
proof unfold_locales
  show "asset_is_superset t u \<Longrightarrow> asset_is_superset u v \<Longrightarrow> asset_is_superset t v" for t u v
    by (cases t; cases u; cases v; simp add: superset_simps)
  show "asset_is_superset t u \<Longrightarrow> asset_filter u c \<Longrightarrow> asset_filter t c" for t u c
    by (rule asset_superset_sound)
qed (simp_all add: superset_simps asset_proxy_default_def)

interpretation collectives_proxies: proxy_types collectives_filter collectives_is_superset collectives_proxy_default
proof unfold_locales
  show "collectives_is_superset t u \<Longrightarrow> collectives_is_superset u v \<Longrightarrow> collectives_is_superset t v" for t u v
    by (cases t; cases u; cases v; simp add: superset_simps)
  show "collectives_is_superset t u \<Longrightarrow> collectives_filter u c \<Longrightarrow> collectives_filter t c" for t u c
    by (rule collectives_superset_sound)
qed (simp_all add: superset_simps collectives_proxy_default_def)

text \<open>C36. The order of the kinds of proxies is inclusion of what they may do.  On the collectives chain it is exactly that; on the
  asset chains it leaves out one inclusion, that a proxy for everything but transfers may do what a proxy that rejects
  announcements may do.\<close>

theorem proxy_order_is_inclusion:
  "(asset_is_superset x y \<or> x = NonTransfer \<and> y = CancelProxy) = (\<forall>c. asset_filter y c \<longrightarrow> asset_filter x c) \<and>
   collectives_is_superset v w = (\<forall>c. collectives_filter w c \<longrightarrow> collectives_filter v c)"
proof (intro conjI iffI allI impI)
  show "asset_filter x c" if "asset_is_superset x y \<or> x = NonTransfer \<and> y = CancelProxy" "asset_filter y c" for c
    using that asset_superset_sound asset_non_transfer_cancel by metis
  show "asset_is_superset x y \<or> x = NonTransfer \<and> y = CancelProxy" if "\<forall>c. asset_filter y c \<longrightarrow> asset_filter x c"
    using asset_only_separates [of x y] that by (meson prod.inject)
  show "collectives_filter v c" if "collectives_is_superset v w" "collectives_filter w c" for c
    using that by (rule collectives_superset_sound)
  show "collectives_is_superset v w" if "\<forall>c. collectives_filter w c \<longrightarrow> collectives_filter v c"
    using collectives_only_separates [of v w] that by metis
qed

theorem proxy_order_is_inclusion_witness:
  "asset_filter AssetsProxy (Assets, ''create'') \<and> \<not> asset_is_superset NonTransfer AssetsProxy"
proof
  have "asset_is_superset AssetsProxy AssetOwner" by (simp add: asset_is_superset_def)
  then have "asset_filter AssetOwner (Assets, ''create'') \<longrightarrow> asset_filter AssetsProxy (Assets, ''create'')"
    using proxy_order_is_inclusion [of AssetsProxy AssetOwner CAny CAny] by metis
  then show "asset_filter AssetsProxy (Assets, ''create'')" by simp
  have "asset_filter AssetsProxy (Assets, ''transfer'') \<and> \<not> asset_filter NonTransfer (Assets, ''transfer'')" by simp
  then show "\<not> asset_is_superset NonTransfer AssetsProxy"
    using proxy_order_is_inclusion [of NonTransfer AssetsProxy CAny CAny] by metis
qed

text \<open>A call that the last of a chain of proxies may make, all before it may make as well.\<close>

lemma asset_chain_allows:
  "successively asset_is_superset ts \<Longrightarrow> ts \<noteq> [] \<Longrightarrow> asset_filter (List.last ts) c \<Longrightarrow> t \<in> set ts \<Longrightarrow> asset_filter t c"
  by (rule asset_proxies.handed_on)

lemma collectives_chain_allows:
  "successively collectives_is_superset ts \<Longrightarrow> ts \<noteq> [] \<Longrightarrow> collectives_filter (List.last ts) c \<Longrightarrow> t \<in> set ts \<Longrightarrow>
     collectives_filter t c"
  by (rule collectives_proxies.handed_on)

text \<open>The proxy that may not transfer may make every call of the XCM pallet, teleports and reserve transfers among them.\<close>

lemma non_transfer_may_teleport: "asset_filter NonTransfer (PolkadotXcm, name)" "collectives_filter CNonTransfer (CPolkadotXcm, name)"
  by simp_all

end
