(* ===== verification/Runtime_Fees.thy ===== *)
theory Runtime_Fees
  imports Complex_Main Xcm_Interface Asset_Trader
begin

text \<open>
  Fees and deposits of the runtimes (\<^verbatim>\<open>constants.rs\<close> of the runtimes under \<^verbatim>\<open>src/parachains/runtimes\<close>,
  which differ only in the constants of their relay chain, and \<^verbatim>\<open>src/parachain-template/runtime/src/lib.rs\<close>) and
  the pallet of the template.  The constants of the
  relay chain, the base weight of an extrinsic and fractions in parts per billion are parameters.
\<close>

section \<open>Deposits and fees\<close>

definition deposit :: "(u32 \<Rightarrow> u32 \<Rightarrow> u128) \<Rightarrow> u32 \<Rightarrow> u32 \<Rightarrow> u128" where
  "deposit relay_deposit items bytes = relay_deposit items bytes div 100"

record 'pb weight_to_fee_coefficient =
  degree :: nat
  negative :: bool
  coeff_frac :: 'pb
  coeff_integer :: u128

text \<open>The polynomial with the rate \<open>p / (100 * base)\<close>; a base weight of zero divides by zero.\<close>

definition coefficients_of_rate :: "(u128 \<Rightarrow> u128 \<Rightarrow> 'pb) \<Rightarrow> u128 \<Rightarrow> u64 \<Rightarrow> 'pb weight_to_fee_coefficient list option" where
  "coefficients_of_rate from_rational p base =
     (let q = 100 * ucast base in
      if q = 0 then None
      else Some [\<lparr>degree = 1, negative = False, coeff_frac = from_rational (p mod q) q, coeff_integer = p div q\<rparr>])"

definition polynomial :: "(u128 \<Rightarrow> u128 \<Rightarrow> 'pb) \<Rightarrow> u128 \<Rightarrow> u64 \<Rightarrow> 'pb weight_to_fee_coefficient list option" where
  "polynomial from_rational cents extrinsic_base_weight = coefficients_of_rate from_rational cents extrinsic_base_weight"

definition MILLIUNIT :: u128 where
  "MILLIUNIT = 1000000000"

definition template_polynomial :: "(u128 \<Rightarrow> u128 \<Rightarrow> 'pb) \<Rightarrow> u64 \<Rightarrow> 'pb weight_to_fee_coefficient list option" where
  "template_polynomial from_rational extrinsic_base_weight =
     coefficients_of_rate from_rational (MILLIUNIT div 10) extrinsic_base_weight"

text \<open>The fee that the coefficients give for a weight, without rounding.\<close>

definition exact_fee :: "('pb \<Rightarrow> real) \<Rightarrow> 'pb weight_to_fee_coefficient list \<Rightarrow> u64 \<Rightarrow> real" where
  "exact_fee value cs weight =
     (\<Sum>c\<leftarrow>cs. (if negative c then -1 else 1) * (real (unat (coeff_integer c)) + value (coeff_frac c)) * real (unat weight) ^ degree c)"

text \<open>A fraction is represented to one part in a billion.\<close>

definition parts_per_billion :: "(u128 \<Rightarrow> u128 \<Rightarrow> 'pb) \<Rightarrow> ('pb \<Rightarrow> real) \<Rightarrow> bool" where
  "parts_per_billion from_rational value \<longleftrightarrow>
     (\<forall>n d. n < d \<longrightarrow> \<bar>value (from_rational n d) - real (unat n) / real (unat d)\<bar> \<le> 1 / 10 ^ 9)"

lemma hundred_bases:
  fixes base :: u64
  shows "unat (100 * ucast base :: u128) = 100 * unat base"
proof -
  have b: "unat base < 2 ^ 64" using unsigned_less [of base, where 'a = nat] by simp
  have u: "unat (ucast base :: u128) = unat base" by (simp add: unsigned_ucast_eq take_bit_nat_eq_self_iff less_trans [OF b])
  have "100 * unat base < 2 ^ LENGTH(128)" using b by simp
  then show ?thesis by (simp add: unat_word_ariths(2) u)
qed

lemma rounded_rate:
  fixes b d m v e :: real
  assumes "0 < b" "\<bar>v - m / (100 * b)\<bar> \<le> e"
  shows "\<bar>(d + v) * b - (d * (100 * b) + m) / 100\<bar> \<le> e * b"
proof -
  have "(d + v) * b - (d * (100 * b) + m) / 100 = (v - m / (100 * b)) * b" using assms(1) by (simp add: field_simps)
  then show ?thesis using assms mult_right_mono [OF assms(2), of b] by (simp add: abs_mult)
qed

lemma fee_of_rate:
  fixes base :: u64
  assumes "parts_per_billion from_rational value" "base \<noteq> 0"
  shows "\<exists>cs. coefficients_of_rate from_rational p base = Some cs \<and>
    \<bar>exact_fee value cs base - real (unat p) / 100\<bar> \<le> real (unat base) / 10 ^ 9"
proof -
  define q :: u128 where "q = 100 * ucast base"
  have "unat base \<noteq> 0" using assms(2) by (simp only: unat_eq_zero not_False_eq_True)
  then have b: "0 < real (unat base)" by (simp only: of_nat_0_less_iff neq0_conv)
  have q: "real (unat q) = 100 * real (unat base)" unfolding q_def hundred_bases by simp
  with b have q0: "q \<noteq> 0" by auto
  have "p mod q < q" using q0 by (simp add: word_mod_less_divisor word_gt_0)
  then have "\<bar>value (from_rational (p mod q) q) - real (unat (p mod q)) / real (unat q)\<bar> \<le> 1 / 10 ^ 9"
    using assms(1) unfolding parts_per_billion_def by blast
  note rounded_rate [OF b this [unfolded q], of "real (unat (p div q))"]
  moreover have "unat p = unat (p div q) * unat q + unat (p mod q)" by (simp add: unat_div unat_mod)
  then have "real (unat p) = real (unat (p div q)) * (100 * real (unat base)) + real (unat (p mod q))"
    unfolding q [symmetric] by (metis of_nat_add of_nat_mult)
  ultimately have "\<bar>(real (unat (p div q)) + value (from_rational (p mod q) q)) * real (unat base) - real (unat p) / 100\<bar> \<le>
      real (unat base) / 10 ^ 9"
    by (simp only: times_divide_eq_left mult_1)
  moreover have "coefficients_of_rate from_rational p base =
      Some [\<lparr>degree = 1, negative = False, coeff_frac = from_rational (p mod q) q, coeff_integer = p div q\<rparr>]"
    using q0 by (simp only: coefficients_of_rate_def Let_def q_def [symmetric] if_False)
  ultimately show ?thesis by (simp only: exact_fee_def) simp
qed

text \<open>The fee of the smallest extrinsic: up to the representation of fractions it is a hundredth of a cent on the chains of
  \<^verbatim>\<open>constants.rs\<close>, as their comments say, and a thousandth of a milliunit on chains made from the template.\<close>

theorem fee_of_base_weight:
  assumes "parts_per_billion from_rational value" "base \<noteq> 0"
  shows "\<exists>cs ds. polynomial from_rational cents base = Some cs \<and> template_polynomial from_rational base = Some ds \<and>
    \<bar>exact_fee value cs base - real (unat cents) / 100\<bar> \<le> real (unat base) / 10 ^ 9 \<and>
    \<bar>exact_fee value ds base - real (unat MILLIUNIT) / 1000\<bar> \<le> real (unat base) / 10 ^ 9"
proof -
  have "real (unat (MILLIUNIT div 10)) / 100 = real (unat MILLIUNIT) / 1000" by (simp add: MILLIUNIT_def unat_div)
  then show ?thesis
    using fee_of_rate [OF assms, of cents] fee_of_rate [OF assms, of "MILLIUNIT div 10"]
    unfolding polynomial_def template_polynomial_def by metis
qed

text \<open>Fractions without rounding, and a base weight of 125 microseconds.\<close>

definition exact_rational :: "u128 \<Rightarrow> u128 \<Rightarrow> real" where
  "exact_rational n d = real (unat n) / real (unat d)"

lemma exact_rational_ok: "parts_per_billion exact_rational id"
  by (simp add: parts_per_billion_def exact_rational_def)

theorem fee_of_base_weight_witness:
  "\<exists>cs ds. polynomial exact_rational 333333333 125000000 = Some cs \<and> template_polynomial exact_rational 125000000 = Some ds \<and>
    \<bar>exact_fee id cs 125000000 - 333333333 / 100\<bar> \<le> 125000000 / 10 ^ 9 \<and>
    \<bar>exact_fee id ds 125000000 - 10 ^ 9 / 1000\<bar> \<le> 125000000 / 10 ^ 9"
  using fee_of_base_weight [OF exact_rational_ok, of 125000000 333333333] by (simp add: MILLIUNIT_def)

section \<open>The pallet of the template\<close>

datatype template_error = NoneValue | StorageOverflow

datatype 'acc template_event = SomethingStored u32 'acc

record 'acc template_state =
  Something :: "u32 option"
  template_events :: "'acc template_event list"

definition do_something :: "'acc origin \<Rightarrow> u32 \<Rightarrow> 'acc template_state \<Rightarrow>
    (template_error dispatch_error, 'acc template_state) result" where
  "do_something origin something s =
     rbind (ensure_signed origin) (\<lambda>who.
     Inr (s\<lparr>Something := Some something, template_events := template_events s @ [SomethingStored something who]\<rparr>))"

definition checked_incr :: "u32 \<Rightarrow> u32 option" where
  "checked_incr n = (if n = - 1 then None else Some (n + 1))"

definition cause_error :: "'acc origin \<Rightarrow> 'acc template_state \<Rightarrow> (template_error dispatch_error, 'acc template_state) result" where
  "cause_error origin s =
     rbind (ensure_signed origin) (\<lambda>_.
     (case Something s of
        None \<Rightarrow> Inl (Module NoneValue)
      | Some old \<Rightarrow> rbind (ok_or (checked_incr old) (Module StorageOverflow)) (\<lambda>new. Inr (s\<lparr>Something := Some new\<rparr>))))"

fun cause_error_times :: "nat \<Rightarrow> 'acc origin \<Rightarrow> 'acc template_state \<Rightarrow> (template_error dispatch_error, 'acc template_state) result" where
  "cause_error_times 0 origin s = Inr s"
| "cause_error_times (Suc n) origin s = rbind (cause_error origin s) (cause_error_times n origin)"

text \<open>The stored number only counts up: \<open>n\<close> calls after storing \<open>v\<close> either overflow or leave \<open>v + n\<close>, without
  wrap-around.\<close>

lemma cause_error_times_counts:
  "Something s = Some v \<Longrightarrow> cause_error_times n (Signed who) s =
     (if unat v + n < 2 ^ 32 then Inr (s\<lparr>Something := Some (v + of_nat n)\<rparr>) else Inl (Module StorageOverflow))"
proof (induction n arbitrary: s v)
  case (Suc n)
  show ?case
  proof (cases "v = - 1")
    case True
    then have "unat v = 2 ^ 32 - 1" by (simp add: unsigned_minus_1_eq_mask mask_eq_exp_minus_1)
    then show ?thesis using Suc.prems True by (simp add: cause_error_def checked_incr_def rbind_def ok_or_def)
  next
    case False
    then have "v < - 1" by (simp add: order.not_eq_order_implies_strict)
    then have "unat (v + 1) = Suc (unat v)" by (rule word_Suc_le(1))
    then show ?thesis using Suc.prems False
      by (simp add: cause_error_def checked_incr_def rbind_def ok_or_def Suc.IH add.assoc)
  qed
qed (use unsigned_less [where 'b = 32 and 'a = nat] in simp)

end
