(* ===== verification/Collator_Weights.thy ===== *)
theory Collator_Weights
  imports Collator_Selection
begin

text \<open>
  The weights that benchmarks have assigned to collator selection (\<^verbatim>\<open>src/pallets/collator-selection/src/weights.rs\<close>
  and \<^verbatim>\<open>weights/pallet_collator_selection.rs\<close> of the runtimes), and what the pallet makes of them: the refund of
  its calls and the weight that a new session is charged with.
\<close>

section \<open>The weights\<close>

text \<open>The weight of database accesses is the choice of a runtime.\<close>

record db_weight =
  db_reads :: "u64 \<Rightarrow> weight"
  db_writes :: "u64 \<Rightarrow> weight"

text \<open>One \<open>WeightInfo\<close>.  The arguments of \<open>wi_new_session\<close> are, in this order, the number of removed candidates and
  the number of candidates, as the benchmark declares them.\<close>

record collator_weights =
  wi_set_invulnerables :: "u32 \<Rightarrow> weight"
  wi_set_desired_candidates :: weight
  wi_set_candidacy_bond :: weight
  wi_register_as_candidate :: "u32 \<Rightarrow> weight"
  wi_leave_intent :: "u32 \<Rightarrow> weight"
  wi_note_author :: weight
  wi_new_session :: "u32 \<Rightarrow> u32 \<Rightarrow> weight"

definition collator_substrate_weight :: "db_weight \<Rightarrow> collator_weights" where
  "collator_substrate_weight db = \<lparr>
     wi_set_invulnerables = (\<lambda>b. sat_add (sat_add 18563000 (sat_mul 68000 (ucast b))) (db_writes db 1)),
     wi_set_desired_candidates = sat_add 16363000 (db_writes db 1),
     wi_set_candidacy_bond = sat_add 16840000 (db_writes db 1),
     wi_register_as_candidate = (\<lambda>c. sat_add (sat_add (sat_add 71196000 (sat_mul 198000 (ucast c))) (db_reads db 4)) (db_writes db 2)),
     wi_leave_intent = (\<lambda>c. sat_add (sat_add (sat_add 55336000 (sat_mul 151000 (ucast c))) (db_reads db 1)) (db_writes db 2)),
     wi_note_author = sat_add (sat_add 71461000 (db_reads db 3)) (db_writes db 4),
     wi_new_session = (\<lambda>r c. sat_add (sat_add (sat_add (sat_add (sat_add (sat_add 0 (sat_mul 109961000 (ucast r))) (sat_mul 151952000 (ucast c)))
       (db_reads db (sat_mul 1 (ucast r)))) (db_reads db (sat_mul 2 (ucast c)))) (db_writes db (sat_mul 2 (ucast r)))) (db_writes db (sat_mul 2 (ucast c))))\<rparr>"

definition collator_default_weight :: "db_weight \<Rightarrow> collator_weights" where
  "collator_default_weight db = \<lparr>
     wi_set_invulnerables = (\<lambda>b. sat_add (sat_add 18563000 (sat_mul 68000 (ucast b))) (db_writes db 1)),
     wi_set_desired_candidates = sat_add 16363000 (db_writes db 1),
     wi_set_candidacy_bond = sat_add 16840000 (db_writes db 1),
     wi_register_as_candidate = (\<lambda>c. sat_add (sat_add (sat_add 71196000 (sat_mul 198000 (ucast c))) (db_reads db 4)) (db_writes db 2)),
     wi_leave_intent = (\<lambda>c. sat_add (sat_add (sat_add 55336000 (sat_mul 151000 (ucast c))) (db_reads db 1)) (db_writes db 2)),
     wi_note_author = sat_add (sat_add 71461000 (db_reads db 3)) (db_writes db 4),
     wi_new_session = (\<lambda>r c. sat_add (sat_add (sat_add (sat_add (sat_add (sat_add 0 (sat_mul 109961000 (ucast r))) (sat_mul 151952000 (ucast c)))
       (db_reads db (sat_mul 1 (ucast r)))) (db_reads db (sat_mul 2 (ucast c)))) (db_writes db (sat_mul 2 (ucast r)))) (db_writes db (sat_mul 2 (ucast c))))\<rparr>"

definition statemine_collator_weight :: "db_weight \<Rightarrow> collator_weights" where
  "statemine_collator_weight db = \<lparr>
     wi_set_invulnerables = (\<lambda>b. sat_add (sat_add (sat_add 8196000 (sat_mul 3354000 (ucast b))) (db_reads db (sat_mul 1 (ucast b)))) (db_writes db 1)),
     wi_set_desired_candidates = sat_add 9141000 (db_writes db 1),
     wi_set_candidacy_bond = sat_add 9554000 (db_writes db 1),
     wi_register_as_candidate = (\<lambda>c. sat_add (sat_add (sat_add 55660000 (sat_mul 103000 (ucast c))) (db_reads db 5)) (db_writes db 2)),
     wi_leave_intent = (\<lambda>c. sat_add (sat_add (sat_add 56380000 (sat_mul 113000 (ucast c))) (db_reads db 1)) (db_writes db 2)),
     wi_note_author = sat_add (sat_add 31852000 (db_reads db 3)) (db_writes db 4),
     wi_new_session = (\<lambda>r c. sat_add (sat_add (sat_add (sat_add (sat_add 0 (sat_mul 10780000 (ucast r))) (sat_mul 55238000 (ucast c)))
       (db_reads db (sat_mul 2 (ucast c)))) (db_writes db (sat_mul 1 (ucast r)))) (db_writes db (sat_mul 1 (ucast c))))\<rparr>"

definition statemint_collator_weight :: "db_weight \<Rightarrow> collator_weights" where
  "statemint_collator_weight db = \<lparr>
     wi_set_invulnerables = (\<lambda>b. sat_add (sat_add (sat_add 8587000 (sat_mul 3304000 (ucast b))) (db_reads db (sat_mul 1 (ucast b)))) (db_writes db 1)),
     wi_set_desired_candidates = sat_add 9027000 (db_writes db 1),
     wi_set_candidacy_bond = sat_add 9244000 (db_writes db 1),
     wi_register_as_candidate = (\<lambda>c. sat_add (sat_add (sat_add 60984000 (sat_mul 89000 (ucast c))) (db_reads db 5)) (db_writes db 2)),
     wi_leave_intent = (\<lambda>c. sat_add (sat_add (sat_add 49046000 (sat_mul 118000 (ucast c))) (db_reads db 1)) (db_writes db 2)),
     wi_note_author = sat_add (sat_add 32269000 (db_reads db 3)) (db_writes db 4),
     wi_new_session = (\<lambda>r c. sat_add (sat_add (sat_add (sat_add (sat_add 0 (sat_mul 10521000 (ucast r))) (sat_mul 53162000 (ucast c)))
       (db_reads db (sat_mul 2 (ucast c)))) (db_writes db (sat_mul 1 (ucast r)))) (db_writes db (sat_mul 1 (ucast c))))\<rparr>"

definition westmint_collator_weight :: "db_weight \<Rightarrow> collator_weights" where
  "westmint_collator_weight db = \<lparr>
     wi_set_invulnerables = (\<lambda>b. sat_add (sat_add (sat_add 6669000 (sat_mul 3218000 (ucast b))) (db_reads db (sat_mul 1 (ucast b)))) (db_writes db 1)),
     wi_set_desired_candidates = sat_add 8348000 (db_writes db 1),
     wi_set_candidacy_bond = sat_add 8592000 (db_writes db 1),
     wi_register_as_candidate = (\<lambda>c. sat_add (sat_add (sat_add 55542000 (sat_mul 92000 (ucast c))) (db_reads db 5)) (db_writes db 2)),
     wi_leave_intent = (\<lambda>c. sat_add (sat_add (sat_add 52080000 (sat_mul 109000 (ucast c))) (db_reads db 1)) (db_writes db 2)),
     wi_note_author = sat_add (sat_add 31546000 (db_reads db 3)) (db_writes db 4),
     wi_new_session = (\<lambda>r c. sat_add (sat_add (sat_add (sat_add (sat_add 0 (sat_mul 9941000 (ucast r))) (sat_mul 50628000 (ucast c)))
       (db_reads db (sat_mul 2 (ucast c)))) (db_writes db (sat_mul 1 (ucast r)))) (db_writes db (sat_mul 1 (ucast c))))\<rparr>"

definition collectives_collator_weight :: "db_weight \<Rightarrow> collator_weights" where
  "collectives_collator_weight db = \<lparr>
     wi_set_invulnerables = (\<lambda>b. sat_add (sat_add (sat_add 7128000 (sat_mul 3105000 (ucast b))) (db_reads db (sat_mul 1 (ucast b)))) (db_writes db 1)),
     wi_set_desired_candidates = sat_add 7922000 (db_writes db 1),
     wi_set_candidacy_bond = sat_add 8226000 (db_writes db 1),
     wi_register_as_candidate = (\<lambda>c. sat_add (sat_add (sat_add 56086000 (sat_mul 93000 (ucast c))) (db_reads db 5)) (db_writes db 2)),
     wi_leave_intent = (\<lambda>c. sat_add (sat_add (sat_add 58436000 (sat_mul 102000 (ucast c))) (db_reads db 1)) (db_writes db 2)),
     wi_note_author = sat_add (sat_add 29654000 (db_reads db 3)) (db_writes db 4),
     wi_new_session = (\<lambda>r c. sat_add (sat_add (sat_add (sat_add (sat_add 0 (sat_mul 9907000 (ucast r))) (sat_mul 50916000 (ucast c)))
       (db_reads db (sat_mul 2 (ucast c)))) (db_writes db (sat_mul 1 (ucast r)))) (db_writes db (sat_mul 1 (ucast c))))\<rparr>"

definition weight_infos :: "db_weight \<Rightarrow> collator_weights list" where
  "weight_infos db = [collator_substrate_weight db, collator_default_weight db, statemine_collator_weight db,
     statemint_collator_weight db, westmint_collator_weight db, collectives_collator_weight db]"

text \<open>The pallet configured with a \<open>WeightInfo\<close>.\<close>

definition with_weights :: "collator_weights \<Rightarrow> ('acc, 'v, 'w) cs_config \<Rightarrow> ('acc, 'v, 'w) cs_config" where
  "with_weights w cfg = cfg\<lparr>cs_weight_register := wi_register_as_candidate w, cs_weight_leave := wi_leave_intent w,
     cs_weight_note_author := wi_note_author w, cs_weight_new_session := wi_new_session w\<rparr>"

text \<open>The weight a call is charged with before it runs.\<close>

definition declared_register :: "('acc, 'v, 'w) cs_config \<Rightarrow> weight" where
  "declared_register cfg = cs_weight_register cfg (cs_max_candidates cfg)"

definition declared_leave :: "('acc, 'v, 'w) cs_config \<Rightarrow> weight" where
  "declared_leave cfg = cs_weight_leave cfg (cs_max_candidates cfg)"

section \<open>Refunds\<close>

lemma of_nat_le_word: "n \<le> unat w \<Longrightarrow> of_nat n \<le> w"
  unfolding word_le_nat_alt unat_of_nat using mod_less_eq_dividend by (rule order_trans)

lemma length_remove_at_le: "length (remove_at i xs) \<le> length xs"
  by (simp add: remove_at_def)

text \<open>What a \<open>WeightInfo\<close> has to promise for the pallet's refunds: more candidates never weigh less.\<close>

locale weight_info =
  fixes w :: collator_weights
  assumes register_mono: "c \<le> c' \<Longrightarrow> wi_register_as_candidate w c \<le> wi_register_as_candidate w c'"
    and leave_mono: "c \<le> c' \<Longrightarrow> wi_leave_intent w c \<le> wi_leave_intent w c'"
begin

lemma register_refund:
  assumes "register_as_candidate (with_weights w cfg) origin s = Inr (actual, s')"
  shows "actual \<le> declared_register (with_weights w cfg)"
proof -
  have len: "Suc (length (Candidates s)) \<le> unat (cs_max_candidates cfg)"
    and actual: "actual = wi_register_as_candidate w (of_nat (Suc (length (Candidates s))))"
    using assms by (auto simp: register_as_candidate_Inr with_weights_def)
  show ?thesis unfolding actual
    using register_mono [OF of_nat_le_word [OF len]] by (simp add: declared_register_def with_weights_def)
qed

lemma leave_refund:
  assumes "leave_intent (with_weights w cfg) origin s = Inr (actual, s')"
    and "length (Candidates s) \<le> unat (cs_max_candidates cfg)"
  shows "actual \<le> declared_leave (with_weights w cfg)"
proof -
  obtain n where actual: "actual = wi_leave_intent w (of_nat n)" and "n \<le> length (Candidates s)"
    using assms(1) by (auto simp: leave_intent_def try_remove_candidate_def result_simps with_weights_def Let_def length_remove_at_le)
  with assms(2) have "n \<le> unat (cs_max_candidates cfg)" by simp
  from leave_mono [OF of_nat_le_word [OF this]] show ?thesis
    by (simp add: actual declared_leave_def with_weights_def)
qed

end

interpretation substrate: weight_info "collator_substrate_weight db" for db
  by unfold_locales (simp_all add: collator_substrate_weight_def weight_mono)

interpretation unit: weight_info "collator_default_weight db" for db
  by unfold_locales (simp_all add: collator_default_weight_def weight_mono)

interpretation statemine: weight_info "statemine_collator_weight db" for db
  by unfold_locales (simp_all add: statemine_collator_weight_def weight_mono)

interpretation statemint: weight_info "statemint_collator_weight db" for db
  by unfold_locales (simp_all add: statemint_collator_weight_def weight_mono)

interpretation westmint: weight_info "westmint_collator_weight db" for db
  by unfold_locales (simp_all add: westmint_collator_weight_def weight_mono)

interpretation collectives: weight_info "collectives_collator_weight db" for db
  by unfold_locales (simp_all add: collectives_collator_weight_def weight_mono)

lemma weight_infos_weight_info: "w \<in> set (weight_infos db) \<Longrightarrow> weight_info w"
  by (auto simp: weight_infos_def substrate.weight_info_axioms unit.weight_info_axioms statemine.weight_info_axioms
      statemint.weight_info_axioms westmint.weight_info_axioms collectives.weight_info_axioms)

text \<open>With every one of the weights, a call that succeeds in a reachable state reports an actual weight that is at most the
  weight it was charged with, so the difference is a refund.\<close>

theorem candidate_calls_refund:
  assumes "w \<in> set (weight_infos db)" "cs_reachable (with_weights w cfg) s"
  shows "(register_as_candidate (with_weights w cfg) origin s = Inr (actual, s') \<longrightarrow> actual \<le> declared_register (with_weights w cfg)) \<and>
    (leave_intent (with_weights w cfg) origin s = Inr (actual, s') \<longrightarrow> actual \<le> declared_leave (with_weights w cfg))"
proof -
  note w = weight_infos_weight_info [OF assms(1)]
  have "length (Candidates s) \<le> unat (cs_max_candidates cfg)"
    using cs_reachable_inv [OF assms(2)] by (simp add: cs_inv_def with_weights_def)
  then show ?thesis
    using weight_info.register_refund [OF w] weight_info.leave_refund [OF w] by blast
qed

section \<open>New sessions\<close>

text \<open>The database weights are a constant times the number of accesses.\<close>

definition linear_db :: "db_weight \<Rightarrow> bool" where
  "linear_db db \<longleftrightarrow> (\<exists>rd wr. rd \<le> 1000000000000 \<and> wr \<le> 1000000000000 \<and> db_reads db = sat_mul rd \<and> db_writes db = sat_mul wr)"

lemma unat_foldl_sat_add:
  "unat (foldl sat_add a bs) = min (unat a + sum_list (map unat bs)) (2 ^ LENGTH('a) - 1)" for a :: "'a::len word"
proof (induction bs arbitrary: a)
  case Nil
  have "unat a \<le> 2 ^ LENGTH('a) - 1" using unsigned_less [of a, where 'a = nat] by linarith
  then show ?case by simp
next
  case (Cons b bs)
  have "min (min x m + y) m = min (x + y) m" for x y m :: nat by linarith
  then show ?case unfolding foldl.simps Cons.IH unat_sat_add by (simp add: add.assoc)
qed

lemma unat_sat_mul_exact: "unat a * unat b < 2 ^ 64 \<Longrightarrow> unat (sat_mul a b) = unat a * unat b" for a b :: u64
  by (simp add: unat_sat_mul min_def)

lemma unat_of_count: "n \<le> 1000 \<Longrightarrow> unat (ucast (of_nat n :: u32) :: u64) = n"
  by (simp add: unat_ucast_u64 unat_of_nat_u32)

lemma small_products:
  assumes "n \<le> 1000" "k \<le> 2" "rd \<le> (1000000000000 :: u64)"
  shows "unat (sat_mul rd (sat_mul (of_nat k) (ucast (of_nat n :: u32)))) = k * (unat rd * n)"
proof -
  have k: "unat (sat_mul (of_nat k :: u64) (ucast (of_nat n :: u32))) = k * n"
    using assms mult_le_mono [OF assms(2,1)] by (subst unat_sat_mul_exact) (simp_all add: unat_of_count unat_of_nat take_bit_nat_eq_self)
  have "unat rd * (k * n) \<le> 1000000000000 * (2 * 1000)"
    using assms(3) by (intro mult_le_mono assms) (simp_all add: word_le_nat_alt)
  then show ?thesis by (subst unat_sat_mul_exact) (simp_all add: k mult.left_commute)
qed

lemma sat_sum_less:
  assumes "sum_list (map unat xs) < sum_list (map unat ys)" "sum_list (map unat xs) < 2 ^ 63"
  shows "foldl sat_add 0 xs < (foldl sat_add 0 ys :: u64)"
  using assms by (simp add: word_less_nat_alt unat_foldl_sat_add min_def)

lemma swap_less:
  assumes "a < b" "m < (n :: nat)"
  shows "a * n + b * m < a * m + b * n"
proof -
  obtain d e where "b = a + d" "n = m + e" "0 < d" "0 < e" using assms by (metis less_imp_add_positive)
  then show ?thesis by (simp add: algebra_simps)
qed

lemma small_product: "n \<le> 1000 \<Longrightarrow> a \<le> (1000000000000 :: u64) \<Longrightarrow> unat (sat_mul a (ucast (of_nat n :: u32))) = unat a * n"
  using small_products [of n 1 a] by simp

lemmas count_products = small_product small_products [where k = 2, unfolded of_nat_numeral, OF _ order_refl]

lemma product_bound: "a \<le> (1000000000000 :: u64) \<Longrightarrow> n \<le> 1000 \<Longrightarrow> unat a * n \<le> 1000000000000 * 1000"
  by (intro mult_le_mono) (simp_all add: word_le_nat_alt)

text \<open>The two forms that the weight of a session has, with the counts in the wrong and in the right order.\<close>

lemma session_swapped:
  fixes rd wr a b :: u64
  assumes "rd \<le> 1000000000000" "wr \<le> 1000000000000" "b \<le> 1000000000000" "a < b" "m < n" "n \<le> 1000"
  defines "r \<equiv> ucast (of_nat m :: u32) :: u64" and "c \<equiv> ucast (of_nat n :: u32) :: u64"
  shows "foldl sat_add 0 [sat_mul a c, sat_mul b r, sat_mul rd (sat_mul 1 c), sat_mul rd (sat_mul 2 r),
       sat_mul wr (sat_mul 2 c), sat_mul wr (sat_mul 2 r)] <
     foldl sat_add 0 [sat_mul a r, sat_mul b c, sat_mul rd (sat_mul 1 r), sat_mul rd (sat_mul 2 c),
       sat_mul wr (sat_mul 2 r), sat_mul wr (sat_mul 2 c)]" (is ?full)
    and "foldl sat_add 0 [sat_mul a c, sat_mul b r, sat_mul rd (sat_mul 2 r), sat_mul wr (sat_mul 1 c), sat_mul wr (sat_mul 1 r)] <
     foldl sat_add 0 [sat_mul a r, sat_mul b c, sat_mul rd (sat_mul 2 c), sat_mul wr (sat_mul 1 r), sat_mul wr (sat_mul 1 c)]" (is ?short)
proof -
  have m: "m \<le> 1000" "m \<le> n" and a: "a \<le> 1000000000000" using assms by auto
  note eqs = count_products [OF m(1) assms(1)] count_products [OF m(1) assms(2)] count_products [OF assms(6,1)] count_products [OF assms(6,2)]
    small_product [OF m(1) a] small_product [OF m(1) assms(3)] small_product [OF assms(6) a] small_product [OF assms(6) assms(3)]
  have less: "unat a * n + unat b * m < unat a * m + unat b * n"
    using assms by (intro swap_less) (simp_all add: word_less_nat_alt)
  have le: "unat rd * m \<le> unat rd * n" "m * unat rd \<le> n * unat rd" using m(2) by simp_all
  note bounds = product_bound [OF a assms(6)] product_bound [OF assms(3) m(1)] product_bound [OF assms(1,6)] product_bound [OF assms(1) m(1)]
    product_bound [OF assms(2,6)] product_bound [OF assms(2) m(1)]
  show ?full
    by (rule sat_sum_less) (simp_all add: r_def c_def eqs, (use less le bounds in linarith)+)
  show ?short
    by (rule sat_sum_less) (simp_all add: r_def c_def eqs, (use less le bounds in linarith)+)
qed

lemma weight_infos_swapped:
  assumes "w \<in> set (weight_infos db)" "linear_db db" "m < n" "n \<le> 1000"
  shows "wi_new_session w (of_nat n) (of_nat m) < wi_new_session w (of_nat m) (of_nat n)"
proof -
  obtain rd wr where db: "rd \<le> 1000000000000" "wr \<le> 1000000000000" "db_reads db = sat_mul rd" "db_writes db = sat_mul wr"
    using assms(2) by (auto simp: linear_db_def)
  note swapped = session_swapped [OF db(1,2) _ _ assms(3,4), simplified]
  show ?thesis
    using assms(1) by (auto simp: weight_infos_def collator_substrate_weight_def collator_default_weight_def
        statemine_collator_weight_def statemint_collator_weight_def westmint_collator_weight_def collectives_collator_weight_def
        db(3,4) intro!: swapped)
qed

text \<open>C40. A new session is charged too little: the pallet passes the number of candidates where the weights expect the number of
  removed ones and the other way round.  Whenever at least one of the candidates stays, the weight that is registered is
  less than the weight of a session with that many candidates, of which that many are removed.\<close>

theorem new_session_charges_too_little:
  assumes "w \<in> set (weight_infos db)" "linear_db db" "cs_reachable (with_weights w cfg) s" "cs_max_candidates cfg \<le> 1000"
    and "kick_stale_candidates (with_weights w cfg) (Candidates s) s = (active, s1)" "active \<noteq> []"
    and "new_session (with_weights w cfg) s = (collators, s')"
  shows "last (cs_extra_weight s') <
    wi_new_session w (of_nat (length (Candidates s) - length active)) (of_nat (length (Candidates s)))"
proof -
  have len: "length (Candidates s) \<le> 1000"
    using cs_reachable_inv [OF assms(3)] assms(4) by (simp add: cs_inv_def with_weights_def word_le_nat_alt)
  have "length active \<le> length (Candidates s)"
    using kick_stale_candidates_result(1,2) [OF cs_reachable_inv [OF assms(3)] assms(5)] by simp
  with assms(6) have "length (Candidates s) - length active < length (Candidates s)" by (cases active) auto
  from weight_infos_swapped [OF assms(1,2) this len] show ?thesis
    using assms(5,7) by (auto simp: new_session_def Let_def with_weights_def)
qed

text \<open>RocksDB weights, and the two candidates of the example chain under the weights of Statemine.\<close>

definition rocks_db :: db_weight where
  "rocks_db = \<lparr>db_reads = sat_mul 25000000, db_writes = sat_mul 100000000\<rparr>"

lemma rocks_db_linear: "linear_db rocks_db"
  unfolding linear_db_def rocks_db_def by (rule exI [of _ 25000000], rule exI [of _ 100000000]) simp

definition weighed_cs :: "(nat, nat, nat \<Rightarrow> balance) cs_config" where
  "weighed_cs = with_weights (statemine_collator_weight rocks_db) toy_cs"

lemma register_with_weights:
  "register_as_candidate cfg origin s = Inr (x, s') \<Longrightarrow> \<exists>x'. register_as_candidate (with_weights w cfg) origin s = Inr (x', s')"
  by (auto simp: register_as_candidate_Inr with_weights_def check_validator_def)

lemma weighed_cs_reachable: "cs_reachable weighed_cs toy_cs_state"
proof -
  let ?s1 = "snd (projr (register_as_candidate toy_cs (Signed 1) toy_cs_start))"
  have start: "cs_reachable weighed_cs toy_cs_start"
    by (rule cs_start [of _ "[7]" 20 4 "\<lambda>_. 0"]) (simp add: cs_genesis_build_def weighed_cs_def with_weights_def toy_cs_def toy_cs_start_def)
  obtain x y where "register_as_candidate toy_cs (Signed 1) toy_cs_start = Inr (x, ?s1)"
    "register_as_candidate toy_cs (Signed 2) ?s1 = Inr (y, toy_cs_state)"
    using toy_cs_registers unfolding toy_cs_state_def by (metis prod.collapse sum.sel(2))
  with start show ?thesis
    unfolding weighed_cs_def by (meson cs_register register_with_weights)
qed

lemma statemine_weight_info: "statemine_collator_weight rocks_db \<in> set (weight_infos rocks_db)"
  by (simp add: weight_infos_def)

theorem candidate_calls_refund_witness:
  "\<exists>actual s'. leave_intent weighed_cs (Signed 1) toy_cs_state = Inr (actual, s') \<and> actual \<le> declared_leave weighed_cs"
proof -
  have "isl (leave_intent weighed_cs (Signed 1) toy_cs_state) = False" by code_simp
  then obtain actual s' where r: "leave_intent weighed_cs (Signed 1) toy_cs_state = Inr (actual, s')"
    by (cases "leave_intent weighed_cs (Signed 1) toy_cs_state") auto
  from candidate_calls_refund [OF statemine_weight_info weighed_cs_reachable [unfolded weighed_cs_def]] r
  show ?thesis unfolding weighed_cs_def by blast
qed

theorem new_session_charges_too_little_witness:
  "last (cs_extra_weight (snd (new_session weighed_cs (toy_cs_state\<lparr>cs_block_number := 30, cs_world := (\<lambda>_. 40)\<rparr>)))) <
     wi_new_session (statemine_collator_weight rocks_db) 1 2"
proof -
  let ?s = "toy_cs_state\<lparr>cs_block_number := 30, cs_world := (\<lambda>_. 40)\<rparr>"
  have reach: "cs_reachable weighed_cs ?s" by (rule cs_environment [OF weighed_cs_reachable])
  have kept: "fst (kick_stale_candidates weighed_cs (Candidates ?s) ?s) = [2]" by code_simp
  then obtain s1 where kick: "kick_stale_candidates weighed_cs (Candidates ?s) ?s = ([2], s1)"
    by (cases "kick_stale_candidates weighed_cs (Candidates ?s) ?s") auto
  obtain collators s' where session: "new_session weighed_cs ?s = (collators, s')" by fastforce
  have "length (Candidates ?s) = 2" "cs_max_candidates toy_cs \<le> 1000" by code_simp+
  then show ?thesis
    using new_session_charges_too_little [OF statemine_weight_info rocks_db_linear reach [unfolded weighed_cs_def] _
        kick [unfolded weighed_cs_def] _ session [unfolded weighed_cs_def]]
    by (simp add: session)
qed

end
