(* ===== verification/Xcm_Weights.thy ===== *)
theory Xcm_Weights
  imports Collator_Weights
begin

text \<open>
  The weights of XCM instructions on the asset chains (\<^verbatim>\<open>weights/xcm\<close> of the runtimes statemine, statemint and
  westmint under \<^verbatim>\<open>src/parachains/runtimes/assets\<close>).  The three modules have one text up to the names of their types;
  they differ in the benchmarked weights.
\<close>

section \<open>Benchmarked weights\<close>

record xcm_fungible_weights =
  xf_withdraw_asset :: weight
  xf_transfer_asset :: weight
  xf_transfer_reserve_asset :: weight
  xf_receive_teleported_asset :: weight
  xf_deposit_asset :: weight
  xf_deposit_reserve_asset :: weight
  xf_initiate_teleport :: weight

record xcm_generic_weights =
  xg_query_holding :: weight
  xg_buy_execution :: weight
  xg_query_response :: weight
  xg_transact :: weight
  xg_refund_surplus :: weight
  xg_set_error_handler :: weight
  xg_set_appendix :: weight
  xg_clear_error :: weight
  xg_descend_origin :: weight
  xg_clear_origin :: weight
  xg_report_error :: weight
  xg_claim_asset :: weight
  xg_trap :: weight
  xg_subscribe_version :: weight
  xg_unsubscribe_version :: weight
  xg_initiate_reserve_withdraw :: weight

definition statemine_xcm_fungible :: "db_weight \<Rightarrow> xcm_fungible_weights" where
  "statemine_xcm_fungible db = \<lparr>
     xf_withdraw_asset = sat_add (sat_add 29190000 (db_reads db 1)) (db_writes db 1),
     xf_transfer_asset = sat_add (sat_add 34102000 (db_reads db 2)) (db_writes db 2),
     xf_transfer_reserve_asset = sat_add (sat_add 49386000 (db_reads db 8)) (db_writes db 4),
     xf_receive_teleported_asset = 4937000,
     xf_deposit_asset = sat_add (sat_add 30853000 (db_reads db 1)) (db_writes db 1),
     xf_deposit_reserve_asset = sat_add (sat_add 45866000 (db_reads db 7)) (db_writes db 3),
     xf_initiate_teleport = sat_add (sat_add 23964000 (db_reads db 6)) (db_writes db 2)\<rparr>"

definition statemine_xcm_generic :: "db_weight \<Rightarrow> xcm_generic_weights" where
  "statemine_xcm_generic db = \<lparr>
     xg_query_holding = sat_add (sat_add 694466000 (db_reads db 6)) (db_writes db 2),
     xg_buy_execution = 7095000,
     xg_query_response = sat_add 13270000 (db_reads db 1),
     xg_transact = 16375000,
     xg_refund_surplus = 7319000,
     xg_set_error_handler = 3515000,
     xg_set_appendix = 3501000,
     xg_clear_error = 3459000,
     xg_descend_origin = 4319000,
     xg_clear_origin = 3511000,
     xg_report_error = sat_add (sat_add 13284000 (db_reads db 5)) (db_writes db 2),
     xg_claim_asset = sat_add (sat_add 7985000 (db_reads db 1)) (db_writes db 1),
     xg_trap = 3515000,
     xg_subscribe_version = sat_add (sat_add 16657000 (db_reads db 6)) (db_writes db 3),
     xg_unsubscribe_version = sat_add 5622000 (db_writes db 1),
     xg_initiate_reserve_withdraw = sat_add (sat_add 878786000 (db_reads db 6)) (db_writes db 2)\<rparr>"

definition statemint_xcm_fungible :: "db_weight \<Rightarrow> xcm_fungible_weights" where
  "statemint_xcm_fungible db = \<lparr>
     xf_withdraw_asset = sat_add (sat_add 34002000 (db_reads db 1)) (db_writes db 1),
     xf_transfer_asset = sat_add (sat_add 38285000 (db_reads db 2)) (db_writes db 2),
     xf_transfer_reserve_asset = sat_add (sat_add 55068000 (db_reads db 8)) (db_writes db 4),
     xf_receive_teleported_asset = 7796000,
     xf_deposit_asset = sat_add (sat_add 35092000 (db_reads db 1)) (db_writes db 1),
     xf_deposit_reserve_asset = sat_add (sat_add 50590000 (db_reads db 7)) (db_writes db 3),
     xf_initiate_teleport = sat_add (sat_add 27220000 (db_reads db 6)) (db_writes db 2)\<rparr>"

definition statemint_xcm_generic :: "db_weight \<Rightarrow> xcm_generic_weights" where
  "statemint_xcm_generic db = \<lparr>
     xg_query_holding = sat_add (sat_add 682639000 (db_reads db 6)) (db_writes db 2),
     xg_buy_execution = 9272000,
     xg_query_response = sat_add 17084000 (db_reads db 1),
     xg_transact = 20265000,
     xg_refund_surplus = 9422000,
     xg_set_error_handler = 5545000,
     xg_set_appendix = 5450000,
     xg_clear_error = 5519000,
     xg_descend_origin = 6398000,
     xg_clear_origin = 5498000,
     xg_report_error = sat_add (sat_add 15784000 (db_reads db 5)) (db_writes db 2),
     xg_claim_asset = sat_add (sat_add 11861000 (db_reads db 1)) (db_writes db 1),
     xg_trap = 5462000,
     xg_subscribe_version = sat_add (sat_add 18997000 (db_reads db 6)) (db_writes db 3),
     xg_unsubscribe_version = sat_add 8684000 (db_writes db 1),
     xg_initiate_reserve_withdraw = sat_add (sat_add 883121000 (db_reads db 6)) (db_writes db 2)\<rparr>"

definition westmint_xcm_fungible :: "db_weight \<Rightarrow> xcm_fungible_weights" where
  "westmint_xcm_fungible db = \<lparr>
     xf_withdraw_asset = sat_add (sat_add 28725000 (db_reads db 1)) (db_writes db 1),
     xf_transfer_asset = sat_add (sat_add 33865000 (db_reads db 2)) (db_writes db 2),
     xf_transfer_reserve_asset = sat_add (sat_add 48839000 (db_reads db 8)) (db_writes db 4),
     xf_receive_teleported_asset = 4849000,
     xf_deposit_asset = sat_add (sat_add 29778000 (db_reads db 1)) (db_writes db 1),
     xf_deposit_reserve_asset = sat_add (sat_add 45355000 (db_reads db 7)) (db_writes db 3),
     xf_initiate_teleport = sat_add (sat_add 23451000 (db_reads db 6)) (db_writes db 2)\<rparr>"

definition westmint_xcm_generic :: "db_weight \<Rightarrow> xcm_generic_weights" where
  "westmint_xcm_generic db = \<lparr>
     xg_query_holding = sat_add (sat_add 676316000 (db_reads db 6)) (db_writes db 2),
     xg_buy_execution = 7030000,
     xg_query_response = sat_add 12574000 (db_reads db 1),
     xg_transact = 15764000,
     xg_refund_surplus = 7200000,
     xg_set_error_handler = 3310000,
     xg_set_appendix = 3260000,
     xg_clear_error = 3277000,
     xg_descend_origin = 3913000,
     xg_clear_origin = 3354000,
     xg_report_error = sat_add (sat_add 13028000 (db_reads db 5)) (db_writes db 2),
     xg_claim_asset = sat_add (sat_add 7739000 (db_reads db 1)) (db_writes db 1),
     xg_trap = 3351000,
     xg_subscribe_version = sat_add (sat_add 16051000 (db_reads db 6)) (db_writes db 3),
     xg_unsubscribe_version = sat_add 5477000 (db_writes db 1),
     xg_initiate_reserve_withdraw = sat_add (sat_add 874435000 (db_reads db 6)) (db_writes db 2)\<rparr>"

section \<open>Weights of instructions\<close>

datatype 'asset multi_asset_filter = Definite "'asset list" | Wild

text \<open>The instructions by the methods of \<open>XcmWeightInfo\<close>, with the arguments that the methods read.\<close>

datatype 'asset weighed_instruction =
    WithdrawAsset "'asset list"
  | ReserveAssetDeposited
  | ReceiveTeleportedAsset "'asset list"
  | QueryResponse
  | TransferAsset "'asset list"
  | TransferReserveAsset "'asset list"
  | Transact
  | HrmpNewChannelOpenRequest
  | HrmpChannelAccepted
  | HrmpChannelClosing
  | ClearOrigin
  | DescendOrigin
  | ReportError
  | DepositAsset "'asset multi_asset_filter"
  | DepositReserveAsset "'asset multi_asset_filter"
  | ExchangeAsset
  | InitiateReserveWithdraw "'asset multi_asset_filter"
  | InitiateTeleport "'asset multi_asset_filter"
  | QueryHolding
  | BuyExecution
  | RefundSurplus
  | SetErrorHandler
  | SetAppendix
  | ClearError
  | ClaimAsset
  | Trap
  | SubscribeVersion
  | UnsubscribeVersion

definition MAX_ASSETS :: u32 where
  "MAX_ASSETS = 100"

definition weigh_multi_assets :: "'asset list \<Rightarrow> weight \<Rightarrow> u64" where
  "weigh_multi_assets assets w = sat_mul w (of_nat (length assets))"

fun weigh_asset_filter :: "'asset multi_asset_filter \<Rightarrow> weight \<Rightarrow> u64" where
  "weigh_asset_filter (Definite assets) w = sat_mul w (of_nat (length assets))"
| "weigh_asset_filter Wild w = sat_mul w (ucast MAX_ASSETS)"

fun xcm_weight :: "xcm_fungible_weights \<Rightarrow> xcm_generic_weights \<Rightarrow> 'asset weighed_instruction \<Rightarrow> u64" where
  "xcm_weight f g (WithdrawAsset assets) = weigh_multi_assets assets (xf_withdraw_asset f)"
| "xcm_weight f g ReserveAssetDeposited = - 1"
| "xcm_weight f g (ReceiveTeleportedAsset assets) = weigh_multi_assets assets (xf_receive_teleported_asset f)"
| "xcm_weight f g QueryResponse = xg_query_response g"
| "xcm_weight f g (TransferAsset assets) = weigh_multi_assets assets (xf_transfer_asset f)"
| "xcm_weight f g (TransferReserveAsset assets) = weigh_multi_assets assets (xf_transfer_reserve_asset f)"
| "xcm_weight f g Transact = xg_transact g"
| "xcm_weight f g HrmpNewChannelOpenRequest = - 1"
| "xcm_weight f g HrmpChannelAccepted = - 1"
| "xcm_weight f g HrmpChannelClosing = - 1"
| "xcm_weight f g ClearOrigin = xg_clear_origin g"
| "xcm_weight f g DescendOrigin = xg_descend_origin g"
| "xcm_weight f g ReportError = xg_report_error g"
| "xcm_weight f g (DepositAsset assets) =
     (let hardcoded_weight = 1000000000; w = weigh_asset_filter assets (xf_deposit_asset f)
      in min hardcoded_weight w)"
| "xcm_weight f g (DepositReserveAsset assets) = weigh_asset_filter assets (xf_deposit_reserve_asset f)"
| "xcm_weight f g ExchangeAsset = - 1"
| "xcm_weight f g (InitiateReserveWithdraw assets) = weigh_asset_filter assets (xg_initiate_reserve_withdraw g)"
| "xcm_weight f g (InitiateTeleport assets) =
     (let hardcoded_weight = 200000000; w = weigh_asset_filter assets (xf_initiate_teleport f)
      in min hardcoded_weight w)"
| "xcm_weight f g QueryHolding = xg_query_holding g"
| "xcm_weight f g BuyExecution = xg_buy_execution g"
| "xcm_weight f g RefundSurplus = xg_refund_surplus g"
| "xcm_weight f g SetErrorHandler = xg_set_error_handler g"
| "xcm_weight f g SetAppendix = xg_set_appendix g"
| "xcm_weight f g ClearError = xg_clear_error g"
| "xcm_weight f g ClaimAsset = xg_claim_asset g"
| "xcm_weight f g Trap = xg_trap g"
| "xcm_weight f g SubscribeVersion = xg_subscribe_version g"
| "xcm_weight f g UnsubscribeVersion = xg_unsubscribe_version g"

definition statemine_xcm_weight :: "db_weight \<Rightarrow> 'asset weighed_instruction \<Rightarrow> u64" where
  "statemine_xcm_weight db = xcm_weight (statemine_xcm_fungible db) (statemine_xcm_generic db)"

definition statemint_xcm_weight :: "db_weight \<Rightarrow> 'asset weighed_instruction \<Rightarrow> u64" where
  "statemint_xcm_weight db = xcm_weight (statemint_xcm_fungible db) (statemint_xcm_generic db)"

definition westmint_xcm_weight :: "db_weight \<Rightarrow> 'asset weighed_instruction \<Rightarrow> u64" where
  "westmint_xcm_weight db = xcm_weight (westmint_xcm_fungible db) (westmint_xcm_generic db)"

definition MaxInstructions :: u32 where
  "MaxInstructions = 100"

section \<open>Bounds\<close>

text \<open>Instructions that the chains refuse by their weight, and the number of assets in an instruction.\<close>

fun refused :: "'asset weighed_instruction \<Rightarrow> bool" where
  "refused i = (i \<in> {ReserveAssetDeposited, HrmpNewChannelOpenRequest, HrmpChannelAccepted, HrmpChannelClosing, ExchangeAsset})"

fun filter_assets :: "'asset multi_asset_filter \<Rightarrow> nat" where
  "filter_assets (Definite assets) = length assets"
| "filter_assets Wild = 0"

fun instruction_assets :: "'asset weighed_instruction \<Rightarrow> nat" where
  "instruction_assets (WithdrawAsset assets) = length assets"
| "instruction_assets (ReceiveTeleportedAsset assets) = length assets"
| "instruction_assets (TransferAsset assets) = length assets"
| "instruction_assets (TransferReserveAsset assets) = length assets"
| "instruction_assets (DepositAsset assets) = filter_assets assets"
| "instruction_assets (DepositReserveAsset assets) = filter_assets assets"
| "instruction_assets (InitiateReserveWithdraw assets) = filter_assets assets"
| "instruction_assets (InitiateTeleport assets) = filter_assets assets"
| "instruction_assets _ = 0"

lemma weigh_assets_bound:
  assumes "w \<le> 20000000000000" "length assets \<le> 100"
  shows "unat (weigh_multi_assets assets w) \<le> 2000000000000000"
proof -
  have "unat w * unat (of_nat (length assets) :: u64) \<le> 20000000000000 * 100"
    using assms by (intro mult_le_mono) (simp_all add: word_le_nat_alt unat_of_nat take_bit_nat_eq_self)
  then show ?thesis by (simp add: weigh_multi_assets_def unat_sat_mul)
qed

lemma weigh_filter_bound:
  assumes "w \<le> 20000000000000" "filter_assets assets \<le> 100"
  shows "unat (weigh_asset_filter assets w) \<le> 2000000000000000"
proof (cases assets)
  case (Definite as)
  with weigh_assets_bound [of w as] assms show ?thesis by (simp add: weigh_multi_assets_def)
next
  case Wild
  have "unat w * 100 \<le> 20000000000000 * 100"
    using assms by (intro mult_le_mono) (simp_all add: word_le_nat_alt)
  then show ?thesis by (simp add: Wild unat_sat_mul MAX_ASSETS_def)
qed

text \<open>What the benchmarked weights have to satisfy: none is close to overflowing.\<close>

locale xcm_weight_info =
  fixes f :: xcm_fungible_weights and g :: xcm_generic_weights
  assumes fungible_bounded: "list_all (\<lambda>w. w \<le> 20000000000000) [xf_withdraw_asset f, xf_transfer_asset f, xf_transfer_reserve_asset f, xf_receive_teleported_asset f, 
      xf_deposit_asset f, xf_deposit_reserve_asset f, xf_initiate_teleport f]"
    and generic_bounded: "list_all (\<lambda>w. w \<le> 20000000000000) [xg_query_holding g, xg_buy_execution g, xg_query_response g, xg_transact g, xg_refund_surplus g, 
      xg_set_error_handler g, xg_set_appendix g, xg_clear_error g, xg_descend_origin g, xg_clear_origin g, xg_report_error g, 
      xg_claim_asset g, xg_trap g, xg_subscribe_version g, xg_unsubscribe_version g, xg_initiate_reserve_withdraw g]"
begin

lemmas field_bounds = fungible_bounded [unfolded list.pred_inject] generic_bounded [unfolded list.pred_inject]

lemma supported_weight:
  assumes "\<not> refused i" "instruction_assets i \<le> 100"
  shows "unat (xcm_weight f g i) \<le> 2000000000000000"
  using assms field_bounds
  by (cases i) (auto simp: word_le_nat_alt min_def intro!: weigh_assets_bound weigh_filter_bound)

lemma refused_weight: "refused i \<Longrightarrow> unat (xcm_weight f g i) = 2 ^ 64 - 1"
  by (cases i) (auto simp: unsigned_minus_1_eq_mask mask_eq_exp_minus_1)

lemma message_weight:
  assumes "length message \<le> 100" "list_all (\<lambda>i. instruction_assets i \<le> 100) message"
  shows "list_ex refused message \<longleftrightarrow> 2 ^ 63 \<le> sum_list (map (\<lambda>i. unat (xcm_weight f g i)) message)"
proof (cases "list_ex refused message")
  case True
  then obtain i where "i \<in> set message" "refused i" by (auto simp: list_ex_iff)
  then have "unat (xcm_weight f g i) \<in> set (map (\<lambda>i. unat (xcm_weight f g i)) message)" by (simp del: refused.simps)
  from member_le_sum_list [OF this] refused_weight [OF \<open>refused i\<close>] True show ?thesis by simp
next
  case False
  then have "sum_list (map (\<lambda>i. unat (xcm_weight f g i)) message) \<le> sum_list (map (\<lambda>_. 2000000000000000) message)"
    using assms(2) by (intro sum_list_mono supported_weight) (auto simp: list_ex_iff list_all_iff)
  also have "\<dots> < 2 ^ 63" using assms(1) by (simp add: sum_list_triv)
  finally show ?thesis using False by simp
qed

end

text \<open>The database weights of a runtime are bounded, and with them the benchmarked weights.\<close>

locale bounded_db =
  fixes db :: db_weight
  assumes linear: "linear_db db"
begin

lemma access_bound:
  assumes "n \<le> 8"
  shows "unat (db_reads db n) \<le> 8000000000000" "unat (db_writes db n) \<le> 8000000000000"
proof -
  obtain rd wr where db: "rd \<le> 1000000000000" "wr \<le> 1000000000000" "db_reads db = sat_mul rd" "db_writes db = sat_mul wr"
    using linear by (auto simp: linear_db_def)
  have "unat rd * unat n \<le> 1000000000000 * 8" "unat wr * unat n \<le> 1000000000000 * 8"
    using assms db(1,2) by (intro mult_le_mono; simp add: word_le_nat_alt)+
  then show "unat (db_reads db n) \<le> 8000000000000" "unat (db_writes db n) \<le> 8000000000000"
    by (simp_all add: db(3,4) unat_sat_mul)
qed

lemma reads_writes_bound:
  assumes "base \<le> 1000000000" "i \<le> 8" "j \<le> 8"
  shows "sat_add (sat_add base (db_reads db i)) (db_writes db j) \<le> 20000000000000"
  using assms access_bound [OF assms(2)] access_bound [OF assms(3)] by (simp add: word_le_nat_alt unat_sat_add)

lemma reads_or_writes_bound:
  assumes "base \<le> 1000000000" "i \<le> 8"
  shows "sat_add base (db_reads db i) \<le> 20000000000000" "sat_add base (db_writes db i) \<le> 20000000000000"
  using assms access_bound [OF assms(2)] by (simp_all add: word_le_nat_alt unat_sat_add)

end

sublocale bounded_db \<subseteq> statemine: xcm_weight_info "statemine_xcm_fungible db" "statemine_xcm_generic db"
  by unfold_locales (simp_all add: statemine_xcm_fungible_def statemine_xcm_generic_def reads_writes_bound reads_or_writes_bound)

sublocale bounded_db \<subseteq> statemint: xcm_weight_info "statemint_xcm_fungible db" "statemint_xcm_generic db"
  by unfold_locales (simp_all add: statemint_xcm_fungible_def statemint_xcm_generic_def reads_writes_bound reads_or_writes_bound)

sublocale bounded_db \<subseteq> westmint: xcm_weight_info "westmint_xcm_fungible db" "westmint_xcm_generic db"
  by unfold_locales (simp_all add: westmint_xcm_fungible_def westmint_xcm_generic_def reads_writes_bound reads_or_writes_bound)

context bounded_db
begin

lemma message_weights:
  assumes "weigh \<in> {statemine_xcm_weight db, statemint_xcm_weight db, westmint_xcm_weight db}"
    and "length message \<le> 100" "list_all (\<lambda>i. instruction_assets i \<le> 100) message"
  shows "list_ex refused message \<longleftrightarrow> 2 ^ 63 \<le> sum_list (map (\<lambda>i. unat (weigh i)) message)"
  using assms(1) statemine.message_weight [OF assms(2,3)] statemint.message_weight [OF assms(2,3)] westmint.message_weight [OF assms(2,3)]
  unfolding statemine_xcm_weight_def statemint_xcm_weight_def westmint_xcm_weight_def by blast

end

interpretation rocks: bounded_db rocks_db
  by unfold_locales (rule rocks_db_linear)

text \<open>The weight of a message on an asset chain tells whether it has an instruction that the chain refuses: with one the sum of
  the weights is at least half of what a weight can be, and otherwise less, for messages within the limits on instructions
  and assets.\<close>

theorem refused_by_weight:
  assumes "linear_db db" "weigh \<in> {statemine_xcm_weight db, statemint_xcm_weight db, westmint_xcm_weight db}"
    and "length message \<le> unat MaxInstructions" "list_all (\<lambda>i. instruction_assets i \<le> unat MAX_ASSETS) message"
  shows "list_ex refused message \<longleftrightarrow> 2 ^ 63 \<le> sum_list (map (\<lambda>i. unat (weigh i)) message)"
  using bounded_db.message_weights [OF bounded_db.intro [OF assms(1)] assms(2)] assms(3,4)
  by (simp add: MaxInstructions_def MAX_ASSETS_def)

theorem refused_by_weight_witness:
  "\<not> 2 ^ 63 \<le> sum_list (map (\<lambda>i. unat (statemint_xcm_weight rocks_db i)) [WithdrawAsset [()], BuyExecution, DepositAsset Wild])"
  using refused_by_weight [OF rocks_db_linear, of "statemint_xcm_weight rocks_db" "[WithdrawAsset [()], BuyExecution, DepositAsset Wild]"]
  by (simp add: MaxInstructions_def MAX_ASSETS_def)

text \<open>
  A filter for all assets weighs at least as much as one that names up to \<open>MAX_ASSETS\<close> of them.  The weights of deposits and
  teleports are capped: with RocksDB a deposit of seven assets already has the weight of all deposits that are larger, and a
  teleport of a single asset weighs less than its benchmark.
\<close>

lemma wild_weighs_most:
  assumes "filter_assets assets \<le> unat MAX_ASSETS"
  shows "weigh_asset_filter assets w \<le> weigh_asset_filter Wild w"
  using assms of_nat_le_word [of "filter_assets assets" "100 :: u64"]
  by (cases assets) (simp_all add: MAX_ASSETS_def sat_mul_mono)

lemma capped_weights:
  "statemine_xcm_weight rocks_db (DepositAsset (Definite (replicate 7 ()))) = 1000000000"
  "statemine_xcm_weight rocks_db (DepositAsset Wild) = 1000000000"
  "statemine_xcm_weight rocks_db (InitiateTeleport (Definite [()])) < xf_initiate_teleport (statemine_xcm_fungible rocks_db)"
  by code_simp+

end
