(* ===== verification/Penpal_Xcm.thy ===== *)
theory Penpal_Xcm
  imports Runtime_Common
begin

text \<open>
  Which chains the test runtime penpal trusts as reserves of assets
  (\<^verbatim>\<open>src/parachains/runtimes/testing/penpal/src/xcm_config.rs\<close>).  Its barrier, its filter of assets and its handler of
  credit have the text of \<open>Runtime_Common\<close>.
\<close>

section \<open>Reserves\<close>

definition first_interior :: "multi_location \<Rightarrow> junction option" where
  "first_interior location = (case location of MultiLocation _ [] \<Rightarrow> None | MultiLocation _ (j # _) \<Rightarrow> Some j)"

definition parent_count :: "multi_location \<Rightarrow> u8" where
  "parent_count location = (case location of MultiLocation parents _ \<Rightarrow> parents)"

definition reserve :: "xcm_asset_id multi_asset \<Rightarrow> multi_location option" where
  "reserve asset =
     (case asset_id asset of
        Concrete location \<Rightarrow>
          (let parents = parent_count location in
           case first_interior location of
             Some (Parachain para_id) \<Rightarrow>
               if parents = 0 then Some (MultiLocation 0 [Parachain para_id])
               else if parents = 1 then Some (MultiLocation 1 [Parachain para_id])
               else None
           | _ \<Rightarrow> if parents = 1 then Some (MultiLocation 1 []) else None)
      | Abstract _ \<Rightarrow> None)"

definition multi_native_asset :: "xcm_asset_id multi_asset \<Rightarrow> multi_location \<Rightarrow> bool" where
  "multi_native_asset asset origin = (case reserve asset of Some r \<Rightarrow> r = origin | None \<Rightarrow> False)"

definition common_good_assets_location :: multi_location where
  "common_good_assets_location = MultiLocation 1 [Parachain 1000]"

definition common_good_assets_parachain :: "multi_location \<Rightarrow> bool" where
  "common_good_assets_parachain location = (location = MultiLocation 1 [Parachain 1000])"

section \<open>What is trusted\<close>

text \<open>
  An asset has at most one reserve, which is a chain that the asset's location lies in: the relay chain, or the parachain, next to
  this one or below it, that the location begins with.
\<close>

theorem reserve_contains_asset:
  assumes "multi_native_asset asset origin"
  shows "(\<forall>origin'. multi_native_asset asset origin' \<longrightarrow> origin' = origin) \<and>
    (\<exists>parents chain rest. origin = MultiLocation parents chain \<and> asset_id asset = Concrete (MultiLocation parents (chain @ rest)) \<and>
       (parents = 1 \<and> chain = [] \<and> (\<forall>p rest'. rest \<noteq> Parachain p # rest') \<or> (parents = 0 \<or> parents = 1) \<and> (\<exists>p. chain = [Parachain p])))"
proof -
  obtain parents js where loc: "asset_id asset = Concrete (MultiLocation parents js)" and r: "reserve asset = Some origin"
    using assms by (auto simp: multi_native_asset_def reserve_def split: option.splits xcm_asset_id.splits) (metis multi_location.exhaust)
  then have "\<exists>chain rest. origin = MultiLocation parents chain \<and> js = chain @ rest \<and>
      (parents = 1 \<and> chain = [] \<and> (\<forall>p rest'. rest \<noteq> Parachain p # rest') \<or> (parents = 0 \<or> parents = 1) \<and> (\<exists>p. chain = [Parachain p]))"
    by (cases js) (auto simp: reserve_def first_interior_def parent_count_def Let_def split: junction.splits if_splits)
  moreover have "\<forall>origin'. multi_native_asset asset origin' \<longrightarrow> origin' = origin"
    using r by (simp add: multi_native_asset_def)
  ultimately show ?thesis using loc by blast
qed

text \<open>The filter that the source names as its replacement trusts nothing more of the common good parachain; \<open>match_and_split\<close>
  gives the one junction by which a location continues a prefix.\<close>

lemma common_good_assets_trusted:
  assumes "\<And>l p j. match_and_split l p = Some j \<Longrightarrow>
      \<exists>parents js. p = MultiLocation parents js \<and> l = MultiLocation parents (js @ [j])"
    and "assets_from match_and_split common_good_assets_location asset origin"
  shows "multi_native_asset asset origin"
proof -
  obtain l n where l: "asset_id asset = Concrete l" "origin = common_good_assets_location"
    using assets_from_origin [OF assms(2)] by blast
  with assms(2) obtain j where "match_and_split l common_good_assets_location = Some j"
    by (auto simp: assets_from_def split: fungibility.splits)
  with assms(1) obtain parents js where "common_good_assets_location = MultiLocation parents js" "l = MultiLocation parents (js @ [j])" by blast
  with l show ?thesis
    by (auto simp: multi_native_asset_def reserve_def first_interior_def parent_count_def common_good_assets_location_def)
qed

end
