(* ===== verification/Spec2Isabelle.thy ===== *)
theory Spec2Isabelle
  imports Dmp_Queue Xcmp_Inbound Migrations Validate_Block Collator_Selection Solo_To_Para Runtime_Common
    Cumulus_Xcm Ping Aura_Ext Inherent_Data Collator Pov_Recovery Consensus_Adapters
    Mock_Inherent Relay_Interface Wait_For_Aura Node_Command Node_Cli Runtime_Proxies Runtime_Fees Xcm_Weights Penpal_Xcm
begin

text \<open>
  \<^bold>\<open>Cumulus: verification of the parachain runtime and of the node around it\<close>

  Cumulus turns a Substrate chain into a parachain.  In the runtime, the pallet \<^verbatim>\<open>parachain-system\<close> receives
  once per block, as an inherent, the state of the relay chain with a proof, checks that the messages delivered
  with it are the ones the relay chain holds, hands them to the queues of downward (DMP) and horizontal (XCMP)
  messages, and at the end of the block collects what the block sends.  On the relay chain,
  \<^verbatim>\<open>validate_block\<close> runs the same runtime on the block and its storage proof.  On the node, the collator
  produces blocks and commits to their outputs, announcements carry the statement of a validator, the consensus task
  follows the heads the relay chain includes, and PoV recovery fetches blocks nobody sent.

  \<^bold>\<open>Conventions.\<close>  Storage is a record per pallet; a call returns a sum whose left side is the error (calls are
  transactional, so an error carries no state); \<open>None\<close> is a panic or, for the executor's loops, not
  returning.  Integers are words of their width; arithmetic wraps where the source uses plain operators (the
  release profile) and saturates where it says so.  A weight is its \<^verbatim>\<open>ref_time\<close>.  Code of other
  repositories is a field of a configuration record: the XCM executor, SCALE codecs of foreign types, hash functions,
  signatures, tries, the currency, the relay chain node.  What a theorem needs of it is a named hypothesis (for
  instance \<open>dmp_executor_bounded\<close>, \<open>psys_frames\<close>, \<open>dmp_handler_pulls_all\<close>,
  \<open>executes_pallet\<close>, \<open>same_runtime\<close>), and each such theorem has a witness that evaluates it at a concrete instance.  Logs are
  left out.

  \<^bold>\<open>Theories.\<close>
  \<^item> \<open>Prelude\<close>, \<open>Rust_Std\<close>: words, saturating arithmetic, results, panics; binary search, vectors
    updated in place, rotation and swaps as the standard library has them.
  \<^item> \<open>Xcm_Interface\<close>: outcomes, origins, channel states and the interfaces the components share, as locales:
    handlers within a weight limit, codecs, sources of outbound messages.
  \<^item> \<open>Dmp_Queue\<close> (\<^verbatim>\<open>src/pallets/dmp-queue\<close>): handling a block on the paged storage refines one
    flat queue; the weights of the serviced messages add up within the limit, without wrap-around; pages and overweight
    indices never collide; a heavy head blocks the queue.
  \<^item> \<open>Xcmp_Queue\<close>, \<open>Xcmp_Outbound\<close>, \<open>Xcmp_Inbound\<close>
    (\<^verbatim>\<open>src/pallets/xcmp-queue\<close>): the model, the outbound half (first in first out, limits of channels,
    ascending recipients, the invariant, exactly when taking messages panics) and the inbound half (the service loop
    returns, within the weight limit).  \<open>Migrations\<close>: the storage migrations of this pallet and of the next.
  \<^item> \<open>Message_Queue_Chain\<close>, \<open>Relay_State\<close>, \<open>Parachain_System\<close>
    (\<^verbatim>\<open>src/primitives/parachain-inherent\<close>, \<^verbatim>\<open>src/pallets/parachain-system\<close>): the hash chains over
    messages, the reading of the relay chain's state, and the pallet.  \<open>Parachain_Messages\<close>: what an accepted
    inherent delivers is genuine or the hash collides; what a block sends upward, and that the size of a message is not checked
    again by then.  \<open>Parachain_Blocks\<close>: blocks as sequences of operations of the pallet and steps of others, one
    inherent per block, increasing relay parents, code upgrades, channel information.
  \<^item> \<open>Validate_Block\<close> (\<^verbatim>\<open>validate_block/implementation.rs\<close>): the steps of a
    successful validation and its result, the binding of a block to the relay parent, the storage host functions.
  \<^item> \<open>Collator_Selection\<close>, \<open>Solo_To_Para\<close>, \<open>Aura_Ext\<close>, \<open>Cumulus_Xcm\<close>,
    \<open>Ping\<close>: the pallets of these names under \<^verbatim>\<open>src/pallets\<close> and
    \<^verbatim>\<open>src/parachains/pallets\<close>; \<open>Aura_Ext\<close> also has \<^verbatim>\<open>src/primitives/timestamp\<close>.
  \<^item> \<open>Asset_Trader\<close> (\<^verbatim>\<open>src/primitives/utility\<close>) and \<open>Runtime_Common\<close>
    (\<^verbatim>\<open>src/parachains/common\<close>, \<^verbatim>\<open>parachain-info\<close>): routers, traders, barriers, filters, fees.
  \<^item> \<open>Client_Interface\<close>, \<open>Block_Announce\<close>, \<open>Collator\<close>, \<open>Parachain_Consensus\<close>,
    \<open>Pov_Recovery\<close> (\<^verbatim>\<open>src/client\<close>): the tasks of the node as steps on events, each given the
    view of the client it reads.  What the collator commits to is what validation returns; what it announces is
    accepted; the best block is one the relay chain gave; recovered blocks are imported parents first and none
    waits in vain.
  \<^item> \<open>Consensus_Adapters\<close> (\<^verbatim>\<open>src/client/consensus/aura\<close>, \<^verbatim>\<open>relay-chain\<close>): production
    of candidates and verification of imported blocks; a candidate's block was handed to the import, which did not fail, not as best block.
    \<open>Inherent_Data\<close> (\<^verbatim>\<open>parachain-inherent/src/client_side.rs\<close>): the node collects a proof from which the
    runtime reads what the relay chain's whole state has.  \<open>Mock_Inherent\<close> (\<^verbatim>\<open>mock.rs\<close>,
    \<^verbatim>\<open>src/test/relay-sproof-builder\<close>): relay chain states made for tests are read back as built, and mocked data is
    accepted.
  \<^item> \<open>Relay_Interface\<close> (\<^verbatim>\<open>src/client/relay-chain-*\<close>): the interfaces to the relay chain, in the
    process and over RPC; what the listeners of the RPC worker get and miss; waiting for a block misses no notification.
  \<^item> \<open>Node_Service\<close> (\<^verbatim>\<open>src/client/service\<close>, arguments of \<^verbatim>\<open>src/client/cli\<close>): the start of
    collators and full nodes and the interface to the relay chain.  \<open>Node_Start\<close>
    (\<^verbatim>\<open>src/polkadot-parachain/src/service.rs\<close>, \<^verbatim>\<open>src/parachain-template/node/src/service.rs\<close>): the start of
    every kind of node with the tasks it leaves behind.  \<open>Wait_For_Aura\<close>: the consensus and the verifier that switch to
    aura.  \<open>Chain_Specs\<close> (\<^verbatim>\<open>chain_spec\<close>): every specification made in code gives a genesis that the pallets accept.
    \<open>Node_Command\<close> (\<^verbatim>\<open>command.rs\<close>): the specification and runtime of an identifier, and that a node verifies
    by the consensus and the keys it produces by.  \<open>Node_Cli\<close> (\<^verbatim>\<open>src/client/cli\<close>): purging removes only what is confirmed,
    exports read back.
  \<^item> \<open>Runtime_Proxies\<close>, \<open>Runtime_Fees\<close>, \<open>Penpal_Xcm\<close> (\<^verbatim>\<open>src/parachains/runtimes\<close>,
    \<^verbatim>\<open>src/parachain-template\<close>): proxies ordered by what they may do, the fee of the base weight, the template pallet,
    the reserves penpal trusts.
  \<^item> \<open>Collator_Weights\<close>, \<open>Xcm_Weights\<close> (\<^verbatim>\<open>weights.rs\<close> of collator selection, \<^verbatim>\<open>weights\<close> of the
    runtimes): the refunds of calls, the weight of a session, and the weights by which the asset chains refuse instructions.
  \<^item> \<open>Example_Executor\<close>, \<open>Example_Runtime\<close>: the concrete instances the witnesses evaluate.

  This theory wires the XCMP queue into the parachain system, as the runtimes do, and shows that the horizontal
  messages of a candidate are ones the relay chain accepts.

  \<^bold>\<open>Loops.\<close>  Loops over storage or vectors are structural or have a termination proof (the waiting blocks of
  PoV recovery by their number).  Only the loops that decode fragments and service the inbound queue are partial, since
  a foreign decoder need not consume input and the service loop need not make progress; that they return under the
  hypotheses on the decoder and the configuration is a theorem.  There is no fuel.

  \<^bold>\<open>What the code does against its intent.\<close>  Some theorems state behaviour that looks unintended: panics of
  \<open>take_outbound_messages\<close> on closed channels and on pages of maximal size when no other message is sent, upward messages
  sent although they have become too big, signals stranded on resuming, a
  sender entered twice, heavy pages dropped, a collator listed twice, head data surviving an aborted migration,
  a recovered block lost behind a waiting parent, an abandoned head becoming the best block, a collator with a remote
  relay chain node that panics at its start, sessions registered with too little weight, a panic where the slot duration
  cannot be read for the first block with aura.

  \<^bold>\<open>Not modelled.\<close>  The configuration of the runtimes (constants, choices of types, generated dispatch), the subcommands
  that are Substrate's, RPC servers, the weights of pallets of other repositories (generated) and benchmarks, the export macro
  (code generation), test clients.  Of the consensus adapters and of the start of a node, the construction of the aura worker
  and of its queue is not modelled: it passes its arguments on to Substrate.
\<close>

section \<open>The queue of outbound messages in the parachain system\<close>

text \<open>
  The runtime's wiring: the XCMP queue is the message source of the parachain system and asks it for the
  state of channels.  The queue's view of the rest of the runtime is the function that gives that state.
\<close>

definition xcmp_message_source ::
  "('m, 'u, 'v, 'x, 'acc, para_id \<Rightarrow> channel_status) xcmp_config \<Rightarrow> nat \<Rightarrow>
     ('p, (para_id \<Rightarrow> channel_status) xcmp_state) psys_state \<Rightarrow>
     ((para_id \<times> bytes) list \<times> (para_id \<Rightarrow> channel_status) xcmp_state) option" where
  "xcmp_message_source xcfg maximum_channels s =
     take_outbound_messages xcfg maximum_channels ((psys_world s)\<lparr>xcmp_world := get_channel_status s\<rparr>)"

lemma outbound_inv_world [simp]: "outbound_inv (s\<lparr>xcmp_world := w\<rparr>) = outbound_inv s"
  by (simp add: outbound_inv_def)

lemma status_of_channel_Ready:
  "status_of_channel c = Ready now ever \<longleftrightarrow>
     (\<exists>ch. c = Some ch \<and> unat (ch_msg_count ch) < unat (ch_max_capacity ch) \<and>
        now = unat (ch_max_total_size ch) - unat (ch_total_size ch) \<and> ever = unat (ch_max_message_size ch))"
  by (cases c) auto

text \<open>C1. The horizontal messages of a candidate are acceptable to the relay chain: at most as many as the fresh
  configuration allows and the block announced, one per recipient in ascending order, each for an open
  channel with room for another message of its size, within the largest size of the channel; and the
  queue keeps its invariant.\<close>

theorem candidate_hrmp_messages_acceptable:
  assumes "psys_on_finalize cfg s = Some s'" "ps_take_outbound_messages cfg = xcmp_message_source xcfg"
    and "xcmp_channel_status xcfg = (\<lambda>w. w)" "outbound_inv (psys_world s)"
    and "HostConfiguration s = Some hc" "RelevantMessagingState s = Some st" "channels_ok (egress_channels st)"
  shows "length (HrmpOutboundMessages s') \<le>
      unat (min (hc_hrmp_max_message_num_per_candidate hc) (AnnouncedHrmpMessagesPerCandidate s)) \<and>
    sorted_wrt (<) (map om_recipient (HrmpOutboundMessages s')) \<and>
    list_all (\<lambda>m. \<exists>ch. map_of (egress_channels st) (om_recipient m) = Some ch \<and>
        unat (ch_msg_count ch) < unat (ch_max_capacity ch) \<and>
        unat (ch_total_size ch) + length (om_data m) < unat (ch_max_total_size ch) \<and>
        length (om_data m) \<le> unat (ch_max_message_size ch)) (HrmpOutboundMessages s') \<and>
    outbound_inv (psys_world s')"
proof -
  let ?n = "unat (min (hc_hrmp_max_message_num_per_candidate hc) (AnnouncedHrmpMessagesPerCandidate s))"
  obtain ms w s1 where take: "xcmp_message_source xcfg ?n s1 = Some (ms, w)"
    and s1: "psys_world s1 = psys_world s" "RelevantMessagingState s1 = Some st"
    and s': "s' = s1\<lparr>HrmpOutboundMessages := map (\<lambda>(recipient, data). \<lparr>om_recipient = recipient, om_data = data\<rparr>) ms,
      psys_world := w\<rparr>"
    using psys_on_finalize_returns [OF assms(1,5,6)] by (auto simp: assms(2,6))
  let ?q = "(psys_world s1)\<lparr>xcmp_world := get_channel_status s1\<rparr>"
  have q: "outbound_inv ?q" "take_outbound_messages xcfg ?n ?q = Some (ms, w)"
    using assms(4) take by (simp_all add: s1(1) xcmp_message_source_def)
  have acceptable: "\<exists>ch. map_of (egress_channels st) r = Some ch \<and> unat (ch_msg_count ch) < unat (ch_max_capacity ch) \<and>
      unat (ch_total_size ch) + length page < unat (ch_max_total_size ch) \<and> length page \<le> unat (ch_max_message_size ch)"
    if sent: "(r, page) \<in> set ms" for r page
  proof -
    obtain now ever where "get_channel_status s1 r = Ready now ever" "length page < now" "length page \<le> ever"
      using take_outbound_messages_open [OF q sent] by (auto simp: assms(3))
    moreover have "get_channel_status s1 r = status_of_channel (map_of (egress_channels st) r)"
      using channel_lookup(1) [OF s1(2) assms(7)] .
    ultimately show ?thesis by (auto simp: status_of_channel_Ready)
  qed
  have sent: "HrmpOutboundMessages s' = map (\<lambda>(recipient, data). \<lparr>om_recipient = recipient, om_data = data\<rparr>) ms"
    "map om_recipient (HrmpOutboundMessages s') = map fst ms" "psys_world s' = w"
    by (auto simp: s')
  show ?thesis
    unfolding sent(2,3)
    using xcmp_source.take_ascending [OF q] xcmp_source.take_bounded [OF q] xcmp_source.take_inv [OF q] acceptable
    by (auto simp: list_all_iff sent(1))
qed

text \<open>The example runtime with the example queue: two pages wait, for an open and for a full channel.\<close>

definition toy_runtime :: "((bytes \<times> bytes) list, (para_id \<Rightarrow> channel_status) xcmp_state) psys_config" where
  "toy_runtime = example_psys\<lparr>ps_take_outbound_messages := xcmp_message_source toy_xcmp\<rparr>"

definition toy_queue :: "(para_id \<Rightarrow> channel_status) xcmp_state" where
  "toy_queue = snd (send_fragment toy_xcmp id 3 ConcatenatedVersionedXcm [11]
     (snd (send_fragment toy_xcmp id 4 ConcatenatedVersionedXcm [12] (xcmp_genesis (\<lambda>_. Ready 20 4)))))"

definition toy_runtime_state :: "((bytes \<times> bytes) list, (para_id \<Rightarrow> channel_status) xcmp_state) psys_state" where
  "toy_runtime_state = (psys_genesis [] toy_queue)\<lparr>ValidationData := Some (validation_data toy_inherent),
     HostConfiguration := Some toy_host_configuration, RelevantMessagingState := Some toy_snapshot,
     AnnouncedHrmpMessagesPerCandidate := 2\<rparr>"

theorem candidate_hrmp_messages_acceptable_witness:
  "\<exists>s'. psys_on_finalize toy_runtime toy_runtime_state = Some s' \<and>
     map om_recipient (HrmpOutboundMessages s') = [3] \<and> outbound_inv (psys_world s')"
proof -
  have "case psys_on_finalize toy_runtime toy_runtime_state of
      Some s' \<Rightarrow> map om_recipient (HrmpOutboundMessages s') = [3] | _ \<Rightarrow> False" by code_simp
  then obtain s' where s': "psys_on_finalize toy_runtime toy_runtime_state = Some s'"
      "map om_recipient (HrmpOutboundMessages s') = [3]"
    by (auto split: option.splits)
  have ok: "channels_ok (egress_channels toy_snapshot)" by code_simp
  have "outbound_reachable toy_xcmp toy_queue" unfolding toy_queue_def
    by (intro out_fragment [OF _ _ prod.collapse [symmetric]] out_start) code_simp+
  then have "outbound_inv (psys_world toy_runtime_state)"
    using outbound_inv_reachable by (simp add: toy_runtime_state_def psys_genesis_def)
  then have "outbound_inv (psys_world s')"
    using candidate_hrmp_messages_acceptable [OF s'(1) _ _ _ _ _ ok, where hc = toy_host_configuration and xcfg = toy_xcmp]
    by (simp add: toy_runtime_def toy_runtime_state_def toy_xcmp_def)
  then show ?thesis using s' by (intro exI [of _ s'] conjI)
qed

end
